(* ===== verification/Prelude.thy ===== *)
theory Prelude
  imports Main "HOL-Library.Word"
begin

text \<open>
  Shared base of the development. It holds the outcome type of a kernel routine, the sequencing
  combinators in which every stateful routine is written, two program logics over them (total
  correctness and preservation of an invariant), the scan for the first matching slot of a table
  that the kernel's allocators share, and the locale of a state machine with an invariant.
\<close>

unbundle bit_operations_syntax

type_synonym byte = "8 word"
type_synonym u16 = "16 word"
type_synonym u32 = "32 word"

named_theorems kdefs \<open>definitions of routines that a proof unfolds\<close>
named_theorems wp \<open>rules of the total-correctness logic\<close>
named_theorems keeps_rules \<open>rules of the preservation logic\<close>

section \<open>Outcomes of a kernel routine\<close>

text \<open>
  A routine runs on the kernel state until it returns (\<open>Done\<close>), calls \<^verbatim>\<open>panic\<close>
  (\<open>Panics\<close>, with the message), gives up the processor through \<^verbatim>\<open>swtch\<close>
  (\<open>Switched\<close>, with the state at the switch and the continuation that runs on whatever
  state the routine is resumed in), or does something the C code has no defined continuation for
  (\<open>Stuck\<close>: a null or out-of-range access, spinning on a lock that this run cannot release,
  or more rounds of an endless loop than the fuel allows).
\<close>

datatype ('s, 'a) outcome =
    Done 'a 's
  | Panics string
  | Switched 's "'s \<Rightarrow> ('s, 'a) outcome"
  | Stuck string

type_synonym ('s, 'a) routine = "'s \<Rightarrow> ('s, 'a) outcome"

primrec andthen :: "('s, 'a) outcome \<Rightarrow> ('a \<Rightarrow> ('s, 'b) routine) \<Rightarrow> ('s, 'b) outcome" where
  "andthen (Done a t) f = f a t"
| "andthen (Panics e) f = Panics e"
| "andthen (Switched t k) f = Switched t (\<lambda>u. andthen (k u) f)"
| "andthen (Stuck e) f = Stuck e"

definition ret :: "'a \<Rightarrow> ('s, 'a) routine" where
  "ret a = (\<lambda>s. Done a s)"

definition bnd :: "('s, 'a) routine \<Rightarrow> ('a \<Rightarrow> ('s, 'b) routine) \<Rightarrow> ('s, 'b) routine" where
  "bnd m f = (\<lambda>s. andthen (m s) f)"

definition gets :: "('s \<Rightarrow> 'a) \<Rightarrow> ('s, 'a) routine" where
  "gets f = (\<lambda>s. Done (f s) s)"

definition modify :: "('s \<Rightarrow> 's) \<Rightarrow> ('s, unit) routine" where
  "modify f = (\<lambda>s. Done () (f s))"

definition panic :: "string \<Rightarrow> ('s, 'a) routine" where
  "panic e = (\<lambda>s. Panics e)"

definition stuck :: "string \<Rightarrow> ('s, 'a) routine" where
  "stuck e = (\<lambda>s. Stuck e)"

text \<open>\<^verbatim>\<open>swtch\<close>: hand the state over and go on when resumed.\<close>

definition switch :: "('s, unit) routine" where
  "switch = (\<lambda>s. Switched s (\<lambda>t. Done () t))"

definition seq :: "('s, 'a) routine \<Rightarrow> ('s, 'b) routine \<Rightarrow> ('s, 'b) routine" where
  "seq m n = bnd m (\<lambda>_. n)"

definition doif :: "bool \<Rightarrow> ('s, unit) routine \<Rightarrow> ('s, unit) routine" where
  "doif b m = (if b then m else ret ())"

text \<open>A \<^verbatim>\<open>for\<close> loop over a fixed list of indices.\<close>

primrec for_each :: "'x list \<Rightarrow> ('x \<Rightarrow> ('s, unit) routine) \<Rightarrow> ('s, unit) routine" where
  "for_each [] f = ret ()"
| "for_each (x # xs) f = seq (f x) (for_each xs f)"

text \<open>
  A loop without a bound of its own: the body tells whether it goes on with a new loop variable
  (\<open>Inl\<close>) or leaves the loop with a result (\<open>Inr\<close>). The fuel is the number of rounds.
\<close>

primrec loop :: "nat \<Rightarrow> 'x \<Rightarrow> ('x \<Rightarrow> ('s, 'x + 'a) routine) \<Rightarrow> ('s, 'a) routine" where
  "loop 0 x body = stuck ''fuel''"
| "loop (Suc n) x body = bnd (body x) (\<lambda>r. case r of Inl y \<Rightarrow> loop n y body | Inr a \<Rightarrow> ret a)"

text \<open>A \<^verbatim>\<open>for\<close> loop over a fixed list of indices that the body may leave with a result.\<close>

primrec search :: "'x list \<Rightarrow> ('x \<Rightarrow> ('s, 'a option) routine) \<Rightarrow> ('s, 'a option) routine" where
  "search [] f = ret None"
| "search (x # xs) f = bnd (f x) (\<lambda>r. case r of Some a \<Rightarrow> ret (Some a) | None \<Rightarrow> search xs f)"

lemma ret_apply [simp]: "ret a s = Done a s"
  by (simp add: ret_def)

lemma gets_apply [simp]: "gets f s = Done (f s) s"
  by (simp add: gets_def)

lemma modify_apply [simp]: "modify f s = Done () (f s)"
  by (simp add: modify_def)

lemma panic_apply [simp]: "panic e s = Panics e"
  by (simp add: panic_def)

lemma stuck_apply [simp]: "stuck e s = Stuck e"
  by (simp add: stuck_def)

lemma switch_apply [simp]: "switch s = Switched s (\<lambda>t. Done () t)"
  by (simp add: switch_def)

lemma bnd_apply [simp]: "bnd m f s = andthen (m s) f"
  by (simp add: bnd_def)

lemma seq_apply [simp]: "seq m n s = andthen (m s) (\<lambda>_. n)"
  by (simp add: seq_def)

lemma doif_apply [simp]: "doif b m s = (if b then m s else Done () s)"
  by (simp add: doif_def)

lemma andthen_if [simp]: "andthen (if b then x else y) f = (if b then andthen x f else andthen y f)"
  by simp

lemma andthen_assoc: "andthen (andthen r f) g = andthen r (\<lambda>a. bnd (f a) g)"
  by (induction r) (simp_all add: fun_eq_iff)

lemma andthen_ret: "andthen r ret = r"
  by (induction r) (simp_all add: fun_eq_iff)

lemma bnd_assoc: "bnd (bnd m f) g = bnd m (\<lambda>a. bnd (f a) g)"
  by (simp add: fun_eq_iff andthen_assoc)

lemma seq_assoc: "seq (seq a b) c = seq a (seq b c)"
  by (simp add: seq_def bnd_assoc)

lemma seq_bnd_assoc: "seq (bnd a f) c = bnd a (\<lambda>x. seq (f x) c)"
  by (simp add: seq_def bnd_assoc)

lemma seq_ret [simp]: "seq (ret a) m = m" "seq m (ret ()) = m"
proof -
  show "seq (ret a) m = m" by (simp add: fun_eq_iff)
  have "(\<lambda>_. ret ()) = (ret :: unit \<Rightarrow> ('s, unit) routine)" by (simp add: fun_eq_iff)
  then show "seq m (ret ()) = m" for m :: "('s, unit) routine"
    by (simp add: fun_eq_iff andthen_ret)
qed

section \<open>Total correctness\<close>

text \<open>\<open>run_ok (m s) Q\<close>: the routine returns without giving up the processor, and its result
  and final state satisfy \<open>Q\<close>.\<close>

fun run_ok :: "('s, 'a) outcome \<Rightarrow> ('a \<Rightarrow> 's \<Rightarrow> bool) \<Rightarrow> bool" where
  "run_ok (Done a t) Q = Q a t"
| "run_ok (Panics e) Q = False"
| "run_ok (Switched t k) Q = False"
| "run_ok (Stuck e) Q = False"

lemma run_ok_iff: "run_ok r Q \<longleftrightarrow> (\<exists>a t. r = Done a t \<and> Q a t)"
  by (cases r) auto

lemma run_ok_bnd [wp]:
  "run_ok (m s) (\<lambda>a t. run_ok (f a t) Q) \<Longrightarrow> run_ok (bnd m f s) Q"
  by (cases "m s") auto

lemma run_ok_seq [wp]:
  "run_ok (m s) (\<lambda>a t. run_ok (n t) Q) \<Longrightarrow> run_ok (seq m n s) Q"
  by (cases "m s") auto

lemma run_ok_mono: "run_ok r Q \<Longrightarrow> (\<And>a t. Q a t \<Longrightarrow> R a t) \<Longrightarrow> run_ok r R"
  by (cases r) auto

text \<open>A loop over a list returns and keeps an invariant that every round keeps.\<close>

lemma run_ok_for_each:
  assumes "I s" and "\<And>x t. x \<in> set xs \<Longrightarrow> I t \<Longrightarrow> run_ok (f x t) (\<lambda>_. I)"
  shows "run_ok (for_each xs f s) (\<lambda>_. I)"
  using assms
proof (induction xs arbitrary: s)
  case Nil
  then show ?case by simp
next
  case (Cons x xs)
  then have "run_ok (f x s) (\<lambda>_. I)" by simp
  then have "run_ok (f x s) (\<lambda>a t. run_ok (for_each xs f t) (\<lambda>_. I))"
    by (rule run_ok_mono) (use Cons in auto)
  then show ?case by (simp only: for_each.simps run_ok_seq)
qed

section \<open>Rely and guarantee\<close>

text \<open>
  \<open>post G R r Q\<close>: if the run returns, its result and final state satisfy \<open>Q\<close>. Each time
  it gives up the processor the state satisfies \<open>G\<close>, and the run may rely on being resumed
  in a state related by \<open>R\<close> to the one it left.
\<close>

primrec post :: "('s \<Rightarrow> bool) \<Rightarrow> ('s \<Rightarrow> 's \<Rightarrow> bool) \<Rightarrow> ('s, 'a) outcome \<Rightarrow> ('a \<Rightarrow> 's \<Rightarrow> bool) \<Rightarrow> bool" where
  "post G R (Done a t) Q = Q a t"
| "post G R (Panics e) Q = True"
| "post G R (Switched t k) Q = (G t \<and> (\<forall>u. R t u \<longrightarrow> post G R (k u) Q))"
| "post G R (Stuck e) Q = True"

lemma post_mono: "post G R r Q \<Longrightarrow> (\<And>a t. Q a t \<Longrightarrow> Q' a t) \<Longrightarrow> post G R r Q'"
  by (induction r) auto

lemma post_andthen [simp]: "post G R (andthen r f) Q = post G R r (\<lambda>a t. post G R (f a t) Q)"
  by (induction r) auto

lemma post_for_each:
  assumes "I s" and "\<And>x t. x \<in> set xs \<Longrightarrow> I t \<Longrightarrow> post G R (f x t) (\<lambda>_. I)"
  shows "post G R (for_each xs f s) (\<lambda>_. I)"
  using assms
proof (induction xs arbitrary: s)
  case Nil
  then show ?case by simp
next
  case (Cons x xs)
  then have "post G R (f x s) (\<lambda>_. I)" by simp
  then have "post G R (f x s) (\<lambda>a t. post G R (for_each xs f t) (\<lambda>_. I))"
    by (rule post_mono) (use Cons in auto)
  then show ?case by simp
qed

lemma post_loop:
  assumes "I x s" and "\<And>x t. I x t \<Longrightarrow>
    post G R (body x t) (\<lambda>r u. case r of Inl y \<Rightarrow> I y u | Inr a \<Rightarrow> Q a u)"
  shows "post G R (loop n x body s) Q"
  using assms(1)
proof (induction n arbitrary: x s)
  case 0
  then show ?case by simp
next
  case (Suc n)
  from assms(2) [OF Suc.prems]
  have "post G R (body x s) (\<lambda>r u. post G R ((case r of Inl y \<Rightarrow> loop n y body | Inr a \<Rightarrow> ret a) u) Q)"
    by (rule post_mono) (auto split: sum.splits intro: Suc.IH)
  then show ?case by simp
qed

section \<open>Preservation of an invariant\<close>

text \<open>
  \<open>keeps I m\<close>: from a state with \<open>I\<close>, the state in which \<open>m\<close> returns has \<open>I\<close>,
  and so has every state in which it gives up the processor, provided that it is resumed in states
  with \<open>I\<close>.
\<close>

abbreviation outcome_in :: "('s \<Rightarrow> bool) \<Rightarrow> ('s, 'a) outcome \<Rightarrow> bool" where
  "outcome_in I r \<equiv> post I (\<lambda>_. I) r (\<lambda>_. I)"

definition keeps :: "('s \<Rightarrow> bool) \<Rightarrow> ('s, 'a) routine \<Rightarrow> bool" where
  "keeps I m \<longleftrightarrow> (\<forall>s. I s \<longrightarrow> outcome_in I (m s))"

lemma keepsI: "(\<And>s. I s \<Longrightarrow> outcome_in I (m s)) \<Longrightarrow> keeps I m"
  by (simp add: keeps_def)

lemma keepsD: "keeps I m \<Longrightarrow> I s \<Longrightarrow> outcome_in I (m s)"
  by (simp add: keeps_def)

lemma keeps_Done: "keeps I m \<Longrightarrow> I s \<Longrightarrow> m s = Done a t \<Longrightarrow> I t"
  by (auto dest: keepsD)

lemma keeps_Switched:
  "keeps I m \<Longrightarrow> I s \<Longrightarrow> m s = Switched t k \<Longrightarrow> I t \<and> (I u \<longrightarrow> outcome_in I (k u))"
  by (auto dest: keepsD)

lemma keeps_ret [keeps_rules, simp]: "keeps I (ret a)"
  by (simp add: keeps_def)

lemma keeps_gets [keeps_rules, simp]: "keeps I (gets f)"
  by (simp add: keeps_def)

lemma keeps_panic [keeps_rules, simp]: "keeps I (panic e)"
  by (simp add: keeps_def)

lemma keeps_stuck [keeps_rules, simp]: "keeps I (stuck e)"
  by (simp add: keeps_def)

lemma keeps_switch [keeps_rules, simp]: "keeps I switch"
  by (simp add: keeps_def)

lemma keeps_modify [keeps_rules]: "(\<And>s. I s \<Longrightarrow> I (f s)) \<Longrightarrow> keeps I (modify f)"
  by (simp add: keeps_def)

lemma keeps_bnd [keeps_rules]: "keeps I m \<Longrightarrow> (\<And>a. keeps I (f a)) \<Longrightarrow> keeps I (bnd m f)"
  by (rule keepsI) (auto simp: keeps_def intro: post_mono [of _ _ _ "\<lambda>_. I"])

lemma keeps_seq [keeps_rules]: "keeps I m \<Longrightarrow> keeps I n \<Longrightarrow> keeps I (seq m n)"
  unfolding seq_def by (rule keeps_bnd)

lemma keeps_doif [keeps_rules]: "(b \<Longrightarrow> keeps I m) \<Longrightarrow> keeps I (doif b m)"
  by (simp add: doif_def)

lemma keeps_if [keeps_rules]:
  "(b \<Longrightarrow> keeps I m) \<Longrightarrow> (\<not> b \<Longrightarrow> keeps I n) \<Longrightarrow> keeps I (if b then m else n)"
  by simp

lemma keeps_option [keeps_rules]:
  "(x = None \<Longrightarrow> keeps I m) \<Longrightarrow> (\<And>y. x = Some y \<Longrightarrow> keeps I (n y)) \<Longrightarrow>
   keeps I (case x of None \<Rightarrow> m | Some y \<Rightarrow> n y)"
  by (cases x) auto

lemma keeps_sum [keeps_rules]:
  "(\<And>y. x = Inl y \<Longrightarrow> keeps I (m y)) \<Longrightarrow> (\<And>y. x = Inr y \<Longrightarrow> keeps I (n y)) \<Longrightarrow>
   keeps I (case x of Inl y \<Rightarrow> m y | Inr y \<Rightarrow> n y)"
  by (cases x) auto

lemma keeps_for_each [keeps_rules]: "(\<And>x. keeps I (f x)) \<Longrightarrow> keeps I (for_each xs f)"
  by (induction xs) (auto intro: keeps_seq)

lemma keeps_loop [keeps_rules]: "(\<And>x. keeps I (body x)) \<Longrightarrow> keeps I (loop n x body)"
  by (induction n arbitrary: x) (auto intro!: keeps_bnd keeps_sum)

section \<open>First matching slot of a table\<close>

text \<open>
  The kernel's tables (processes, files, descriptors, inodes) are arrays scanned from index 0 for
  the first slot with some property.
\<close>

primrec find_idx :: "('e \<Rightarrow> bool) \<Rightarrow> 'e list \<Rightarrow> nat option" where
  "find_idx P [] = None"
| "find_idx P (x # xs) = (if P x then Some 0 else map_option Suc (find_idx P xs))"

lemma find_idx_None_iff: "find_idx P xs = None \<longleftrightarrow> (\<forall>x \<in> set xs. \<not> P x)"
  by (induction xs) auto

lemma find_idx_Some_iff:
  "find_idx P xs = Some i \<longleftrightarrow> i < length xs \<and> P (xs ! i) \<and> (\<forall>j < i. \<not> P (xs ! j))"
proof (induction xs arbitrary: i)
  case Nil
  then show ?case by simp
next
  case (Cons x xs)
  then show ?case
    by (cases i) (auto simp: All_less_Suc2)
qed

lemma find_idx_SomeD: "find_idx P xs = Some i \<Longrightarrow> i < length xs \<and> P (xs ! i)"
  by (simp add: find_idx_Some_iff)

text \<open>
  A table of slots with a first-fit allocator: \<open>free\<close> tells a free slot, \<open>claim\<close> is what
  the allocator writes into the slot it takes.
\<close>

locale slot_table =
  fixes free :: "'e \<Rightarrow> bool" and claim :: "'e \<Rightarrow> 'e"
  assumes claim_not_free: "\<not> free (claim e)"
begin

definition used :: "'e list \<Rightarrow> nat set" where
  "used xs = {i. i < length xs \<and> \<not> free (xs ! i)}"

lemma alloc_first: "find_idx free xs = Some i \<Longrightarrow>
  i < length xs \<and> i \<notin> used xs \<and> (\<forall>j < i. j \<in> used xs)"
  by (auto simp: find_idx_Some_iff used_def)

lemma alloc_full: "find_idx free xs = None \<longleftrightarrow> used xs = {..<length xs}"
  unfolding find_idx_None_iff all_set_conv_all_nth used_def by auto

lemma used_claim: "find_idx free xs = Some i \<Longrightarrow>
  used (xs[i := claim (xs ! i)]) = insert i (used xs)"
  unfolding find_idx_Some_iff used_def by (auto simp: nth_list_update claim_not_free split: if_splits)

lemma used_finite: "finite (used xs)"
  by (simp add: used_def)

lemma card_used_claim: "find_idx free xs = Some i \<Longrightarrow>
  card (used (xs[i := claim (xs ! i)])) = Suc (card (used xs))"
  using alloc_first [of xs i] used_finite [of xs] by (simp add: used_claim)

end

section \<open>State machines with an invariant\<close>

locale machine =
  fixes init :: "'s \<Rightarrow> bool" and step :: "'s \<Rightarrow> 's \<Rightarrow> bool" and inv :: "'s \<Rightarrow> bool"
  assumes inv_init: "init s \<Longrightarrow> inv s"
    and inv_step: "inv s \<Longrightarrow> step s t \<Longrightarrow> inv t"
begin

lemma inv_steps: "step\<^sup>*\<^sup>* s t \<Longrightarrow> inv s \<Longrightarrow> inv t"
  by (induction rule: rtranclp_induct) (auto intro: inv_step)

lemma inv_reachable: "init s \<Longrightarrow> step\<^sup>*\<^sup>* s t \<Longrightarrow> inv t"
  by (blast intro: inv_init inv_steps)

end

section \<open>Sums over an updated table\<close>

lemma sum_list_map_update:
  fixes f :: "'e \<Rightarrow> 'g::ab_group_add"
  assumes "i < length xs"
  shows "sum_list (map f (xs[i := y])) = sum_list (map f xs) - f (xs ! i) + f y"
  using assms
proof (induction xs arbitrary: i)
  case Nil
  then show ?case by simp
next
  case (Cons x xs)
  show ?case
  proof (cases i)
    case 0
    then show ?thesis by (simp add: add.commute)
  next
    case (Suc k)
    with Cons.prems have "k < length xs" by simp
    then have "sum_list (map f (xs[k := y])) = sum_list (map f xs) - f (xs ! k) + f y"
      by (rule Cons.IH)
    with Suc show ?thesis by (simp add: add_diff_eq add.assoc)
  qed
qed

lemma sum_list_map_cong_nth:
  "length xs = length ys \<Longrightarrow> (\<And>i. i < length xs \<Longrightarrow> f (xs ! i) = f (ys ! i)) \<Longrightarrow>
   sum_list (map f xs) = sum_list (map f ys)"
  by (rule arg_cong [where f = sum_list]) (rule nth_equalityI, simp_all)

section \<open>Words\<close>

lemma unat_u32_less: "unat (w :: u32) < 4294967296"
  using unsigned_less [where 'b = 32 and 'a = nat, of w] by simp

lemma of_nat_unat_u32 [simp]: "of_nat (unat (w :: u32)) = w"
  by simp

end
