(* ===== verification/Machine.thy ===== *)
theory Machine
  imports Prelude
begin

text \<open>
  The data the kernel's core shares: the constants of \<^verbatim>\<open>param.h\<close>, the segment descriptors
  of \<^verbatim>\<open>mmu.h\<close>, the trap frame of \<^verbatim>\<open>x86.h\<close>, the spin lock of
  \<^verbatim>\<open>spinlock.h\<close>, the per-CPU and per-process structures of \<^verbatim>\<open>proc.h\<close>, and
  the record \<open>kstate\<close> of the globals of \<^verbatim>\<open>proc.c\<close> and \<^verbatim>\<open>trap.c\<close>
  together with the processor registers these files use. Components with state of their own
  extend \<open>kstate\<close>, so that one routine can call another the way the code does.
  A pointer to an element of a static array is its index, a null pointer is \<open>None\<close>.
\<close>

section \<open>Constants\<close>

definition NPROC :: nat where "NPROC = 64"
definition KSTACKSIZE :: u32 where "KSTACKSIZE = 4096"
definition NCPU :: nat where "NCPU = 8"
definition NOFILE :: nat where "NOFILE = 16"
definition QUANTUM :: u32 where "QUANTUM = 10"

lemmas param_defs [simp] = NPROC_def KSTACKSIZE_def NCPU_def NOFILE_def QUANTUM_def

text \<open>The modes of \<^verbatim>\<open>open\<close> (\<^verbatim>\<open>fcntl.h\<close>).\<close>

definition O_RDONLY :: u32 where "O_RDONLY = 0"
definition O_WRONLY :: u32 where "O_WRONLY = 1"
definition O_RDWR :: u32 where "O_RDWR = 2"
definition O_CREATE :: u32 where "O_CREATE = 0x200"

section \<open>Segment descriptors\<close>

record segdesc =
  lim_15_0 :: "16 word"
  base_15_0 :: "16 word"
  base_23_16 :: "8 word"
  seg_type :: "4 word"
  seg_s :: "1 word"
  seg_dpl :: "2 word"
  seg_p :: "1 word"
  lim_19_16 :: "4 word"
  seg_avl :: "1 word"
  seg_rsv1 :: "1 word"
  seg_db :: "1 word"
  seg_g :: "1 word"
  base_31_24 :: "8 word"

definition SEG :: "4 word \<Rightarrow> u32 \<Rightarrow> u32 \<Rightarrow> 2 word \<Rightarrow> segdesc" where
  "SEG ty base lim d = \<lparr>lim_15_0 = ucast (drop_bit 12 lim AND 0xffff),
     base_15_0 = ucast (base AND 0xffff), base_23_16 = ucast (drop_bit 16 base AND 0xff),
     seg_type = ty, seg_s = 1, seg_dpl = d, seg_p = 1, lim_19_16 = ucast (drop_bit 28 lim),
     seg_avl = 0, seg_rsv1 = 0, seg_db = 1, seg_g = 1, base_31_24 = ucast (drop_bit 24 base)\<rparr>"

definition SEG16 :: "4 word \<Rightarrow> u32 \<Rightarrow> u32 \<Rightarrow> 2 word \<Rightarrow> segdesc" where
  "SEG16 ty base lim d = \<lparr>lim_15_0 = ucast (lim AND 0xffff),
     base_15_0 = ucast (base AND 0xffff), base_23_16 = ucast (drop_bit 16 base AND 0xff),
     seg_type = ty, seg_s = 1, seg_dpl = d, seg_p = 1, lim_19_16 = ucast (drop_bit 16 lim),
     seg_avl = 0, seg_rsv1 = 0, seg_db = 1, seg_g = 0, base_31_24 = ucast (drop_bit 24 base)\<rparr>"

section \<open>Trap frames and contexts\<close>

record trapframe =
  tf_edi :: u32
  tf_esi :: u32
  tf_ebp :: u32
  tf_oesp :: u32
  tf_ebx :: u32
  tf_edx :: u32
  tf_ecx :: u32
  tf_eax :: u32
  tf_gs :: u16
  tf_fs :: u16
  tf_es :: u16
  tf_ds :: u16
  tf_trapno :: u32
  tf_err :: u32
  tf_eip :: u32
  tf_cs :: u16
  tf_eflags :: u32
  tf_esp :: u32
  tf_ss :: u16

definition zero_tf :: trapframe where
  "zero_tf = \<lparr>tf_edi = 0, tf_esi = 0, tf_ebp = 0, tf_oesp = 0, tf_ebx = 0, tf_edx = 0,
     tf_ecx = 0, tf_eax = 0, tf_gs = 0, tf_fs = 0, tf_es = 0, tf_ds = 0, tf_trapno = 0,
     tf_err = 0, tf_eip = 0, tf_cs = 0, tf_eflags = 0, tf_esp = 0, tf_ss = 0\<rparr>"

text \<open>Code addresses the kernel stores: the two entry points it names, or any other.\<close>

datatype code_ptr = Forkret | Trapret | CodeAt u32

record kcontext =
  ctx_edi :: u32
  ctx_esi :: u32
  ctx_ebx :: u32
  ctx_ebp :: u32
  ctx_eip :: code_ptr

section \<open>Spin locks and sleep channels\<close>

text \<open>
  Every spin lock and every sleep channel of the kernel is named by a constructor. The debugging
  array \<^verbatim>\<open>pcs\<close> of a lock is left out.
\<close>

datatype lock_id =
    PtableLock | TicksLock | KmemLock | BcacheLock | IcacheLock | FtableLock | LogLock
  | IdeLock | ConsLock | PipeLock u32 | BufLock nat | InodeLock nat

record spinlock =
  locked :: bool
  lk_name :: string
  lk_cpu :: "nat option"

datatype chan =
    ChanProc nat | ChanTicks | ChanLog | ChanBuf nat | ChanBufLock nat | ChanInodeLock nat
  | ChanPipeRead u32 | ChanPipeWrite u32 | ChanInput

section \<open>CPUs and processes\<close>

record cpu =
  apicid :: byte
  ts_esp0 :: u32
  ts_ss0 :: u16
  ts_iomb :: u16
  gdt :: "nat \<Rightarrow> segdesc"
  started :: u32
  ncli :: int
  intena :: bool
  cproc :: "nat option"
  schedAlg :: u32
  RRLastProc :: "nat option"
  ctr :: u32

datatype procstate = UNUSED | EMBRYO | SLEEPING | RUNNABLE | RUNNING | ZOMBIE

text \<open>
  \<open>kret\<close> is the word below the trap frame on the kernel stack, where a new process returns
  after \<^verbatim>\<open>forkret\<close>. The fields \<open>tf\<close> and \<open>kctx\<close> are the frames
  that \<^verbatim>\<open>p->tf\<close> and \<^verbatim>\<open>p->context\<close> point to.
\<close>

record proc =
  sz :: u32
  pgdir :: u32
  kstack :: u32
  state :: procstate
  pid :: u32
  parent :: "nat option"
  tf :: trapframe
  kret :: code_ptr
  kctx :: kcontext
  chan :: "chan option"
  killed :: bool
  ofile :: "nat option list"
  cwd :: "nat option"
  pname :: "byte list"
  first_pid :: u32
  priority :: u32
  creationTime :: u32
  lastChangeTime :: u32
  totalWaitTime :: u32
  totalCBT :: u32
  ticketCount :: u32

record procTimes =
  CBT :: u32
  WT :: u32
  TT :: u32

section \<open>The shared kernel state\<close>

text \<open>
  \<open>hw_cpu\<close> is the processor that executes; \<open>hw_IF\<close> is the interrupt flag,
  \<open>hw_apicid\<close> the identity in the local APIC, \<open>hw_cr3\<close>, \<open>hw_tr\<close> and
  \<open>hw_gdtr\<close> the control registers of each processor. \<open>ts_addr\<close> is the link-time
  address of a CPU's task state segment.
\<close>

record kstate =
  cpus :: "cpu list"
  ncpu :: nat
  hw_cpu :: nat
  hw_IF :: "nat \<Rightarrow> bool"
  lapic_mapped :: bool
  hw_apicid :: "nat \<Rightarrow> byte"
  hw_cr3 :: "nat \<Rightarrow> u32"
  hw_tr :: "nat \<Rightarrow> u16"
  hw_gdtr :: "nat \<Rightarrow> nat option"
  ts_addr :: "nat \<Rightarrow> u32"
  locks :: "lock_id \<Rightarrow> spinlock"
  procs :: "proc list"
  initproc :: "nat option"
  totalTicketCount :: u32
  g_seed :: u32
  nextpid :: u32
  ticks :: u32
  forkret_first :: bool

definition upd_cpu :: "nat \<Rightarrow> (cpu \<Rightarrow> cpu) \<Rightarrow> 'z kstate_scheme \<Rightarrow> 'z kstate_scheme" where
  "upd_cpu c f s = s\<lparr>cpus := (cpus s)[c := f (cpus s ! c)]\<rparr>"

definition upd_proc :: "nat \<Rightarrow> (proc \<Rightarrow> proc) \<Rightarrow> 'z kstate_scheme \<Rightarrow> 'z kstate_scheme" where
  "upd_proc p f s = s\<lparr>procs := (procs s)[p := f (procs s ! p)]\<rparr>"

definition upd_lock :: "lock_id \<Rightarrow> (spinlock \<Rightarrow> spinlock) \<Rightarrow> 'z kstate_scheme \<Rightarrow> 'z kstate_scheme" where
  "upd_lock l f s = s\<lparr>locks := (locks s)(l := f (locks s l))\<rparr>"

lemma upd_simps [simp]:
  "locks (upd_cpu c f s) = locks s" "procs (upd_cpu c f s) = procs s"
  "cpus (upd_cpu c f s) = (cpus s)[c := f (cpus s ! c)]"
  "locks (upd_proc p g s) = locks s" "cpus (upd_proc p g s) = cpus s"
  "procs (upd_proc p g s) = (procs s)[p := g (procs s ! p)]"
  "procs (upd_lock l h s) = procs s" "cpus (upd_lock l h s) = cpus s"
  "locks (upd_lock l h s) = (locks s)(l := h (locks s l))"
  by (simp_all add: upd_cpu_def upd_proc_def upd_lock_def)

section \<open>Processor registers\<close>

text \<open>\<^verbatim>\<open>readeflags() & FL_IF\<close>, \<^verbatim>\<open>cli\<close> and \<^verbatim>\<open>sti\<close> of
  \<^verbatim>\<open>x86.h\<close>, and \<^verbatim>\<open>lapicid\<close> of \<^verbatim>\<open>lapic.c\<close>.\<close>

definition readeflags_IF :: "'z kstate_scheme \<Rightarrow> bool" where
  "readeflags_IF s = hw_IF s (hw_cpu s)"

definition cli :: "('z kstate_scheme, unit) routine" where
  "cli = modify (\<lambda>s. s\<lparr>hw_IF := (hw_IF s)(hw_cpu s := False)\<rparr>)"

definition sti :: "('z kstate_scheme, unit) routine" where
  "sti = modify (\<lambda>s. s\<lparr>hw_IF := (hw_IF s)(hw_cpu s := True)\<rparr>)"

definition lapicid :: "'z kstate_scheme \<Rightarrow> byte" where
  "lapicid s = (if \<not> lapic_mapped s then 0 else hw_apicid s (hw_cpu s))"

end
