(* ===== verification/Spinlock.thy ===== *)
theory Spinlock
  imports Machine
begin

text \<open>
  Spin locks (\<^verbatim>\<open>spinlock.c\<close>) and the lookup of the current CPU and process
  (\<^verbatim>\<open>mycpu\<close>, \<^verbatim>\<open>cpuid\<close>, \<^verbatim>\<open>myproc\<close> of \<^verbatim>\<open>proc.c\<close>).
  The first part is the code as routines on one CPU, with closed forms for taking a free lock and
  releasing a held one. The second part is the interleaving of any number of CPUs over one lock,
  memory access by memory access, with mutual exclusion as its invariant.
\<close>

section \<open>The current CPU\<close>

definition this_cpu :: "'z kstate_scheme \<Rightarrow> nat option" where
  "this_cpu s = find_idx (\<lambda>c. apicid c = lapicid s) (take (ncpu s) (cpus s))"

definition mycpu :: "('z kstate_scheme, nat) routine" where
  "mycpu =
     bnd (gets readeflags_IF) (\<lambda>fl.
     if fl then panic (''mycpu called with interrupts enabled'' @ [CHR 0x0A])
     else bnd (gets this_cpu) (\<lambda>i.
       case i of Some c \<Rightarrow> ret c | None \<Rightarrow> panic (''unknown apicid'' @ [CHR 0x0A])))"

definition cpuid :: "('z kstate_scheme, nat) routine" where
  "cpuid = mycpu"

section \<open>Nested interrupt disabling\<close>

definition pushcli :: "('z kstate_scheme, unit) routine" where
  "pushcli =
     bnd (gets readeflags_IF) (\<lambda>eflags.
     seq cli (
     bnd mycpu (\<lambda>c.
     bnd (gets (\<lambda>s. ncli (cpus s ! c))) (\<lambda>n.
     seq (doif (n = 0) (modify (upd_cpu c (\<lambda>k. k\<lparr>intena := eflags\<rparr>))))
         (modify (upd_cpu c (\<lambda>k. k\<lparr>ncli := ncli k + 1\<rparr>)))))))"

definition popcli :: "('z kstate_scheme, unit) routine" where
  "popcli =
     bnd (gets readeflags_IF) (\<lambda>eflags.
     if eflags then panic ''popcli - interruptible''
     else bnd mycpu (\<lambda>c.
       seq (modify (upd_cpu c (\<lambda>k. k\<lparr>ncli := ncli k - 1\<rparr>))) (
       bnd (gets (\<lambda>s. cpus s ! c)) (\<lambda>k.
       if ncli k < 0 then panic ''popcli''
       else doif (ncli k = 0 \<and> intena k) sti))))"

definition myproc :: "('z kstate_scheme, nat option) routine" where
  "myproc =
     seq pushcli (
     bnd mycpu (\<lambda>c.
     bnd (gets (\<lambda>s. cproc (cpus s ! c))) (\<lambda>p.
     seq popcli (ret p))))"

section \<open>Acquire and release\<close>

definition initlock :: "lock_id \<Rightarrow> string \<Rightarrow> ('z kstate_scheme, unit) routine" where
  "initlock l nm = modify (upd_lock l (\<lambda>k. k\<lparr>lk_name := nm, locked := False, lk_cpu := None\<rparr>))"

definition holding :: "lock_id \<Rightarrow> ('z kstate_scheme, bool) routine" where
  "holding l =
     seq pushcli (
     bnd (gets (\<lambda>s. locked (locks s l))) (\<lambda>b.
     bnd (if b then bnd mycpu (\<lambda>c. gets (\<lambda>s. lk_cpu (locks s l) = Some c)) else ret False) (\<lambda>r.
     seq popcli (ret r))))"

text \<open>
  The loop \<^verbatim>\<open>while(xchg(&lk->locked, 1) != 0)\<close> leaves the lock word at 1 and returns when it
  was 0. A lock that another CPU holds makes this run spin.
\<close>

definition acquire :: "lock_id \<Rightarrow> ('z kstate_scheme, unit) routine" where
  "acquire l =
     seq pushcli (
     bnd (holding l) (\<lambda>h.
     if h then panic ''acquire''
     else bnd (gets (\<lambda>s. locked (locks s l))) (\<lambda>b.
       if b then stuck ''spin''
       else seq (modify (upd_lock l (\<lambda>k. k\<lparr>locked := True\<rparr>))) (
         bnd mycpu (\<lambda>c. modify (upd_lock l (\<lambda>k. k\<lparr>lk_cpu := Some c\<rparr>)))))))"

definition release :: "lock_id \<Rightarrow> ('z kstate_scheme, unit) routine" where
  "release l =
     bnd (holding l) (\<lambda>h.
     if \<not> h then panic ''release''
     else seq (modify (upd_lock l (\<lambda>k. k\<lparr>lk_cpu := None\<rparr>))) (
       seq (modify (upd_lock l (\<lambda>k. k\<lparr>locked := False\<rparr>)))
         popcli))"

section \<open>Closed forms\<close>

text \<open>
  \<open>cpu_ok s c\<close>: the executing processor is entry \<open>c\<close> of the CPU table, its nesting depth
  is not negative and interrupts are off while it is nested.
\<close>

definition cpu_ok :: "'z kstate_scheme \<Rightarrow> nat \<Rightarrow> bool" where
  "cpu_ok s c \<longleftrightarrow> this_cpu s = Some c \<and> 0 \<le> ncli (cpus s ! c) \<and>
     (0 < ncli (cpus s ! c) \<longrightarrow> \<not> readeflags_IF s)"

text \<open>What one level of nesting does to the CPU record, and what undoes it.\<close>

definition nest :: "bool \<Rightarrow> cpu \<Rightarrow> cpu" where
  "nest fl k = k\<lparr>intena := (if ncli k = 0 then fl else intena k), ncli := ncli k + 1\<rparr>"

definition unnest :: "cpu \<Rightarrow> cpu" where
  "unnest k = k\<lparr>ncli := ncli k - 1\<rparr>"

definition pushed :: "nat \<Rightarrow> 'z kstate_scheme \<Rightarrow> 'z kstate_scheme" where
  "pushed c s = (upd_cpu c (nest (readeflags_IF s)) s)\<lparr>hw_IF := (hw_IF s)(hw_cpu s := False)\<rparr>"

definition popped :: "nat \<Rightarrow> 'z kstate_scheme \<Rightarrow> 'z kstate_scheme" where
  "popped c s = (if ncli (cpus s ! c) = 1 \<and> intena (cpus s ! c)
     then (upd_cpu c unnest s)\<lparr>hw_IF := (hw_IF s)(hw_cpu s := True)\<rparr>
     else upd_cpu c unnest s)"

definition grabbed :: "lock_id \<Rightarrow> nat \<Rightarrow> 'z kstate_scheme \<Rightarrow> 'z kstate_scheme" where
  "grabbed l c s = upd_lock l (\<lambda>k. k\<lparr>locked := True, lk_cpu := Some c\<rparr>) (pushed c s)"

definition dropped :: "lock_id \<Rightarrow> nat \<Rightarrow> 'z kstate_scheme \<Rightarrow> 'z kstate_scheme" where
  "dropped l c s = popped c (upd_lock l (\<lambda>k. k\<lparr>lk_cpu := None, locked := False\<rparr>) s)"

lemma this_cpu_bound: "this_cpu s = Some c \<Longrightarrow> c < length (cpus s)"
  unfolding this_cpu_def by (drule find_idx_SomeD) simp

lemma cpu_ok_bound: "cpu_ok s c \<Longrightarrow> c < length (cpus s)"
  by (simp add: cpu_ok_def this_cpu_bound)

text \<open>The table lookup reads only the APIC identities.\<close>

lemma find_idx_map: "find_idx P (map f xs) = find_idx (\<lambda>x. P (f x)) xs"
  by (induction xs) auto

lemma this_cpu_map: "this_cpu s = find_idx (\<lambda>a. a = lapicid s) (take (ncpu s) (map apicid (cpus s)))"
  by (simp add: this_cpu_def take_map find_idx_map)

lemma fun_upd_same_value: "f x = v \<Longrightarrow> f(x := v) = f"
  by (simp add: fun_upd_idem)

lemma upd_lock_upd_lock [simp]: "upd_lock l f (upd_lock l g s) = upd_lock l (\<lambda>k. f (g k)) s"
  by (simp add: upd_lock_def)

lemma map_upd_same: "f (g (xs ! i)) = f (xs ! i) \<Longrightarrow> map f (xs[i := g (xs ! i)]) = map f xs"
  by (cases "i < length xs") (simp_all add: map_update list_update_same_conv list_update_beyond)

lemma lapicid_frame:
  "hw_cpu t = hw_cpu s \<Longrightarrow> hw_apicid t = hw_apicid s \<Longrightarrow> lapic_mapped t = lapic_mapped s \<Longrightarrow>
   lapicid t = lapicid s"
  by (simp add: lapicid_def)

lemma this_cpu_frame:
  assumes "map apicid (cpus t) = map apicid (cpus s)" "ncpu t = ncpu s" "hw_cpu t = hw_cpu s"
    "hw_apicid t = hw_apicid s" "lapic_mapped t = lapic_mapped s"
  shows "this_cpu t = this_cpu s"
  using assms lapicid_frame [of t s] by (simp add: this_cpu_map)

lemma nest_simps [simp]: "apicid (nest fl k) = apicid k" "cproc (nest fl k) = cproc k"
  "ncli (nest fl k) = ncli k + 1" "intena (nest fl k) = (if ncli k = 0 then fl else intena k)"
  "schedAlg (nest fl k) = schedAlg k" "RRLastProc (nest fl k) = RRLastProc k" "ctr (nest fl k) = ctr k"
  by (simp_all add: nest_def)

lemma unnest_simps [simp]: "apicid (unnest k) = apicid k" "cproc (unnest k) = cproc k"
  "ncli (unnest k) = ncli k - 1" "intena (unnest k) = intena k"
  "schedAlg (unnest k) = schedAlg k" "RRLastProc (unnest k) = RRLastProc k" "ctr (unnest k) = ctr k"
  by (simp_all add: unnest_def)

lemma this_cpu_pushed [simp]: "this_cpu (pushed c s) = this_cpu s"
  by (rule this_cpu_frame) (simp_all add: pushed_def upd_cpu_def map_upd_same)

lemma this_cpu_popped [simp]: "this_cpu (popped c s) = this_cpu s"
  by (rule this_cpu_frame) (simp_all add: popped_def upd_cpu_def map_upd_same)

lemma this_cpu_upd_lock [simp]: "this_cpu (upd_lock l f s) = this_cpu s"
  by (rule this_cpu_frame) (simp_all add: upd_lock_def)

lemma readeflags_pushed [simp]: "readeflags_IF (pushed c s) = False"
  by (simp add: pushed_def upd_cpu_def readeflags_IF_def)

lemma readeflags_upd_lock [simp]: "readeflags_IF (upd_lock l f s) = readeflags_IF s"
  by (simp add: upd_lock_def readeflags_IF_def)

lemma locks_pushed [simp]: "locks (pushed c s) = locks s"
  by (simp add: pushed_def upd_cpu_def)

lemma cpus_pushed: "cpus (pushed c s) = (cpus s)[c := nest (readeflags_IF s) (cpus s ! c)]"
  by (simp add: pushed_def)

lemma mycpu_eq: "this_cpu s = Some c \<Longrightarrow> \<not> readeflags_IF s \<Longrightarrow> mycpu s = Done c s"
  by (simp add: mycpu_def)

lemma pushcli_eq:
  assumes "this_cpu s = Some c"
  shows "pushcli s = Done () (pushed c s)"
proof -
  let ?t = "s\<lparr>hw_IF := (hw_IF s)(hw_cpu s := False)\<rparr>"
  have "this_cpu ?t = Some c"
    using assms by (subst this_cpu_frame [of ?t s]) simp_all
  moreover have "\<not> readeflags_IF ?t" by (simp add: readeflags_IF_def)
  ultimately have "mycpu ?t = Done c ?t" by (rule mycpu_eq)
  then show ?thesis
    using this_cpu_bound [OF assms]
    by (simp add: pushcli_def cli_def pushed_def upd_cpu_def nest_def)
qed

lemma popcli_eq:
  assumes "this_cpu s = Some c" "\<not> readeflags_IF s" "1 \<le> ncli (cpus s ! c)"
  shows "popcli s = Done () (popped c s)"
  using assms this_cpu_bound [OF assms(1)]
  by (simp add: popcli_def mycpu_eq sti_def popped_def upd_cpu_def unnest_def)

text \<open>A push followed by a pop restores the state, but for the saved flag of the outermost level.\<close>

definition touched :: "nat \<Rightarrow> 'z kstate_scheme \<Rightarrow> 'z kstate_scheme" where
  "touched c s = (if ncli (cpus s ! c) = 0
     then upd_cpu c (\<lambda>k. k\<lparr>intena := readeflags_IF s\<rparr>) s else s)"

lemma unnest_nest [simp]: "unnest (nest fl k) = (if ncli k = 0 then k\<lparr>intena := fl\<rparr> else k)"
  by (cases k) (simp add: nest_def unnest_def)

lemma push_pop: "cpu_ok s c \<Longrightarrow> popped c (pushed c s) = touched c s"
  using cpu_ok_bound [of s c]
  by (auto simp: cpu_ok_def pushed_def popped_def touched_def upd_cpu_def
      readeflags_IF_def fun_upd_same_value)

lemma touched_nested [simp]: "1 \<le> ncli (cpus s ! c) \<Longrightarrow> touched c s = s"
  by (simp add: touched_def)

lemma myproc_eq:
  assumes "cpu_ok s c"
  shows "myproc s = Done (cproc (cpus s ! c)) (touched c s)"
proof -
  have tc: "this_cpu s = Some c" and n: "0 \<le> ncli (cpus s ! c)"
    using assms by (auto simp: cpu_ok_def)
  have b: "c < length (cpus s)" using assms by (rule cpu_ok_bound)
  have "cpus (pushed c s) ! c = nest (readeflags_IF s) (cpus s ! c)"
    using b by (simp add: pushed_def upd_cpu_def)
  then show ?thesis
    using tc n assms
    by (simp add: myproc_def pushcli_eq mycpu_eq popcli_eq push_pop)
qed

lemma holding_eq:
  assumes "cpu_ok s c" "1 \<le> ncli (cpus s ! c)"
  shows "holding l s = Done (locked (locks s l) \<and> lk_cpu (locks s l) = Some c) s"
proof -
  have tc: "this_cpu s = Some c" using assms by (auto simp: cpu_ok_def)
  have b: "c < length (cpus s)" using assms(1) by (rule cpu_ok_bound)
  have "cpus (pushed c s) ! c = nest (readeflags_IF s) (cpus s ! c)"
    using b by (simp add: pushed_def upd_cpu_def)
  then show ?thesis
    using tc assms
    by (simp add: holding_def pushcli_eq mycpu_eq popcli_eq push_pop)
qed

lemma cpu_ok_pushed: "cpu_ok s c \<Longrightarrow> cpu_ok (pushed c s) c"
  using cpu_ok_bound [of s c] cpus_pushed [of c s] by (auto simp: cpu_ok_def)

lemma acquire_free:
  assumes "cpu_ok s c" "\<not> locked (locks s l)"
  shows "acquire l s = Done () (grabbed l c s)"
proof -
  have tc: "this_cpu s = Some c" and n: "0 \<le> ncli (cpus s ! c)"
    using assms by (auto simp: cpu_ok_def)
  have b: "c < length (cpus s)" using assms(1) by (rule cpu_ok_bound)
  have "ncli (cpus (pushed c s) ! c) = ncli (cpus s ! c) + 1"
    using b by (simp add: pushed_def upd_cpu_def)
  then have "holding l (pushed c s) = Done False (pushed c s)"
    using n assms cpu_ok_pushed [OF assms(1)] by (subst holding_eq [where c = c]) simp_all
  then show ?thesis
    using tc assms(2)
    by (simp add: acquire_def pushcli_eq mycpu_eq grabbed_def)
qed

lemma release_held:
  assumes "cpu_ok s c" "1 \<le> ncli (cpus s ! c)" "locked (locks s l)" "lk_cpu (locks s l) = Some c"
  shows "release l s = Done () (dropped l c s)"
proof -
  have tc: "this_cpu s = Some c" and "\<not> readeflags_IF s"
    using assms by (auto simp: cpu_ok_def)
  then show ?thesis
    using assms holding_eq [OF assms(1,2), of l]
    by (simp add: release_def popcli_eq dropped_def)
qed

text \<open>Taking a lock that the CPU already holds is caught, and so is releasing one it does not hold.\<close>

lemma acquire_held_panics:
  assumes "cpu_ok s c" "locked (locks s l)" "lk_cpu (locks s l) = Some c"
  shows "acquire l s = Panics ''acquire''"
proof -
  have b: "c < length (cpus s)" using assms(1) by (rule cpu_ok_bound)
  have "1 \<le> ncli (cpus (pushed c s) ! c)"
    using b assms(1) by (simp add: pushed_def upd_cpu_def cpu_ok_def)
  then have "holding l (pushed c s) = Done True (pushed c s)"
    using assms cpu_ok_pushed [OF assms(1)] by (subst holding_eq [where c = c]) simp_all
  then show ?thesis
    using assms(1) by (simp add: acquire_def pushcli_eq cpu_ok_def)
qed

lemma grabbed_lock [simp]: "locked (locks (grabbed l c s) l)" "lk_cpu (locks (grabbed l c s) l) = Some c"
  by (simp_all add: grabbed_def)

lemma cpus_grabbed: "cpus (grabbed l c s) = (cpus s)[c := nest (readeflags_IF s) (cpus s ! c)]"
  by (simp add: grabbed_def cpus_pushed)

lemma cpu_ok_grabbed: "cpu_ok s c \<Longrightarrow> cpu_ok (grabbed l c s) c"
  using cpu_ok_pushed [of s c] by (simp add: cpu_ok_def grabbed_def)

lemma ncli_grabbed: "cpu_ok s c \<Longrightarrow> 1 \<le> ncli (cpus (grabbed l c s) ! c)"
  using cpu_ok_bound [of s c] by (simp add: cpus_grabbed cpu_ok_def)

lemmas release_grabbed = release_held [OF cpu_ok_grabbed ncli_grabbed grabbed_lock]

lemma readeflags_touched [simp]: "readeflags_IF (touched c s) = readeflags_IF s"
  by (simp add: touched_def readeflags_IF_def upd_cpu_def)

lemma ncli_touched [simp]: "ncli (cpus (touched c s) ! d) = ncli (cpus s ! d)"
  by (cases "c < length (cpus s)") (auto simp: touched_def nth_list_update list_update_beyond)

lemma locks_touched [simp]: "locks (touched c s) = locks s"
  by (simp add: touched_def)

lemma touched_touched [simp]: "touched c (touched c s) = touched c s"
  by (cases "c < length (cpus s)")
    (simp_all add: touched_def upd_cpu_def readeflags_IF_def list_update_beyond)

lemma cpu_ok_touched [simp]: "cpu_ok (touched c s) d = cpu_ok s d"
proof -
  have "this_cpu (touched c s) = this_cpu s"
    by (rule this_cpu_frame) (simp_all add: touched_def upd_cpu_def map_upd_same)
  then show ?thesis by (simp add: cpu_ok_def)
qed

lemma popped_upd_lock: "popped c (upd_lock l f s) = upd_lock l f (popped c s)"
  by (simp add: popped_def upd_lock_def upd_cpu_def)

lemma dropped_grabbed:
  "cpu_ok s c \<Longrightarrow> \<not> locked (locks s l) \<Longrightarrow> lk_cpu (locks s l) = None \<Longrightarrow>
   dropped l c (grabbed l c s) = touched c s"
proof -
  assume ok: "cpu_ok s c" and free: "\<not> locked (locks s l)" "lk_cpu (locks s l) = None"
  have "upd_lock l (\<lambda>k. k\<lparr>lk_cpu := None, locked := False\<rparr>) (touched c s) = touched c s"
    using free by (cases "locks s l") (simp add: touched_def upd_lock_def upd_cpu_def fun_upd_same_value)
  then show ?thesis
    using ok by (simp add: dropped_def grabbed_def popped_upd_lock push_pop)
qed

text \<open>
  A critical section that leaves the CPUs and the locks alone can be followed by the release.
  \<open>lock_free\<close> is the state of a lock that nobody holds.
\<close>

definition same_core :: "'z kstate_scheme \<Rightarrow> 'z kstate_scheme \<Rightarrow> bool" where
  "same_core t s \<longleftrightarrow> cpus t = cpus s \<and> ncpu t = ncpu s \<and> hw_cpu t = hw_cpu s \<and> hw_IF t = hw_IF s \<and>
     lapic_mapped t = lapic_mapped s \<and> hw_apicid t = hw_apicid s \<and> locks t = locks s"

definition lock_free :: "'z kstate_scheme \<Rightarrow> lock_id \<Rightarrow> bool" where
  "lock_free s l \<longleftrightarrow> \<not> locked (locks s l) \<and> lk_cpu (locks s l) = None"

lemma same_core_refl [simp]: "same_core s s"
  by (simp add: same_core_def)

lemma same_core_trans: "same_core t s \<Longrightarrow> same_core u t \<Longrightarrow> same_core u s"
  by (simp add: same_core_def)

lemma same_core_this_cpu: "same_core t s \<Longrightarrow> this_cpu t = this_cpu s"
  by (rule this_cpu_frame) (simp_all add: same_core_def)

lemma same_core_readeflags: "same_core t s \<Longrightarrow> readeflags_IF t = readeflags_IF s"
  by (simp add: same_core_def readeflags_IF_def)

lemma same_core_cpu_ok: "same_core t s \<Longrightarrow> cpu_ok t c = cpu_ok s c"
  using same_core_this_cpu [of t s] same_core_readeflags [of t s]
  by (simp add: cpu_ok_def same_core_def)

lemma same_core_lock_free: "same_core t s \<Longrightarrow> lock_free t l = lock_free s l"
  by (simp add: lock_free_def same_core_def)

lemma release_section:
  assumes "cpu_ok s c" "same_core t (grabbed l c s)"
  shows "release l t = Done () (dropped l c t)"
proof (rule release_held)
  show "cpu_ok t c" using assms same_core_cpu_ok cpu_ok_grabbed by blast
  show "1 \<le> ncli (cpus t ! c)" using assms ncli_grabbed [of s c l] by (simp add: same_core_def)
qed (use assms grabbed_lock [of l c s] in \<open>simp_all add: same_core_def\<close>)

lemma acquire_lock_free: "cpu_ok s c \<Longrightarrow> lock_free s l \<Longrightarrow> acquire l s = Done () (grabbed l c s)"
  by (simp add: acquire_free lock_free_def)

lemma dropped_grabbed_free: "cpu_ok s c \<Longrightarrow> lock_free s l \<Longrightarrow> dropped l c (grabbed l c s) = touched c s"
  by (simp add: dropped_grabbed lock_free_def)

lemmas locked_defs = dropped_def popped_def grabbed_def pushed_def upd_lock_def upd_cpu_def

section \<open>Properties of the routines\<close>


text \<open>A small machine for the witnesses: two CPUs, the first one running with interrupts on.\<close>

definition demo_cpu :: "byte \<Rightarrow> cpu" where
  "demo_cpu a = \<lparr>apicid = a, ts_esp0 = 0, ts_ss0 = 0, ts_iomb = 0, gdt = (\<lambda>_. SEG 0 0 0 0),
     started = 1, ncli = 0, intena = False, cproc = None, schedAlg = 0, RRLastProc = None, ctr = 0\<rparr>"

definition demo_state :: kstate where
  "demo_state = \<lparr>cpus = [demo_cpu 0, demo_cpu 4], ncpu = 2, hw_cpu = 0, hw_IF = (\<lambda>_. True),
     lapic_mapped = True, hw_apicid = (\<lambda>i. if i = 0 then 0 else 4), hw_cr3 = (\<lambda>_. 0),
     hw_tr = (\<lambda>_. 0), hw_gdtr = (\<lambda>_. None), ts_addr = (\<lambda>_. 0),
     locks = (\<lambda>_. \<lparr>locked = False, lk_name = [], lk_cpu = None\<rparr>), procs = [],
     initproc = None, totalTicketCount = 0, g_seed = 0, nextpid = 1, ticks = 0,
     forkret_first = True\<rparr>"

lemma demo_cpu_ok: "cpu_ok demo_state 0"
  by (simp add: cpu_ok_def this_cpu_def demo_state_def demo_cpu_def lapicid_def readeflags_IF_def)


definition ntimes :: "nat \<Rightarrow> ('s, unit) routine \<Rightarrow> ('s, unit) routine" where
  "ntimes n m = for_each (replicate n ()) (\<lambda>_. m)"

lemma ntimes_0 [simp]: "ntimes 0 m = ret ()" and ntimes_Suc: "ntimes (Suc n) m = seq m (ntimes n m)"
  by (simp_all add: ntimes_def)

lemma ntimes_Suc_right: "ntimes (Suc n) m = seq (ntimes n m) m"
proof (induction n)
  case (Suc n)
  then have "ntimes (Suc (Suc n)) m = seq m (seq (ntimes n m) m)" by (simp only: ntimes_Suc)
  then show ?case by (simp only: ntimes_Suc seq_assoc)
qed (simp only: ntimes_Suc ntimes_0 seq_ret)

lemma nested_pushes:
  assumes "cpu_ok t c" "1 \<le> ncli (cpus t ! c)"
  shows "\<exists>u. ntimes n pushcli t = Done () u \<and> ntimes n popcli u = Done () t"
  using assms
proof (induction n arbitrary: t)
  case 0
  then show ?case by simp
next
  case (Suc n)
  have b: "c < length (cpus t)" using Suc.prems(1) by (rule cpu_ok_bound)
  have tc: "this_cpu t = Some c" using Suc.prems(1) by (simp add: cpu_ok_def)
  have deep: "1 \<le> ncli (cpus (pushed c t) ! c)" using Suc.prems b by (simp add: cpus_pushed)
  have "cpu_ok (pushed c t) c" using Suc.prems(1) by (rule cpu_ok_pushed)
  from Suc.IH [OF this deep] obtain u where u: "ntimes n pushcli (pushed c t) = Done () u"
    "ntimes n popcli u = Done () (pushed c t)" by blast
  have "popcli (pushed c t) = Done () t"
    using tc deep Suc.prems by (simp add: popcli_eq push_pop)
  then show ?case
    using u tc by (intro exI [of _ u] conjI) (simp add: ntimes_Suc pushcli_eq, simp add: ntimes_Suc_right)
qed



section \<open>Any number of CPUs over one lock\<close>

text \<open>
  The memory accesses of \<^verbatim>\<open>acquire\<close> and \<^verbatim>\<open>release\<close> as separate steps, one CPU at a
  time. The program counter of a CPU is what it does next: nothing (\<open>Outside\<close>), the test
  \<^verbatim>\<open>holding(lk)\<close> of \<^verbatim>\<open>acquire\<close> (\<open>AcqTest\<close>), the atomic exchange
  (\<open>Spin\<close>), recording itself in \<^verbatim>\<open>lk->cpu\<close> (\<open>SetCpu\<close>), the critical section
  (\<open>Critical\<close>, left through the test of \<^verbatim>\<open>release\<close>), clearing \<^verbatim>\<open>lk->cpu\<close>
  (\<open>ClrCpu\<close>) and clearing \<^verbatim>\<open>lk->locked\<close> (\<open>ClrLock\<close>). \<open>Panicked\<close> is
  one of the two panics.
\<close>

datatype lock_pc = Outside | AcqTest | Spin | SetCpu | Critical | ClrCpu | ClrLock | Panicked

record lock_machine =
  lk_word :: bool
  lk_owner :: "nat option"
  at :: "nat \<Rightarrow> lock_pc"

inductive lock_step :: "lock_machine \<Rightarrow> lock_machine \<Rightarrow> bool" where
  call: "at m i = Outside \<Longrightarrow> lock_step m (m\<lparr>at := (at m)(i := AcqTest)\<rparr>)"
| test_held: "at m i = AcqTest \<Longrightarrow> lk_word m \<and> lk_owner m = Some i \<Longrightarrow>
    lock_step m (m\<lparr>at := (at m)(i := Panicked)\<rparr>)"
| test_free: "at m i = AcqTest \<Longrightarrow> \<not> (lk_word m \<and> lk_owner m = Some i) \<Longrightarrow>
    lock_step m (m\<lparr>at := (at m)(i := Spin)\<rparr>)"
| xchg_busy: "at m i = Spin \<Longrightarrow> lk_word m \<Longrightarrow> lock_step m (m\<lparr>lk_word := True\<rparr>)"
| xchg_free: "at m i = Spin \<Longrightarrow> \<not> lk_word m \<Longrightarrow>
    lock_step m (m\<lparr>lk_word := True, at := (at m)(i := SetCpu)\<rparr>)"
| set_cpu: "at m i = SetCpu \<Longrightarrow>
    lock_step m (m\<lparr>lk_owner := Some i, at := (at m)(i := Critical)\<rparr>)"
| rel_held: "at m i = Critical \<Longrightarrow> lk_word m \<and> lk_owner m = Some i \<Longrightarrow>
    lock_step m (m\<lparr>at := (at m)(i := ClrCpu)\<rparr>)"
| rel_not_held: "at m i = Critical \<Longrightarrow> \<not> (lk_word m \<and> lk_owner m = Some i) \<Longrightarrow>
    lock_step m (m\<lparr>at := (at m)(i := Panicked)\<rparr>)"
| clr_cpu: "at m i = ClrCpu \<Longrightarrow>
    lock_step m (m\<lparr>lk_owner := None, at := (at m)(i := ClrLock)\<rparr>)"
| clr_lock: "at m i = ClrLock \<Longrightarrow>
    lock_step m (m\<lparr>lk_word := False, at := (at m)(i := Outside)\<rparr>)"

definition lock_init :: "lock_machine \<Rightarrow> bool" where
  "lock_init m \<longleftrightarrow> \<not> lk_word m \<and> lk_owner m = None \<and> (\<forall>i. at m i = Outside)"

definition owns :: "lock_machine \<Rightarrow> nat \<Rightarrow> bool" where
  "owns m i \<longleftrightarrow> at m i \<in> {SetCpu, Critical, ClrCpu, ClrLock}"

text \<open>
  The invariant ties the lock word to the CPUs: somebody is past the exchange exactly when the word
  is set, at most one CPU is, and \<^verbatim>\<open>lk->cpu\<close> names it from \<open>SetCpu\<close> to \<open>ClrCpu\<close>.
\<close>

definition lock_inv :: "lock_machine \<Rightarrow> bool" where
  "lock_inv m \<longleftrightarrow> (\<forall>i j. owns m i \<longrightarrow> owns m j \<longrightarrow> i = j) \<and> (\<forall>i. owns m i \<longrightarrow> lk_word m) \<and>
     (\<forall>i. lk_owner m = Some i \<longleftrightarrow> at m i \<in> {Critical, ClrCpu}) \<and> (\<forall>i. at m i \<noteq> Panicked)"

lemma lock_inv_init: "lock_init m \<Longrightarrow> lock_inv m"
  by (simp add: lock_init_def lock_inv_def owns_def)

lemma lock_inv_step: "lock_inv m \<Longrightarrow> lock_step m m' \<Longrightarrow> lock_inv m'"
proof (rotate_tac, induction rule: lock_step.induct)
  case (xchg_free m i)
  then show ?case unfolding lock_inv_def owns_def by (auto split: if_splits)
next
  case (clr_lock m i)
  then show ?case unfolding lock_inv_def owns_def by (simp split: if_splits) blast
qed (unfold lock_inv_def owns_def, auto split: if_splits)

interpretation lm: machine lock_init lock_step lock_inv
  by unfold_locales (auto intro: lock_inv_init lock_inv_step)

text \<open>(C6) However the CPUs interleave, two CPUs are never inside the critical section of one spin
  lock at the same time, and neither the check of \<^verbatim>\<open>acquire\<close> nor the one of
  \<^verbatim>\<open>release\<close> ever panics for a CPU that calls them in turn.\<close>

theorem spinlock_mutual_exclusion:
  assumes "lock_init m" "lock_step\<^sup>*\<^sup>* m t"
  shows "(at t i = Critical \<longrightarrow> at t j = Critical \<longrightarrow> i = j) \<and> at t i \<noteq> Panicked"
proof -
  have "lock_inv t" using assms by (rule lm.inv_reachable)
  then show ?thesis by (auto simp: lock_inv_def owns_def)
qed

theorem spinlock_mutual_exclusion_witness:
  "\<exists>m t. lock_init m \<and> lock_step\<^sup>*\<^sup>* m t \<and> at t 3 = AcqTest \<and>
     ((at t 3 = Critical \<longrightarrow> at t 5 = Critical \<longrightarrow> (3::nat) = 5) \<and> at t 3 \<noteq> Panicked)"
proof -
  let ?m = "\<lparr>lk_word = False, lk_owner = None, at = (\<lambda>_. Outside)\<rparr>"
  let ?t = "?m\<lparr>at := (at ?m)(3 := AcqTest)\<rparr>"
  have i: "lock_init ?m" by (simp add: lock_init_def)
  have "lock_step ?m ?t" by (rule lock_step.call) simp
  then have r: "lock_step\<^sup>*\<^sup>* ?m ?t" by (rule r_into_rtranclp)
  show ?thesis using i r spinlock_mutual_exclusion [OF i r, of 3 5] by (intro exI [of _ ?m] exI [of _ ?t]) simp
qed

end
