(* ===== verification/Devices.thy ===== *)
theory Devices
  imports Spinlock
begin

text \<open>
  Port and register I/O and the drivers that only use it: the serial port (\<^verbatim>\<open>uart.c\<close>), the
  local APIC with the CMOS clock (\<^verbatim>\<open>lapic.c\<close>), the I/O APIC (\<^verbatim>\<open>ioapic.c\<close>), the
  old interrupt controllers (\<^verbatim>\<open>picirq.c\<close>), the keyboard decoder (\<^verbatim>\<open>kbd.c\<close>,
  \<^verbatim>\<open>kbd.h\<close>) and console output (first half of \<^verbatim>\<open>console.c\<close>). What a device answers
  is a parameter of the state: the \<open>k\<close>-th read of a port or register.
\<close>

section \<open>State\<close>

text \<open>
  \<open>port_in\<close> and \<open>lapic_in\<close> are the devices, \<open>port_reads\<close> and \<open>lapic_reads\<close>
  count the reads so far, \<open>port_out\<close> and \<open>lapic_out\<close> are the writes in order. The I/O
  APIC is its register file. The other fields are the variables of the drivers.
\<close>

record dstate = kstate +
  port_in :: "u16 \<Rightarrow> nat \<Rightarrow> byte"
  port_reads :: "u16 \<Rightarrow> nat"
  port_out :: "(u16 \<times> byte) list"
  lapic_in :: "nat \<Rightarrow> nat \<Rightarrow> u32"
  lapic_reads :: "nat \<Rightarrow> nat"
  lapic_out :: "(nat \<times> u32) list"
  ioapic_regs :: "u32 \<Rightarrow> u32"
  ioapicid :: u32
  uart :: bool
  kbd_shift :: u32
  crt :: "nat \<Rightarrow> u16"
  cons_locking :: bool
  panicked :: bool

section \<open>Ports\<close>

definition inb :: "u16 \<Rightarrow> ('z dstate_scheme, byte) routine" where
  "inb p =
     bnd (gets (\<lambda>s. port_in s p (port_reads s p))) (\<lambda>b.
     seq (modify (\<lambda>s. s\<lparr>port_reads := (port_reads s)(p := port_reads s p + 1)\<rparr>)) (ret b))"

definition outb :: "u16 \<Rightarrow> byte \<Rightarrow> ('z dstate_scheme, unit) routine" where
  "outb p b = modify (\<lambda>s. s\<lparr>port_out := port_out s @ [(p, b)]\<rparr>)"

section \<open>Interrupt controllers\<close>

definition picinit :: "('z dstate_scheme, unit) routine" where
  "picinit = seq (outb 0x21 0xFF) (outb 0xA1 0xFF)"

definition lapicw :: "nat \<Rightarrow> u32 \<Rightarrow> ('z dstate_scheme, unit) routine" where
  "lapicw index v = modify (\<lambda>s. s\<lparr>lapic_out := lapic_out s @ [(index, v)]\<rparr>)"

definition lapicr :: "nat \<Rightarrow> ('z dstate_scheme, u32) routine" where
  "lapicr index =
     bnd (gets (\<lambda>s. lapic_in s index (lapic_reads s index))) (\<lambda>v.
     seq (modify (\<lambda>s. s\<lparr>lapic_reads := (lapic_reads s)(index := lapic_reads s index + 1)\<rparr>)) (ret v))"

text \<open>Register indices and bits of the local APIC, as in \<^verbatim>\<open>lapic.c\<close>.\<close>

definition lapicinit :: "nat \<Rightarrow> ('z dstate_scheme, unit) routine" where
  "lapicinit fuel =
     bnd (gets lapic_mapped) (\<lambda>l.
     if \<not> l then ret ()
     else
       seq (lapicw (0xF0 div 4) (0x100 OR (32 + 31))) (
       seq (lapicw (0x3E0 div 4) 0xB) (
       seq (lapicw (0x320 div 4) (0x20000 OR (32 + 0))) (
       seq (lapicw (0x380 div 4) 10000000) (
       seq (lapicw (0x350 div 4) 0x10000) (
       seq (lapicw (0x360 div 4) 0x10000) (
       bnd (lapicr (0x30 div 4)) (\<lambda>ver.
       seq (doif (4 \<le> (drop_bit 16 ver) AND 0xFF) (lapicw (0x340 div 4) 0x10000)) (
       seq (lapicw (0x370 div 4) (32 + 19)) (
       seq (lapicw (0x280 div 4) 0) (
       seq (lapicw (0x280 div 4) 0) (
       seq (lapicw (0xB0 div 4) 0) (
       seq (lapicw (0x310 div 4) 0) (
       seq (lapicw (0x300 div 4) (0x80000 OR 0x500 OR 0x8000)) (
       seq (loop fuel () (\<lambda>_. bnd (lapicr (0x300 div 4)) (\<lambda>v.
              ret (if v AND 0x1000 \<noteq> 0 then Inl () else Inr ())))) (
       lapicw (0x80 div 4) 0))))))))))))))))"

definition lapiceoi :: "('z dstate_scheme, unit) routine" where
  "lapiceoi = bnd (gets lapic_mapped) (\<lambda>l. doif l (lapicw (0xB0 div 4) 0))"

definition microdelay :: "nat \<Rightarrow> ('z dstate_scheme, unit) routine" where
  "microdelay us = ret ()"

definition ioapicread :: "u32 \<Rightarrow> ('z dstate_scheme, u32) routine" where
  "ioapicread reg = gets (\<lambda>s. ioapic_regs s reg)"

definition ioapicwrite :: "u32 \<Rightarrow> u32 \<Rightarrow> ('z dstate_scheme, unit) routine" where
  "ioapicwrite reg data = modify (\<lambda>s. s\<lparr>ioapic_regs := (ioapic_regs s)(reg := data)\<rparr>)"

definition ioapicenable :: "u32 \<Rightarrow> u32 \<Rightarrow> ('z dstate_scheme, unit) routine" where
  "ioapicenable irq cpunum =
     seq (ioapicwrite (0x10 + 2 * irq) (32 + irq))
       (ioapicwrite (0x10 + 2 * irq + 1) (push_bit 24 cpunum))"

section \<open>The CMOS clock\<close>

record rtcdate =
  second :: u32
  minute :: u32
  hour :: u32
  day :: u32
  month :: u32
  year :: u32

definition cmos_read :: "byte \<Rightarrow> ('z dstate_scheme, u32) routine" where
  "cmos_read reg = seq (outb 0x70 reg) (seq (microdelay 200) (bnd (inb 0x71) (\<lambda>b. ret (ucast b))))"

definition fill_rtcdate :: "('z dstate_scheme, rtcdate) routine" where
  "fill_rtcdate =
     bnd (cmos_read 0x00) (\<lambda>sec.
     bnd (cmos_read 0x02) (\<lambda>mn.
     bnd (cmos_read 0x04) (\<lambda>hr.
     bnd (cmos_read 0x07) (\<lambda>dy.
     bnd (cmos_read 0x08) (\<lambda>mo.
     bnd (cmos_read 0x09) (\<lambda>yr.
     ret \<lparr>second = sec, minute = mn, hour = hr, day = dy, month = mo, year = yr\<rparr>))))))"

definition bcd_conv :: "u32 \<Rightarrow> u32" where
  "bcd_conv x = drop_bit 4 x * 10 + (x AND 0xf)"

definition cmostime :: "nat \<Rightarrow> ('z dstate_scheme, rtcdate) routine" where
  "cmostime fuel =
     bnd (cmos_read 0x0b) (\<lambda>sb.
     bnd (loop fuel () (\<lambda>_.
       bnd fill_rtcdate (\<lambda>t1.
       bnd (cmos_read 0x0a) (\<lambda>sa.
       if sa AND 0x80 \<noteq> 0 then ret (Inl ())
       else bnd fill_rtcdate (\<lambda>t2.
         ret (if t1 = t2 then Inr t1 else Inl ())))))) (\<lambda>t1.
     let t = (if sb AND 4 = 0
       then \<lparr>second = bcd_conv (second t1), minute = bcd_conv (minute t1), hour = bcd_conv (hour t1),
              day = bcd_conv (day t1), month = bcd_conv (month t1), year = bcd_conv (year t1)\<rparr>
       else t1) in
     ret (t\<lparr>year := year t + 2000\<rparr>)))"

section \<open>The serial port\<close>

primrec uart_wait :: "nat \<Rightarrow> ('z dstate_scheme, unit) routine" where
  "uart_wait 0 = ret ()"
| "uart_wait (Suc n) = bnd (inb (0x3f8 + 5)) (\<lambda>b.
     if b AND 0x20 = 0 then seq (microdelay 10) (uart_wait n) else ret ())"

definition uartputc :: "u32 \<Rightarrow> ('z dstate_scheme, unit) routine" where
  "uartputc c =
     bnd (gets uart) (\<lambda>u.
     if \<not> u then ret ()
     else seq (uart_wait 128) (outb (0x3f8 + 0) (ucast c)))"

definition uartgetc :: "('z dstate_scheme, int) routine" where
  "uartgetc =
     bnd (gets uart) (\<lambda>u.
     if \<not> u then ret (-1)
     else bnd (inb (0x3f8 + 5)) (\<lambda>st.
       if st AND 0x01 = 0 then ret (-1)
       else bnd (inb (0x3f8 + 0)) (\<lambda>b. ret (uint b))))"

definition uartinit :: "('z dstate_scheme, unit) routine" where
  "uartinit =
     seq (outb (0x3f8 + 2) 0) (
     seq (outb (0x3f8 + 3) 0x80) (
     seq (outb (0x3f8 + 0) (115200 div 9600)) (
     seq (outb (0x3f8 + 1) 0) (
     seq (outb (0x3f8 + 3) 0x03) (
     seq (outb (0x3f8 + 4) 0) (
     seq (outb (0x3f8 + 1) 0x01) (
     bnd (inb (0x3f8 + 5)) (\<lambda>st.
     if st = 0xFF then ret ()
     else
       seq (modify (\<lambda>s. s\<lparr>uart := True\<rparr>)) (
       seq (inb (0x3f8 + 2)) (
       seq (inb (0x3f8 + 0)) (
       seq (ioapicenable 4 0)
         (for_each (''xv6...'' @ [CHR 0x0A]) (\<lambda>c. uartputc (of_char c))))))))))))))"

section \<open>The keyboard\<close>

text \<open>A table of 256 entries given by its first entries and a list of later ones.\<close>

definition keytab :: "byte list \<Rightarrow> (nat \<times> byte) list \<Rightarrow> nat \<Rightarrow> byte" where
  "keytab xs ys i = (case map_of ys i of Some v \<Rightarrow> v | None \<Rightarrow> if i < length xs then xs ! i else 0)"

definition shiftcode :: "nat \<Rightarrow> byte" where
  "shiftcode = keytab [] [(0x1D, 2), (0x2A, 1), (0x36, 1), (0x38, 4), (0x9D, 2), (0xB8, 4)]"

definition togglecode :: "nat \<Rightarrow> byte" where
  "togglecode = keytab [] [(0x3A, 8), (0x45, 16), (0x46, 32)]"

definition keypad :: "(nat \<times> byte) list" where
  "keypad = [(0xC8, 0xE2), (0xD0, 0xE3), (0xC9, 0xE6), (0xD1, 0xE7), (0xCB, 0xE4), (0xCD, 0xE5), (0x97, 0xE0), (0xCF, 0xE1), (0xD2, 0xE8), (0xD3, 0xE9)]"

definition normalmap :: "nat \<Rightarrow> byte" where
  "normalmap = keytab
     [0x00, 0x1B, 0x31, 0x32, 0x33, 0x34, 0x35, 0x36, 0x37, 0x38, 0x39, 0x30,
      0x2D, 0x3D, 0x08, 0x09, 0x71, 0x77, 0x65, 0x72, 0x74, 0x79, 0x75, 0x69,
      0x6F, 0x70, 0x5B, 0x5D, 0x0A, 0x00, 0x61, 0x73, 0x64, 0x66, 0x67, 0x68,
      0x6A, 0x6B, 0x6C, 0x3B, 0x27, 0x60, 0x00, 0x5C, 0x7A, 0x78, 0x63, 0x76,
      0x62, 0x6E, 0x6D, 0x2C, 0x2E, 0x2F, 0x00, 0x2A, 0x00, 0x20, 0x00, 0x00,
      0x00, 0x00, 0x00, 0x00, 0x00, 0x00, 0x00, 0x00, 0x00, 0x00, 0x00, 0x37,
      0x38, 0x39, 0x2D, 0x34, 0x35, 0x36, 0x2B, 0x31, 0x32, 0x33, 0x30, 0x2E,
      0x00, 0x00, 0x00, 0x00]
     ((0x9C, 0x0A) # (0xB5, 0x2F) # keypad)"

definition shiftmap :: "nat \<Rightarrow> byte" where
  "shiftmap = keytab
     [0x00, 0x1B, 0x21, 0x40, 0x23, 0x24, 0x25, 0x5E, 0x26, 0x2A, 0x28, 0x29,
      0x5F, 0x2B, 0x08, 0x09, 0x51, 0x57, 0x45, 0x52, 0x54, 0x59, 0x55, 0x49,
      0x4F, 0x50, 0x7B, 0x7D, 0x0A, 0x00, 0x41, 0x53, 0x44, 0x46, 0x47, 0x48,
      0x4A, 0x4B, 0x4C, 0x3A, 0x22, 0x7E, 0x00, 0x7C, 0x5A, 0x58, 0x43, 0x56,
      0x42, 0x4E, 0x4D, 0x3C, 0x3E, 0x3F, 0x00, 0x2A, 0x00, 0x20, 0x00, 0x00,
      0x00, 0x00, 0x00, 0x00, 0x00, 0x00, 0x00, 0x00, 0x00, 0x00, 0x00, 0x37,
      0x38, 0x39, 0x2D, 0x34, 0x35, 0x36, 0x2B, 0x31, 0x32, 0x33, 0x30, 0x2E,
      0x00, 0x00, 0x00, 0x00]
     ((0x9C, 0x0A) # (0xB5, 0x2F) # keypad)"

definition ctlmap :: "nat \<Rightarrow> byte" where
  "ctlmap = keytab
     [0x00, 0x00, 0x00, 0x00, 0x00, 0x00, 0x00, 0x00, 0x00, 0x00, 0x00, 0x00,
      0x00, 0x00, 0x00, 0x00, 0x11, 0x17, 0x05, 0x12, 0x14, 0x19, 0x15, 0x09,
      0x0F, 0x10, 0x00, 0x00, 0x0D, 0x00, 0x01, 0x13, 0x04, 0x06, 0x07, 0x08,
      0x0A, 0x0B, 0x0C, 0x00, 0x00, 0x00, 0x00, 0x1C, 0x1A, 0x18, 0x03, 0x16,
      0x02, 0x0E, 0x0D, 0x00, 0x00, 0xEF, 0x00, 0x00]
     ((0x9C, 0x0D) # (0xB5, 0xEF) # keypad)"

definition charcode :: "u32 \<Rightarrow> nat \<Rightarrow> byte" where
  "charcode k = (if k = 0 then normalmap else if k = 1 then shiftmap else ctlmap)"

text \<open>The decoder as a function of the modifier state and one scan code: the new modifier state and
  the character, 0 for none.\<close>

definition kbd_decode :: "u32 \<Rightarrow> u32 \<Rightarrow> u32 \<times> u32" where
  "kbd_decode shift data =
     (if data = 0xE0 then (shift OR 0x40, 0)
      else if data AND 0x80 \<noteq> 0 then
        let data = (if shift AND 0x40 \<noteq> 0 then data else data AND 0x7F) in
        (shift AND NOT (ucast (shiftcode (unat data)) OR 0x40), 0)
      else
        let (data, shift) = (if shift AND 0x40 \<noteq> 0 then (data OR 0x80, shift AND NOT 0x40) else (data, shift));
            shift = shift OR ucast (shiftcode (unat data));
            shift = shift XOR ucast (togglecode (unat data));
            c = (ucast (charcode (shift AND (2 OR 1)) (unat data)) :: u32);
            c = (if shift AND 8 \<noteq> 0 then
                   if 0x61 \<le> c \<and> c \<le> 0x7A then c + (0x41 - 0x61)
                   else if 0x41 \<le> c \<and> c \<le> 0x5A then c + (0x61 - 0x41) else c
                 else c)
        in (shift, c))"

definition kbdgetc :: "('z dstate_scheme, int) routine" where
  "kbdgetc =
     bnd (inb 0x64) (\<lambda>st.
     if st AND 0x01 = 0 then ret (-1)
     else bnd (inb 0x60) (\<lambda>data.
       bnd (gets (\<lambda>s. kbd_decode (kbd_shift s) (ucast data))) (\<lambda>r.
       seq (modify (\<lambda>s. s\<lparr>kbd_shift := fst r\<rparr>)) (ret (uint (snd r))))))"

section \<open>Console output\<close>

definition BACKSPACE :: u32 where "BACKSPACE = 0x100"

text \<open>The four parts of \<^verbatim>\<open>cgaputc\<close>: read the cursor, write the character, scroll, and set
  the cursor.\<close>

definition cga_cursor :: "('z dstate_scheme, nat) routine" where
  "cga_cursor =
     seq (outb 0x3d4 14) (
     bnd (inb 0x3d5) (\<lambda>hi.
     seq (outb 0x3d4 15) (
     bnd (inb 0x3d5) (\<lambda>lo. ret (256 * unat hi + unat lo)))))"

definition cga_write :: "u32 \<Rightarrow> nat \<Rightarrow> ('z dstate_scheme, nat) routine" where
  "cga_write c pos =
     (if c = 0x0A then ret (pos + (80 - pos mod 80))
      else if c = BACKSPACE then ret (if 0 < pos then pos - 1 else pos)
      else seq (modify (\<lambda>s. s\<lparr>crt := (crt s)(pos := ucast (c AND 0xff) OR 0x0700)\<rparr>)) (ret (pos + 1)))"

definition cga_scroll :: "nat \<Rightarrow> ('z dstate_scheme, nat) routine" where
  "cga_scroll pos =
     (if 24 \<le> pos div 80
      then seq (modify (\<lambda>s. s\<lparr>crt := (\<lambda>i. if i < 23 * 80 then crt s (i + 80) else crt s i)\<rparr>)) (
           seq (modify (\<lambda>s. s\<lparr>crt := (\<lambda>i. if pos - 80 \<le> i \<and> i < 24 * 80 then 0 else crt s i)\<rparr>))
           (ret (pos - 80)))
      else ret pos)"

definition cga_set :: "nat \<Rightarrow> ('z dstate_scheme, unit) routine" where
  "cga_set pos =
     seq (outb 0x3d4 14) (
     seq (outb 0x3d5 (of_nat (pos div 256))) (
     seq (outb 0x3d4 15) (
     seq (outb 0x3d5 (of_nat pos))
       (modify (\<lambda>s. s\<lparr>crt := (crt s)(pos := 0x20 OR 0x0700)\<rparr>)))))"

definition cgaputc :: "u32 \<Rightarrow> ('z dstate_scheme, unit) routine" where
  "cgaputc c =
     bnd cga_cursor (\<lambda>pos.
     bnd (cga_write c pos) (\<lambda>pos.
     if 25 * 80 < pos then panic ''pos under/overflow''
     else bnd (cga_scroll pos) cga_set))"

definition consputc :: "u32 \<Rightarrow> ('z dstate_scheme, unit) routine" where
  "consputc c =
     bnd (gets panicked) (\<lambda>b.
     if b then seq cli (stuck ''panicked'')
     else
       seq (if c = BACKSPACE then seq (uartputc 0x08) (seq (uartputc 0x20) (uartputc 0x08))
            else uartputc c)
         (cgaputc c))"

text \<open>
  \<open>digits_of base x\<close> is the buffer of \<^verbatim>\<open>printint\<close> after its first loop, least
  significant digit first; the buffer has 16 entries.
\<close>

definition digit_char :: "nat \<Rightarrow> char" where
  "digit_char d = ''0123456789abcdef'' ! d"

function digits_of :: "nat \<Rightarrow> nat \<Rightarrow> nat list" where
  "digits_of base x = (if base < 2 then [x] else x mod base # (if x div base = 0 then [] else digits_of base (x div base)))"
  by auto
termination by (relation "measure (\<lambda>(b, x). x)") (auto intro!: div_less_dividend gr0I)

declare digits_of.simps [simp del]

definition int_chars :: "u32 \<Rightarrow> nat \<Rightarrow> bool \<Rightarrow> string" where
  "int_chars xx base sign =
     (let neg = sign \<and> sint xx < 0;
          x = (if neg then - xx else xx);
          buf = map digit_char (digits_of base (unat x)) @ (if neg then ''-'' else [])
      in rev buf)"

definition printint :: "u32 \<Rightarrow> nat \<Rightarrow> bool \<Rightarrow> ('z dstate_scheme, unit) routine" where
  "printint xx base sign = for_each (int_chars xx base sign) (\<lambda>ch. consputc (of_char ch))"

text \<open>An argument of \<^verbatim>\<open>cprintf\<close>: a word, or a string pointer that may be null.\<close>

datatype carg = CInt u32 | CStr "byte list option"

fun cprintf_loop :: "string \<Rightarrow> carg list \<Rightarrow> ('z dstate_scheme, unit) routine" where
  "cprintf_loop [] args = ret ()"
| "cprintf_loop (ch # fmt) args =
     (if ch \<noteq> CHR ''%'' then seq (consputc (of_char ch)) (cprintf_loop fmt args)
      else case fmt of [] \<Rightarrow> ret ()
        | f # rest \<Rightarrow>
            if f = CHR ''d'' then
              (case args of CInt v # as \<Rightarrow> seq (printint v 10 True) (cprintf_loop rest as)
               | _ \<Rightarrow> stuck ''cprintf: argument'')
            else if f = CHR ''x'' \<or> f = CHR ''p'' then
              (case args of CInt v # as \<Rightarrow> seq (printint v 16 False) (cprintf_loop rest as)
               | _ \<Rightarrow> stuck ''cprintf: argument'')
            else if f = CHR ''c'' then
              (case args of CInt v # as \<Rightarrow>
                 let chr = (ucast v :: byte); chr = (if chr = 0 then 0x30 else chr) in
                 seq (consputc (scast chr)) (cprintf_loop rest as)
               | _ \<Rightarrow> stuck ''cprintf: argument'')
            else if f = CHR ''s'' then
              (case args of CStr sp # as \<Rightarrow>
                 let bs = (case sp of None \<Rightarrow> map of_char ''(null)'' | Some bs \<Rightarrow> bs) in
                 seq (for_each bs (\<lambda>b. consputc (scast b))) (cprintf_loop rest as)
               | _ \<Rightarrow> stuck ''cprintf: argument'')
            else if f = CHR ''%'' then seq (consputc (of_char f)) (cprintf_loop rest args)
            else seq (consputc (of_char CHR ''%'')) (seq (consputc (of_char f)) (cprintf_loop rest args)))"

definition cprintf :: "string \<Rightarrow> carg list \<Rightarrow> ('z dstate_scheme, unit) routine" where
  "cprintf fmt args =
     bnd (gets cons_locking) (\<lambda>locking.
     seq (doif locking (acquire ConsLock)) (
     seq (cprintf_loop fmt args)
       (doif locking (release ConsLock))))"

definition ioapicinit :: "('z dstate_scheme, unit) routine" where
  "ioapicinit =
     bnd (ioapicread 0x01) (\<lambda>ver.
     let maxintr = drop_bit 16 ver AND 0xFF in
     bnd (ioapicread 0x00) (\<lambda>idr.
     bnd (gets ioapicid) (\<lambda>own.
     seq (doif (drop_bit 24 idr \<noteq> own)
           (cprintf (''ioapicinit: id isn'' @ [CHR 0x27] @ ''t equal to ioapicid; not a MP'' @ [CHR 0x0A]) [])) (
     for_each [0..<Suc (unat maxintr)] (\<lambda>i.
       seq (ioapicwrite (0x10 + 2 * of_nat i) (0x10000 OR (32 + of_nat i)))
         (ioapicwrite (0x10 + 2 * of_nat i + 1) 0))))))"

section \<open>Digits\<close>

primrec horner :: "nat \<Rightarrow> nat list \<Rightarrow> nat" where
  "horner base [] = 0"
| "horner base (d # ds) = d + base * horner base ds"

lemma horner_digits_of: "2 \<le> base \<Longrightarrow> horner base (digits_of base x) = x"
proof (induction base x rule: digits_of.induct)
  case (1 base x)
  show ?case
  proof (cases "x div base = 0")
    case True
    with 1(2) show ?thesis by (subst digits_of.simps) (auto simp: div_eq_0_iff)
  next
    case False
    with 1 have "horner base (digits_of base (x div base)) = x div base" by simp
    with False 1(2) show ?thesis by (subst digits_of.simps) simp
  qed
qed

lemma digits_of_less: "2 \<le> base \<Longrightarrow> d \<in> set (digits_of base x) \<Longrightarrow> d < base"
proof (induction base x rule: digits_of.induct)
  case (1 base x)
  then show ?case by (subst (asm) digits_of.simps) (auto split: if_splits)
qed

lemma length_digits_of: "2 \<le> base \<Longrightarrow> x < base ^ n \<Longrightarrow> 0 < n \<Longrightarrow> length (digits_of base x) \<le> n"
proof (induction n arbitrary: x)
  case (Suc n)
  show ?case
  proof (cases "x div base = 0")
    case True
    with Suc.prems show ?thesis by (subst digits_of.simps) simp
  next
    case False
    then have "0 < n" using Suc.prems by (cases n) (auto simp: div_eq_0_iff)
    moreover have "x div base < base ^ n" using Suc.prems by (simp add: less_mult_imp_div_less mult.commute)
    ultimately have "length (digits_of base (x div base)) \<le> n" using Suc by simp
    with False Suc.prems(1) show ?thesis by (subst digits_of.simps) simp
  qed
qed simp

section \<open>Reading numbers back\<close>

text \<open>The value of a digit character and of a printed number, read the way a user reads it.\<close>

definition char_digit :: "char \<Rightarrow> nat" where
  "char_digit ch = (let c = of_char ch in if c < 0x3A then c - 0x30 else c - 0x61 + 10)"

definition read_digits :: "nat \<Rightarrow> string \<Rightarrow> nat" where
  "read_digits base cs = horner base (map char_digit (rev cs))"

definition read_int :: "nat \<Rightarrow> string \<Rightarrow> int" where
  "read_int base cs = (if take 1 cs = ''-'' then - int (read_digits base (tl cs)) else int (read_digits base cs))"

lemma char_digit_char: "d < 16 \<Longrightarrow> char_digit (digit_char d) = d \<and> digit_char d \<noteq> CHR ''-''"
proof -
  assume "d < 16"
  then have "d \<in> set [0..<16]" by simp
  then show ?thesis by (simp add: upt_rec digit_char_def char_digit_def) auto
qed

lemma read_digits_chars:
  assumes "2 \<le> base" "base \<le> 16"
  shows "read_digits base (rev (map digit_char (digits_of base x))) = x"
proof -
  have "map (char_digit \<circ> digit_char) (digits_of base x) = digits_of base x"
  proof (rule map_idI)
    fix d assume "d \<in> set (digits_of base x)"
    then have "d < 16" using digits_of_less assms by (meson less_le_trans)
    then show "(char_digit \<circ> digit_char) d = d" by (simp add: char_digit_char)
  qed
  then show ?thesis using assms by (simp add: read_digits_def horner_digits_of)
qed

lemma digits_of_nonempty: "digits_of base x \<noteq> []"
  by (subst digits_of.simps) simp

lemma no_minus:
  assumes "2 \<le> base" "base \<le> 16"
  shows "\<exists>ch cs. rev (map digit_char (digits_of base x)) = ch # cs \<and> ch \<noteq> CHR ''-''"
proof -
  let ?cs = "rev (map digit_char (digits_of base x))"
  have "?cs \<noteq> []" using digits_of_nonempty by simp
  then obtain ch cs where eq: "?cs = ch # cs" by (meson neq_Nil_conv)
  then have "ch \<in> set ?cs" by simp
  then obtain d where "d \<in> set (digits_of base x)" "ch = digit_char d" by auto
  moreover then have "d < 16" using digits_of_less assms by (meson less_le_trans)
  ultimately show ?thesis using eq char_digit_char by blast
qed

section \<open>Properties\<close>

lemma uint_minus_neg:
  assumes "sint (w :: u32) < 0"
  shows "uint (- w) = - sint w"
proof -
  have "- w = word_of_int (- sint w)" by simp
  then have "uint (- w) = take_bit 32 (- sint w)" by (simp only: unsigned_of_int) simp
  also have "\<dots> = - sint w"
    using assms sint_ge [of w] by (intro take_bit_int_eq_self) simp_all
  finally show ?thesis by simp
qed

lemma uint_nonneg: "\<not> sint (w :: u32) < 0 \<Longrightarrow> uint w = sint w"
proof -
  assume a: "\<not> sint w < 0"
  have "uint (word_of_int (sint w) :: u32) = take_bit 32 (sint w)" by (simp only: unsigned_of_int) simp
  then have "uint w = take_bit 32 (sint w)" by simp
  also have "\<dots> = sint w"
    using a sint_lt [of w] by (intro take_bit_int_eq_self) simp_all
  finally show ?thesis by simp
qed



lemma bcd_conv_digits: "t < 10 \<Longrightarrow> u < 10 \<Longrightarrow> bcd_conv (of_nat (16 * t + u)) = of_nat (10 * t + u)"
proof -
  assume "t < 10" "u < 10"
  then have "t \<in> set [0..<10]" "u \<in> set [0..<10]" by auto
  then show ?thesis by (simp add: upt_rec bcd_conv_def) auto
qed

lemma inb_apply [simp]: "inb p s = Done (port_in s p (port_reads s p))
   (s\<lparr>port_reads := (port_reads s)(p := port_reads s p + 1)\<rparr>)"
  by (simp add: inb_def)

lemma outb_apply [simp]: "outb p b s = Done () (s\<lparr>port_out := port_out s @ [(p, b)]\<rparr>)"
  by (simp add: outb_def)

lemma byte_split:
  assumes "n < 65536"
  shows "256 * unat (of_nat (n div 256) :: byte) + unat (of_nat n :: byte) = n"
proof -
  have "unat (of_nat (n div 256) :: byte) = n div 256" using assms by (simp add: unat_of_nat)
  moreover have "unat (of_nat n :: byte) = n mod 256" by (simp add: unat_of_nat)
  ultimately show ?thesis by simp
qed

definition cga_next :: "u32 \<Rightarrow> nat \<Rightarrow> nat" where
  "cga_next c pos = (if c = 0x0A then pos + (80 - pos mod 80) else if c = BACKSPACE then pos - 1 else pos + 1)"

lemma cga_next_le: "pos < 1920 \<Longrightarrow> cga_next c pos \<le> 1920"
proof -
  assume a: "pos < 1920"
  then have "pos div 80 < 24" by (simp add: less_mult_imp_div_less)
  moreover have "pos = 80 * (pos div 80) + pos mod 80" by simp
  ultimately have "pos + (80 - pos mod 80) \<le> 1920" using mod_less_divisor [of 80 pos] by linarith
  with a show ?thesis by (auto simp: cga_next_def)
qed

lemma cga_write_ok:
  "pos < 1920 \<Longrightarrow> run_ok (cga_write c pos s) (\<lambda>q t. q = cga_next c pos \<and> port_out t = port_out s \<and>
     (\<forall>i \<ge> 1920. crt t i = crt s i))"
  by (simp add: cga_write_def cga_next_def)

lemma cga_scroll_ok:
  "q \<le> 1920 \<Longrightarrow> run_ok (cga_scroll q s) (\<lambda>p t. p < 1920 \<and> port_out t = port_out s \<and>
     (\<forall>i \<ge> 1920. crt t i = crt s i))"
  by (cases "q = 1920") (simp_all add: cga_scroll_def)

lemma cga_set_ok:
  "q < 1920 \<Longrightarrow> run_ok (cga_set q s) (\<lambda>_ t. port_out t = port_out s @
     [(0x3d4, 14), (0x3d5, of_nat (q div 256)), (0x3d4, 15), (0x3d5, of_nat q)] \<and>
     (\<forall>i \<ge> 1920. crt t i = crt s i))"
  by (simp add: cga_set_def)


text \<open>A machine for the witness whose cursor is at the last cell of the screen.\<close>

definition demo_dstate :: dstate where
  "demo_dstate = kstate.extend demo_state (dstate.fields
     (\<lambda>p k. if p = 0x3d5 then (if even k then 7 else 0x7F) else 0xFF) (\<lambda>_. 0) [] (\<lambda>_ _. 0) (\<lambda>_. 0) []
     (\<lambda>_. 0) 0 True 0 (\<lambda>_. 0) True False)"


text \<open>The scan codes of the letter keys, row by row, and their letters.\<close>

definition letter_keys :: "(nat \<times> char) list" where
  "letter_keys = zip ([0x10..<0x1A] @ [0x1E..<0x27] @ [0x2C..<0x33]) ''qwertyuiopasdfghjklzxcvbnm''"

lemma kbd_letters_table:
  "list_all (\<lambda>(d, ch). list_all (\<lambda>sh. kbd_decode sh (of_nat d) =
     (sh, if sh = 1 \<or> sh = 8 then of_char ch - 0x20 else of_char ch)) [0, 1, 8, 9]) letter_keys"
  by (simp add: letter_keys_def upt_rec kbd_decode_def keytab_def normalmap_def shiftmap_def
      keypad_def shiftcode_def togglecode_def charcode_def)



end
