(* ===== verification/Kstring.thy ===== *)
theory Kstring
  imports Prelude
begin

text \<open>
  Byte memory and the string routines: \<^verbatim>\<open>string.c\<close> of the kernel, \<^verbatim>\<open>ulib.c\<close> of
  user space and the store instructions of \<^verbatim>\<open>x86.h\<close> they use. Memory is a function from
  32-bit addresses to bytes and pointer arithmetic wraps as on the machine. Each routine is proved
  equal to, or characterised by, a specification on address ranges.
\<close>

type_synonym mem = "u32 \<Rightarrow> byte"

section \<open>Words in memory\<close>

text \<open>The 4 bytes of a word, little endian.\<close>

definition ld32 :: "mem \<Rightarrow> u32 \<Rightarrow> u32" where
  "ld32 m a = ucast (m a) OR push_bit 8 (ucast (m (a + 1))) OR
     push_bit 16 (ucast (m (a + 2))) OR push_bit 24 (ucast (m (a + 3)))"

definition st32 :: "mem \<Rightarrow> u32 \<Rightarrow> u32 \<Rightarrow> mem" where
  "st32 m a v = m(a := ucast v, a + 1 := ucast (drop_bit 8 v),
     a + 2 := ucast (drop_bit 16 v), a + 3 := ucast (drop_bit 24 v))"

section \<open>Store instructions\<close>

fun stosb :: "mem \<Rightarrow> u32 \<Rightarrow> byte \<Rightarrow> nat \<Rightarrow> mem" where
  "stosb m addr data 0 = m"
| "stosb m addr data (Suc cnt) = stosb (m(addr := data)) (addr + 1) data cnt"

fun stosl :: "mem \<Rightarrow> u32 \<Rightarrow> u32 \<Rightarrow> nat \<Rightarrow> mem" where
  "stosl m addr data 0 = m"
| "stosl m addr data (Suc cnt) = stosl (st32 m addr data) (addr + 4) data cnt"

section \<open>Kernel string routines\<close>

text \<open>The test \<^verbatim>\<open>(int)dst%4 == 0\<close> is the same for the signed and the unsigned reading.\<close>

definition splat :: "u32 \<Rightarrow> u32" where
  "splat c = push_bit 24 c OR push_bit 16 c OR push_bit 8 c OR c"

definition memset :: "mem \<Rightarrow> u32 \<Rightarrow> u32 \<Rightarrow> u32 \<Rightarrow> mem" where
  "memset m dst c n =
     (if dst mod 4 = 0 \<and> n mod 4 = 0 then stosl m dst (splat (c AND 0xFF)) (unat (n div 4))
      else stosb m dst (ucast c) (unat n))"

fun memcmp :: "mem \<Rightarrow> u32 \<Rightarrow> u32 \<Rightarrow> nat \<Rightarrow> int" where
  "memcmp m s1 s2 0 = 0"
| "memcmp m s1 s2 (Suc n) =
     (if m s1 \<noteq> m s2 then uint (m s1) - uint (m s2) else memcmp m (s1 + 1) (s2 + 1) n)"

fun copy_bwd :: "mem \<Rightarrow> u32 \<Rightarrow> u32 \<Rightarrow> nat \<Rightarrow> mem" where
  "copy_bwd m d s 0 = m"
| "copy_bwd m d s (Suc n) = copy_bwd (m(d - 1 := m (s - 1))) (d - 1) (s - 1) n"

fun copy_fwd :: "mem \<Rightarrow> u32 \<Rightarrow> u32 \<Rightarrow> nat \<Rightarrow> mem" where
  "copy_fwd m d s 0 = m"
| "copy_fwd m d s (Suc n) = copy_fwd (m(d := m s)) (d + 1) (s + 1) n"

definition memmove :: "mem \<Rightarrow> u32 \<Rightarrow> u32 \<Rightarrow> u32 \<Rightarrow> mem" where
  "memmove m dst src n =
     (if src < dst \<and> src + n > dst then copy_bwd m (dst + n) (src + n) (unat n)
      else copy_fwd m dst src (unat n))"

definition memcpy :: "mem \<Rightarrow> u32 \<Rightarrow> u32 \<Rightarrow> u32 \<Rightarrow> mem" where
  "memcpy m dst src n = memmove m dst src n"

fun strncmp :: "mem \<Rightarrow> u32 \<Rightarrow> u32 \<Rightarrow> nat \<Rightarrow> int" where
  "strncmp m p q 0 = 0"
| "strncmp m p q (Suc n) =
     (if m p \<noteq> 0 \<and> m p = m q then strncmp m (p + 1) (q + 1) n
      else uint (m p) - uint (m q))"

text \<open>The first loop of \<^verbatim>\<open>strncpy\<close> copies up to and including a NUL, the second pads.\<close>

fun strncpy_loop :: "mem \<Rightarrow> u32 \<Rightarrow> u32 \<Rightarrow> nat \<Rightarrow> mem" where
  "strncpy_loop m s t 0 = m"
| "strncpy_loop m s t (Suc n) =
     (if m t \<noteq> 0 then strncpy_loop (m(s := m t)) (s + 1) (t + 1) n
      else stosb (m(s := m t)) (s + 1) 0 n)"

definition strncpy :: "mem \<Rightarrow> u32 \<Rightarrow> u32 \<Rightarrow> int \<Rightarrow> mem" where
  "strncpy m s t n = strncpy_loop m s t (nat n)"

text \<open>\<open>safestrcpy_loop m s t n\<close> is the loop when \<open>n\<close> more bytes than the final NUL may be
  written.\<close>

fun safestrcpy_loop :: "mem \<Rightarrow> u32 \<Rightarrow> u32 \<Rightarrow> nat \<Rightarrow> mem" where
  "safestrcpy_loop m s t 0 = m(s := 0)"
| "safestrcpy_loop m s t (Suc n) =
     (if m t \<noteq> 0 then safestrcpy_loop (m(s := m t)) (s + 1) (t + 1) n
      else m(s := m t, s + 1 := 0))"

definition safestrcpy :: "mem \<Rightarrow> u32 \<Rightarrow> u32 \<Rightarrow> int \<Rightarrow> mem" where
  "safestrcpy m s t n = (if n \<le> 0 then m else safestrcpy_loop m s t (nat n - 1))"

text \<open>The loop of \<^verbatim>\<open>strlen\<close> ends only if there is a NUL.\<close>

partial_function (option) strlen_loop :: "mem \<Rightarrow> u32 \<Rightarrow> nat \<Rightarrow> nat option" where
  "strlen_loop m s n = (if m (s + of_nat n) = 0 then Some n else strlen_loop m s (Suc n))"

definition strlen :: "mem \<Rightarrow> u32 \<Rightarrow> nat option" where
  "strlen m s = strlen_loop m s 0"

section \<open>User string routines\<close>

definition umemset :: "mem \<Rightarrow> u32 \<Rightarrow> u32 \<Rightarrow> u32 \<Rightarrow> mem" where
  "umemset m dst c n = stosb m dst (ucast c) (unat n)"

definition umemmove :: "mem \<Rightarrow> u32 \<Rightarrow> u32 \<Rightarrow> int \<Rightarrow> mem" where
  "umemmove m vdst vsrc n = copy_fwd m vdst vsrc (nat n)"

partial_function (option) strcpy :: "mem \<Rightarrow> u32 \<Rightarrow> u32 \<Rightarrow> mem option" where
  "strcpy m s t = (if m t \<noteq> 0 then strcpy (m(s := m t)) (s + 1) (t + 1) else Some (m(s := m t)))"

partial_function (option) strcmp :: "mem \<Rightarrow> u32 \<Rightarrow> u32 \<Rightarrow> int option" where
  "strcmp m p q = (if m p \<noteq> 0 \<and> m p = m q then strcmp m (p + 1) (q + 1)
     else Some (uint (m p) - uint (m q)))"

partial_function (option) strchr_loop :: "mem \<Rightarrow> u32 \<Rightarrow> byte \<Rightarrow> u32 option" where
  "strchr_loop m s c = (if m s = 0 then Some 0 else if m s = c then Some s else strchr_loop m (s + 1) c)"

definition strchr :: "mem \<Rightarrow> u32 \<Rightarrow> byte \<Rightarrow> u32 option" where
  "strchr m s c = strchr_loop m s c"

text \<open>\<^verbatim>\<open>atoi\<close> computes in a 32-bit \<^verbatim>\<open>int\<close>; the sum wraps.\<close>

partial_function (option) atoi_loop :: "mem \<Rightarrow> u32 \<Rightarrow> u32 \<Rightarrow> u32 option" where
  "atoi_loop m s n = (if 0x30 \<le> m s \<and> m s \<le> 0x39
     then atoi_loop m (s + 1) (n * 10 + ucast (m s) - 0x30) else Some n)"

definition atoi :: "mem \<Rightarrow> u32 \<Rightarrow> u32 option" where
  "atoi m s = atoi_loop m s 0"

section \<open>Ranges of addresses\<close>

text \<open>\<open>in_range a base n\<close>: \<open>a\<close> is one of the \<open>n\<close> addresses from \<open>base\<close> on.\<close>

definition in_range :: "u32 \<Rightarrow> u32 \<Rightarrow> nat \<Rightarrow> bool" where
  "in_range a base n \<longleftrightarrow> unat (a - base) < n"

definition fill :: "mem \<Rightarrow> u32 \<Rightarrow> byte \<Rightarrow> nat \<Rightarrow> mem" where
  "fill m base v n = (\<lambda>a. if in_range a base n then v else m a)"

definition copied :: "mem \<Rightarrow> u32 \<Rightarrow> u32 \<Rightarrow> nat \<Rightarrow> mem" where
  "copied m dst src n = (\<lambda>a. if in_range a dst n then m (src + (a - dst)) else m a)"

lemma in_range_Suc: "in_range a b (Suc n) \<longleftrightarrow> a = b \<or> in_range a (b + 1) n"
proof (cases "a = b")
  case False
  then have "a - b \<noteq> 0" by simp
  then have "unat (a - b - 1) = unat (a - b) - 1" and "0 < unat (a - b)"
    by (simp_all add: unat_minus_one unat_gt_0)
  moreover have "a - (b + 1) = a - b - 1" by (simp only: diff_diff_eq)
  ultimately show ?thesis using False by (simp only: in_range_def) arith
qed (simp add: in_range_def)

lemma in_range_0 [simp]: "\<not> in_range a b 0"
  by (simp add: in_range_def)

lemma stosb_fill: "stosb m b v n = fill m b v n"
proof (induction n arbitrary: m b)
  case (Suc n)
  then show ?case by (auto simp: fill_def in_range_Suc fun_eq_iff)
qed (simp add: fill_def)

lemma in_range_4: "in_range a b (4 + n) \<longleftrightarrow> a \<in> {b, b + 1, b + 2, b + 3} \<or> in_range a (b + 4) n"
  by (simp add: in_range_Suc numeral_eq_Suc add.assoc)

lemma and_FF: "(c::u32) AND 0xFF = take_bit 8 c"
  by (simp add: take_bit_eq_mask mask_eq_exp_minus_1)

lemma splat_bytes:
  "(ucast (splat (c AND 0xFF)) :: byte) = ucast c"
  "(ucast (drop_bit 8 (splat (c AND 0xFF))) :: byte) = ucast c"
  "(ucast (drop_bit 16 (splat (c AND 0xFF))) :: byte) = ucast c"
  "(ucast (drop_bit 24 (splat (c AND 0xFF))) :: byte) = ucast c"
  unfolding splat_def and_FF by (rule bit_word_eqI; auto simp: bit_simps)+

lemma st32_splat: "st32 m a (splat (c AND 0xFF)) = fill m a (ucast c) 4"
  unfolding st32_def splat_bytes fill_def using in_range_4 [where n = 0] by (auto simp: fun_eq_iff)

lemma fill_4: "fill (fill m b v 4) (b + 4) v n = fill m b v (4 + n)"
  unfolding fill_def in_range_4 [where n = n] using in_range_4 [where n = 0] by (auto simp: fun_eq_iff)

lemma stosl_fill: "stosl m b (splat (c AND 0xFF)) n = fill m b (ucast c) (4 * n)"
proof (induction n arbitrary: m b)
  case (Suc n)
  have "stosl m b (splat (c AND 0xFF)) (Suc n) = fill (fill m b (ucast c) 4) (b + 4) (ucast c) (4 * n)"
    unfolding stosl.simps st32_splat by (rule Suc)
  then show ?case by (simp only: fill_4 mult_Suc_right)
qed (simp add: fill_def)

lemma memset_fill: "memset m dst c n = fill m dst (ucast c) (unat n)"
proof (cases "dst mod 4 = 0 \<and> n mod 4 = 0")
  case True
  then have "unat (n mod 4) = 0" by simp
  then have "unat n mod 4 = 0" by (simp add: unat_mod)
  then have "4 * unat (n div 4) = unat n" by (simp add: unat_div) arith
  then show ?thesis using True by (simp add: memset_def Let_def stosl_fill)
next
  case False
  then show ?thesis by (auto simp: memset_def stosb_fill)
qed

lemma copy_fwd_copied:
  assumes "s = d \<or> n \<le> unat (d - s)" "n \<le> 2 ^ 32"
  shows "copy_fwd m d s n = copied m d s n"
  using assms
proof (induction n arbitrary: m d s)
  case (Suc n)
  let ?m = "m(d := m s)"
  have "copy_fwd ?m (d + 1) (s + 1) n = copied ?m (d + 1) (s + 1) n"
    by (rule Suc.IH) (use Suc.prems in auto)
  then have "copy_fwd m d s (Suc n) = copied ?m (d + 1) (s + 1) n" by simp
  also have "\<dots> = copied m d s (Suc n)"
  proof
    fix a
    consider "a = d" | "a \<noteq> d" "in_range a (d + 1) n" | "a \<noteq> d" "\<not> in_range a (d + 1) n" by blast
    then show "copied ?m (d + 1) (s + 1) n a = copied m d s (Suc n) a"
    proof cases
      case 1
      have "\<not> in_range d (d + 1) n" using Suc.prems(2) by (simp add: in_range_def unsigned_minus_1_eq_mask mask_eq_exp_minus_1)
      with 1 show ?thesis by (simp add: copied_def in_range_Suc)
    next
      case 2
      have "s + (a - d) \<noteq> d"
      proof
        assume "s + (a - d) = d"
        then have "a - d = d - s" by (metis add_diff_cancel_left')
        moreover have "unat (a - d) < Suc n" using 2 in_range_Suc [of a d n] by (simp add: in_range_def)
        ultimately show False using 2(1) Suc.prems(1) by auto
      qed
      with 2 show ?thesis by (simp add: copied_def in_range_Suc)
    next
      case 3
      then show ?thesis by (simp add: copied_def in_range_Suc)
    qed
  qed
  finally show ?case .
qed (simp add: copied_def)

lemma copy_bwd_copied:
  assumes "s = d \<or> n \<le> unat (s - d)" "n \<le> 2 ^ 32"
  shows "copy_bwd m (d + of_nat n) (s + of_nat n) n = copied m d s n"
  using assms
proof (induction n arbitrary: m)
  case (Suc n)
  let ?m = "m(d + of_nat n := m (s + of_nat n))"
  have "copy_bwd ?m (d + of_nat n) (s + of_nat n) n = copied ?m d s n"
    by (rule Suc.IH) (use Suc.prems in auto)
  then have "copy_bwd m (d + of_nat (Suc n)) (s + of_nat (Suc n)) (Suc n) = copied ?m d s n"
    by simp
  also have "\<dots> = copied m d s (Suc n)"
  proof
    fix a
    have n: "unat (of_nat n :: u32) = n" using Suc.prems(2) by (simp add: unat_of_nat)
    have last: "in_range a d (Suc n) \<longleftrightarrow> in_range a d n \<or> a = d + of_nat n"
    proof -
      have "unat (a - d) = n \<longleftrightarrow> a = d + of_nat n" using n by (metis add_diff_cancel_left' diff_add_cancel add.commute of_nat_unat_u32)
      then show ?thesis by (auto simp: in_range_def less_Suc_eq)
    qed
    have "a = d + of_nat n \<Longrightarrow> \<not> in_range a d n" using n by (simp add: in_range_def)
    moreover have "s + (a - d) \<noteq> d + of_nat n" if r: "in_range a d n"
    proof
      assume "s + (a - d) = d + of_nat n"
      then have sd: "s - d = of_nat n - (a - d)" by (simp add: algebra_simps)
      have "a - d \<le> of_nat n" using r n by (simp add: in_range_def word_le_nat_alt)
      then have "unat (s - d) = n - unat (a - d)"
        unfolding sd by (simp only: unat_sub n)
      then show False using r Suc.prems(1) by (auto simp: in_range_def)
    qed
    ultimately show "copied ?m d s n a = copied m d s (Suc n) a"
      by (auto simp: copied_def last)
  qed
  finally show ?case .
qed (simp add: copied_def)

lemma memmove_copied:
  assumes "unat src + unat n < 2 ^ 32" "unat dst + unat n \<le> 2 ^ 32"
  shows "memmove m dst src n = copied m dst src (unat n)"
proof (cases "src < dst \<and> src + n > dst")
  case True
  have "unat (src - dst) = 2 ^ 32 + unat src - unat dst"
    using True by (simp add: unat_sub_if_size word_size word_less_nat_alt word_le_nat_alt)
  then have "unat n \<le> unat (src - dst)" using assms(2) by simp
  then show ?thesis
    using True copy_bwd_copied [of src dst "unat n" m] unat_u32_less [of n]
    by (simp add: memmove_def less_imp_le)
next
  case False
  have "unat (src + n) = unat src + unat n" using assms(1) by (simp add: unat_word_ariths)
  then have "dst \<le> src \<or> unat src + unat n \<le> unat dst"
    using False by (auto simp: word_less_nat_alt not_less word_le_nat_alt)
  then have "src = dst \<or> unat n \<le> unat (dst - src)"
    using assms by (auto simp: unat_sub_if_size word_size word_le_nat_alt word_unat_eq_iff)
  then show ?thesis
    using False copy_fwd_copied [of src dst "unat n" m] unat_u32_less [of n]
    by (auto simp: memmove_def less_imp_le)
qed

section \<open>Strings in memory\<close>

text \<open>\<open>cstring m a xs\<close>: at address \<open>a\<close> there are the non-NUL bytes \<open>xs\<close> and then a NUL.\<close>

fun cstring :: "mem \<Rightarrow> u32 \<Rightarrow> byte list \<Rightarrow> bool" where
  "cstring m a [] = (m a = 0)"
| "cstring m a (x # xs) = (m a = x \<and> x \<noteq> 0 \<and> cstring m (a + 1) xs)"

text \<open>\<open>put m a bs\<close> writes the bytes \<open>bs\<close> from address \<open>a\<close> on.\<close>

fun put :: "mem \<Rightarrow> u32 \<Rightarrow> byte list \<Rightarrow> mem" where
  "put m a [] = m"
| "put m a (b # bs) = put (m(a := b)) (a + 1) bs"

lemma put_outside: "\<not> in_range a s (length bs) \<Longrightarrow> put m s bs a = m a"
  by (induction bs arbitrary: m s) (auto simp: in_range_Suc)

lemma put_stosb: "stosb m s v n = put m s (replicate n v)"
  by (induction n arbitrary: m s) auto

lemma in_range_start: "n \<le> 4294967295 \<Longrightarrow> \<not> in_range a (a + 1) n"
  by (simp add: in_range_def unsigned_minus_1_eq_mask mask_eq_exp_minus_1)

lemma cstring_put:
  "0 \<notin> set xs \<Longrightarrow> length xs + length zs < 4294967295 \<Longrightarrow> cstring (put m s (xs @ 0 # zs)) s xs"
proof (induction xs arbitrary: m s)
  case Nil
  then show ?case by (simp add: put_outside in_range_start)
next
  case (Cons x xs)
  then show ?case by (simp add: put_outside in_range_start)
qed

lemma cstring_fun_upd:
  "(\<And>j. j \<le> length xs \<Longrightarrow> t + of_nat j \<noteq> a) \<Longrightarrow> cstring (m(a := v)) t xs = cstring m t xs"
proof (induction xs arbitrary: t)
  case Nil
  then show ?case by force
next
  case (Cons x xs)
  have "t \<noteq> a" using Cons.prems [of 0] by simp
  moreover have "cstring (m(a := v)) (t + 1) xs = cstring m (t + 1) xs"
  proof (rule Cons.IH)
    show "t + 1 + of_nat j \<noteq> a" if "j \<le> length xs" for j
      using Cons.prems [of "Suc j"] that by (simp add: add.assoc)
  qed
  ultimately show ?case by (simp del: fun_upd_apply add: fun_upd_other)
qed

lemma strlen_loop_cstring: "cstring m (s + of_nat n) xs \<Longrightarrow> strlen_loop m s n = Some (n + length xs)"
proof (induction xs arbitrary: n)
  case Nil
  then show ?case by (simp add: strlen_loop.simps)
next
  case (Cons x xs)
  then have "cstring m (s + of_nat (Suc n)) xs" by (simp add: ac_simps)
  then have "strlen_loop m s (Suc n) = Some (Suc n + length xs)" by (rule Cons.IH)
  with Cons.prems show ?case by (simp add: strlen_loop.simps [of m s n])
qed

lemma strlen_cstring: "cstring m s xs \<Longrightarrow> strlen m s = Some (length xs)"
  using strlen_loop_cstring [of m s 0 xs] by (simp add: strlen_def)

lemma strncmp_zero_iff:
  "cstring m p xs \<Longrightarrow> cstring m q ys \<Longrightarrow> strncmp m p q n = 0 \<longleftrightarrow> take n xs = take n ys"
proof (induction m p q n arbitrary: xs ys rule: strncmp.induct)
  case (2 m p q n)
  then show ?case
    by (cases xs; cases ys) (auto simp: word_uint_eq_iff)
qed simp

lemma strncmp_less_iff:
  "cstring m p xs \<Longrightarrow> cstring m q ys \<Longrightarrow>
   strncmp m p q n < 0 \<longleftrightarrow> ord_class.lexordp (take n xs) (take n ys)"
proof (induction m p q n arbitrary: xs ys rule: strncmp.induct)
  case (2 m p q n)
  then show ?case
    by (cases xs; cases ys) (auto simp: word_less_def uint_0_iff order_less_le word_uint_eq_iff [symmetric])
qed simp

definition apart :: "u32 \<Rightarrow> nat \<Rightarrow> u32 \<Rightarrow> nat \<Rightarrow> bool" where
  "apart t k s n \<longleftrightarrow> (\<forall>j \<le> k. \<not> in_range (t + of_nat j) s n)"

lemma apart_step: "apart t (Suc k) s (Suc n) \<Longrightarrow> apart (t + 1) k (s + 1) n"
  unfolding apart_def
proof (intro allI impI)
  fix j assume "\<forall>j \<le> Suc k. \<not> in_range (t + of_nat j) s (Suc n)" "j \<le> k"
  then have "\<not> in_range (t + of_nat (Suc j)) s (Suc n)" by auto
  then show "\<not> in_range (t + 1 + of_nat j) (s + 1) n" by (simp add: in_range_Suc add.assoc)
qed

lemma apart_cstring:
  "apart t (length xs) s (Suc n) \<Longrightarrow> cstring (m(s := v)) t xs = cstring m t xs"
  by (rule cstring_fun_upd) (auto simp: apart_def in_range_Suc)

lemma strncpy_loop_put:
  "cstring m t xs \<Longrightarrow> apart t (length xs) s n \<Longrightarrow>
   strncpy_loop m s t n = put m s (take n (xs @ replicate n 0))"
proof (induction m s t n arbitrary: xs rule: strncpy_loop.induct)
  case (2 m s t n)
  show ?case
  proof (cases xs)
    case Nil
    with 2 show ?thesis by (simp add: put_stosb)
  next
    case (Cons x ys)
    have c: "cstring (m(s := m t)) (t + 1) ys"
      using 2 Cons apart_cstring [of t xs s n m "m t"] by simp
    have x: "m t = x" "x \<noteq> 0" using 2 Cons by auto
    have "apart (t + 1) (length ys) (s + 1) n" using 2 Cons by (simp add: apart_step)
    with x c have "strncpy_loop (m(s := m t)) (s + 1) (t + 1) n
        = put (m(s := m t)) (s + 1) (take n (ys @ replicate n 0))"
      by (intro "2.IH") (simp_all add: fun_upd_def)
    moreover have "take n (ys @ replicate (Suc n) 0) = take n (ys @ replicate n (0::byte))"
      by (simp add: take_replicate min_def del: replicate_Suc)
    ultimately show ?thesis using Cons x by (simp del: replicate_Suc)
  qed
qed simp

lemma safestrcpy_loop_put:
  "cstring m t xs \<Longrightarrow> apart t (length xs) s n \<Longrightarrow>
   safestrcpy_loop m s t n = put m s (if length xs < n then xs @ [0, 0] else take n xs @ [0])"
proof (induction m s t n arbitrary: xs rule: safestrcpy_loop.induct)
  case (2 m s t n)
  show ?case
  proof (cases xs)
    case Nil
    with 2 show ?thesis by simp
  next
    case (Cons x ys)
    have c: "cstring (m(s := m t)) (t + 1) ys"
      using 2 Cons apart_cstring [of t xs s n m "m t"] by simp
    have x: "m t = x" "x \<noteq> 0" using 2 Cons by auto
    have "apart (t + 1) (length ys) (s + 1) n" using 2 Cons by (simp add: apart_step)
    with x c have "safestrcpy_loop (m(s := m t)) (s + 1) (t + 1) n
        = put (m(s := m t)) (s + 1) (if length ys < n then ys @ [0, 0] else take n ys @ [0])"
      by (intro "2.IH") (simp_all add: fun_upd_def)
    then show ?thesis using Cons x by simp
  qed
qed simp

lemma ld32_st32 [simp]: "ld32 (st32 m a v) a = v"
proof (rule bit_word_eqI)
  fix n assume n: "n < LENGTH(32)"
  consider "n < 8" | "8 \<le> n" "n < 16" | "16 \<le> n" "n < 24" | "24 \<le> n" by linarith
  then show "bit (ld32 (st32 m a v) a) n = bit v n"
    using n by cases (simp_all add: ld32_def st32_def bit_simps, arith+)
qed

lemma ld32_cong: "(\<And>i. in_range i a 4 \<Longrightarrow> m i = m' i) \<Longrightarrow> ld32 m a = ld32 m' a"
  using in_range_4 [of _ a 0] by (simp add: ld32_def)

lemma st32_other: "\<not> in_range b a 4 \<Longrightarrow> st32 m a v b = m b"
  using in_range_4 [of b a 0] by (simp add: st32_def)

lemma umemmove_memmove:
  assumes "0 \<le> n" "n < 2 ^ 31" "dst \<le> src \<or> src + word_of_int n \<le> dst"
  shows "umemmove m dst src n = memmove m dst src (word_of_int n)"
proof -
  have "unat (word_of_int n :: u32) = nat n"
    using assms(1,2) by (simp add: unsigned_of_int take_bit_int_eq_self)
  moreover have "\<not> (src < dst \<and> dst < src + word_of_int n)" using assms(3) by (metis not_le)
  ultimately show ?thesis by (simp add: umemmove_def memmove_def, blast)
qed

section \<open>Properties\<close>

text \<open>(C9) \<^verbatim>\<open>memset\<close> writes the low byte of \<open>c\<close> to exactly the \<open>n\<close> bytes from
  \<open>dst\<close> on; the word-sized fast path for aligned ranges and the byte path agree.\<close>

theorem memset_correct: "memset m dst c n = fill m dst (ucast c) (unat n)"
  by (rule memset_fill)

text \<open>(C10) \<^verbatim>\<open>memmove\<close> copies \<open>n\<close> bytes even if the two ranges overlap in either
  direction: every byte of the destination gets the byte the source had before the call, and no
  other byte changes. The ranges must not run past the end of the address space.\<close>

theorem memmove_correct:
  assumes "unat src + unat n < 2 ^ 32" "unat dst + unat n \<le> 2 ^ 32"
  shows "memmove m dst src n = copied m dst src (unat n)"
  using assms by (rule memmove_copied)

theorem memmove_correct_witness:
  "memmove (\<lambda>a. ucast a) 12 10 5 = copied (\<lambda>a. ucast a) 12 10 5 \<and>
   copied (\<lambda>a. ucast a) 12 10 5 14 = 12"
  using memmove_correct [of 10 5 12 "\<lambda>a. ucast a"] by (simp add: copied_def in_range_def)

text \<open>(C11) \<^verbatim>\<open>strncmp\<close> on two strings compares their first \<open>n\<close> bytes: it returns 0 exactly
  when these are equal and a negative number exactly when the first is lexicographically
  smaller.\<close>

theorem strncmp_correct:
  assumes "cstring m p xs" "cstring m q ys"
  shows "(strncmp m p q n = 0 \<longleftrightarrow> take n xs = take n ys) \<and>
    (strncmp m p q n < 0 \<longleftrightarrow> ord_class.lexordp (take n xs) (take n ys))"
  using assms by (simp add: strncmp_zero_iff strncmp_less_iff)

theorem strncmp_correct_witness:
  "let m = put (put (\<lambda>_. 7) 100 [1, 2, 0]) 200 [1, 3, 0] in
   (strncmp m 100 200 14 = 0 \<longleftrightarrow> take 14 [1, 2::byte] = take 14 [1, 3]) \<and>
   (strncmp m 100 200 14 < 0 \<longleftrightarrow> ord_class.lexordp (take 14 [1, 2::byte]) (take 14 [1, 3]))"
  unfolding Let_def by (rule strncmp_correct) simp_all

text \<open>(C12) \<^verbatim>\<open>safestrcpy\<close> always leaves a NUL-terminated string: the first \<open>n - 1\<close> bytes
  of the source, or all of it when it is shorter, and it writes nothing outside the \<open>n\<close> bytes
  of the destination.\<close>

theorem safestrcpy_correct:
  assumes "cstring m t xs" "apart t (length xs) s (nat n)" "0 < n" "n < 2 ^ 31" "length xs < 2 ^ 31"
  shows "cstring (safestrcpy m s t n) s (take (nat n - 1) xs) \<and>
    (\<forall>a. \<not> in_range a s (nat n) \<longrightarrow> safestrcpy m s t n a = m a)"
proof -
  define k where "k = nat n - 1"
  have n: "nat n = Suc k" using assms(3) by (simp add: k_def)
  have nz: "0 \<notin> set xs" using assms(1) by (induction m t xs rule: cstring.induct) auto
  have "apart t (length xs) s k" using assms(2) n by (auto simp: apart_def in_range_def)
  with assms(1) have eq: "safestrcpy m s t n = put m s (if length xs < k then xs @ [0, 0] else take k xs @ [0])"
    using assms(3) by (simp add: safestrcpy_def k_def safestrcpy_loop_put)
  show ?thesis
  proof (cases "length xs < k")
    case True
    then have "length (xs @ [0, 0]) \<le> nat n" by (simp add: n)
    then have "\<forall>a. \<not> in_range a s (nat n) \<longrightarrow> put m s (xs @ [0, 0]) a = m a"
      by (auto simp: in_range_def put_outside)
    moreover have "cstring (put m s (xs @ [0, 0])) s xs"
      using nz assms(5) by (simp add: cstring_put)
    ultimately show ?thesis using True eq by (simp add: k_def)
  next
    case False
    then have "\<forall>a. \<not> in_range a s (nat n) \<longrightarrow> put m s (take k xs @ [0]) a = m a"
      by (auto simp: in_range_def put_outside n)
    moreover have "cstring (put m s (take k xs @ [0])) s (take k xs)"
      using nz assms(5) set_take_subset [of k xs] by (intro cstring_put) auto
    ultimately show ?thesis using False eq by (simp add: k_def)
  qed
qed

theorem safestrcpy_correct_witness:
  "let m = put (\<lambda>_. 7) 100 [1, 2, 3, 4, 0] in
   cstring (safestrcpy m 500 100 4) 500 (take (nat 4 - 1) [1, 2, 3, 4]) \<and>
   (\<forall>a. \<not> in_range a 500 (nat 4) \<longrightarrow> safestrcpy m 500 100 4 a = m a)"
  unfolding Let_def
  by (rule safestrcpy_correct) (simp_all add: apart_def in_range_def less_Suc_eq_le [symmetric] less_Suc_eq)

end
