(* ===== verification/Kalloc.thy ===== *)
theory Kalloc
  imports Devices Kstring
begin

text \<open>
  The physical page allocator (\<^verbatim>\<open>kalloc.c\<close>) over byte memory. The free list is the chain
  of \<^verbatim>\<open>struct run\<close> words that the code keeps inside the free pages. The allocator is
  proved to implement a list of distinct free pages, and the interface that its clients rely on
  is the locale \<open>page_allocator\<close>.
\<close>

section \<open>Memory layout\<close>

definition EXTMEM :: u32 where "EXTMEM = 0x100000"
definition PHYSTOP :: u32 where "PHYSTOP = 0xE000000"
definition DEVSPACE :: u32 where "DEVSPACE = 0xFE000000"
definition KERNBASE :: u32 where "KERNBASE = 0x80000000"
definition KERNLINK :: u32 where "KERNLINK = KERNBASE + EXTMEM"
definition PGSIZE :: u32 where "PGSIZE = 4096"

lemmas layout_defs [simp] = EXTMEM_def PHYSTOP_def DEVSPACE_def KERNBASE_def KERNLINK_def PGSIZE_def

definition V2P :: "u32 \<Rightarrow> u32" where "V2P a = a - KERNBASE"
definition P2V :: "u32 \<Rightarrow> u32" where "P2V a = a + KERNBASE"

definition PGROUNDUP :: "u32 \<Rightarrow> u32" where "PGROUNDUP a = (a + PGSIZE - 1) AND NOT (PGSIZE - 1)"
definition PGROUNDDOWN :: "u32 \<Rightarrow> u32" where "PGROUNDDOWN a = a AND NOT (PGSIZE - 1)"

lemma V2P_P2V [simp]: "V2P (P2V a) = a" and P2V_V2P [simp]: "P2V (V2P a) = a"
  by (simp_all add: V2P_def P2V_def)

section \<open>State\<close>

text \<open>
  \<open>ram\<close> is the memory as the kernel addresses it through its direct map, \<open>kend\<close> and
  \<open>kdata\<close> are the linker symbols \<^verbatim>\<open>end\<close> and \<^verbatim>\<open>data\<close>, and
  \<open>kpgdir\<close> is the page directory of the scheduler.
\<close>

record mstate = dstate +
  ram :: mem
  freelist :: u32
  use_lock :: bool
  kend :: u32
  kdata :: u32
  kpgdir :: u32

section \<open>Operations\<close>

definition kfree :: "u32 \<Rightarrow> ('z mstate_scheme, unit) routine" where
  "kfree v =
     bnd (gets kend) (\<lambda>e.
     if v mod PGSIZE \<noteq> 0 \<or> v < e \<or> PHYSTOP \<le> V2P v then panic ''kfree''
     else
       seq (modify (\<lambda>s. s\<lparr>ram := memset (ram s) v 1 PGSIZE\<rparr>)) (
       bnd (gets use_lock) (\<lambda>ul.
       seq (doif ul (acquire KmemLock)) (
       seq (modify (\<lambda>s. s\<lparr>ram := st32 (ram s) v (freelist s)\<rparr>)) (
       seq (modify (\<lambda>s. s\<lparr>freelist := v\<rparr>)) (
       bnd (gets use_lock) (\<lambda>ul.
       doif ul (release KmemLock))))))))"

definition kalloc :: "('z mstate_scheme, u32) routine" where
  "kalloc =
     bnd (gets use_lock) (\<lambda>ul.
     seq (doif ul (acquire KmemLock)) (
     bnd (gets freelist) (\<lambda>r.
     seq (doif (r \<noteq> 0) (modify (\<lambda>s. s\<lparr>freelist := ld32 (ram s) r\<rparr>))) (
     bnd (gets use_lock) (\<lambda>ul.
     seq (doif ul (release KmemLock)) (ret r))))))"

text \<open>The loop of \<^verbatim>\<open>freerange\<close> runs at most once per page of the address space.\<close>

definition freerange :: "u32 \<Rightarrow> u32 \<Rightarrow> ('z mstate_scheme, unit) routine" where
  "freerange vstart vend =
     loop (2 ^ 20 + 1) (PGROUNDUP vstart) (\<lambda>p.
       if p + PGSIZE \<le> vend then seq (kfree p) (ret (Inl (p + PGSIZE))) else ret (Inr ()))"

definition kinit1 :: "u32 \<Rightarrow> u32 \<Rightarrow> ('z mstate_scheme, unit) routine" where
  "kinit1 vstart vend =
     seq (initlock KmemLock ''kmem'') (
     seq (modify (\<lambda>s. s\<lparr>use_lock := False\<rparr>))
       (freerange vstart vend))"

definition kinit2 :: "u32 \<Rightarrow> u32 \<Rightarrow> ('z mstate_scheme, unit) routine" where
  "kinit2 vstart vend =
     seq (freerange vstart vend)
       (modify (\<lambda>s. s\<lparr>use_lock := True\<rparr>))"

section \<open>Pages\<close>

text \<open>Two pages that share a byte are the same page.\<close>

lemma page_base:
  assumes "x mod 4096 = (0::u32)" "in_range a x 4096"
  shows "unat x = unat a div 4096 * 4096"
proof -
  have "unat x mod 4096 = 0"
    using arg_cong [OF assms(1), of unat] by (simp add: unat_mod_distrib)
  then obtain q where x: "unat x = 4096 * q" by (auto simp: mod_eq_0_iff_dvd elim: dvdE)
  let ?k = "unat (a - x)"
  have k: "?k < 4096" using assms(2) by (simp add: in_range_def)
  have "q < 1048576" using x unat_u32_less [of x] by simp
  with x k have "unat x + ?k < 2 ^ LENGTH(32)" by simp
  then have "unat (x + (a - x)) = unat x + ?k" by (rule unat_add_lem [THEN iffD1])
  then have "unat a = 4096 * q + ?k" using x by simp
  with x k show ?thesis by simp
qed

lemma pages_disjoint:
  "x mod 4096 = 0 \<Longrightarrow> y mod 4096 = 0 \<Longrightarrow> in_range a x 4096 \<Longrightarrow> in_range a y 4096 \<Longrightarrow> x = (y::u32)"
  by (metis page_base word_unat_eq_iff)

lemma in_range_mono: "in_range a x n \<Longrightarrow> n \<le> k \<Longrightarrow> in_range a x k"
  by (simp add: in_range_def)

definition page_ok :: "'z mstate_scheme \<Rightarrow> u32 \<Rightarrow> bool" where
  "page_ok s v \<longleftrightarrow> v mod PGSIZE = 0 \<and> kend s \<le> v \<and> V2P v < PHYSTOP"

lemma page_ok_nonzero: "page_ok s v \<Longrightarrow> v \<noteq> 0"
  by (auto simp: page_ok_def V2P_def)

section \<open>The free list\<close>

fun run_list :: "mem \<Rightarrow> u32 \<Rightarrow> u32 list \<Rightarrow> bool" where
  "run_list m r [] = (r = 0)"
| "run_list m r (x # xs) = (r = x \<and> r \<noteq> 0 \<and> run_list m (ld32 m x) xs)"

definition free_pages :: "'z mstate_scheme \<Rightarrow> u32 list \<Rightarrow> bool" where
  "free_pages s xs \<longleftrightarrow> run_list (ram s) (freelist s) xs \<and> distinct xs \<and> (\<forall>x \<in> set xs. page_ok s x)"

lemma run_list_cong: "(\<And>x. x \<in> set xs \<Longrightarrow> ld32 m x = ld32 m' x) \<Longrightarrow> run_list m r xs = run_list m' r xs"
  by (induction xs arbitrary: r) auto

lemma run_list_unique: "run_list m r xs \<Longrightarrow> run_list m r ys \<Longrightarrow> xs = ys"
proof (induction xs arbitrary: r ys)
  case Nil
  then show ?case by (cases ys) auto
next
  case (Cons x xs)
  then show ?case by (cases ys) auto
qed

text \<open>Writing inside one page leaves the links in the others alone.\<close>

lemma run_list_other_page:
  assumes "\<And>a. \<not> in_range a v 4096 \<Longrightarrow> m' a = m a" "v mod 4096 = 0" "v \<notin> set xs"
    "\<forall>x \<in> set xs. x mod 4096 = 0"
  shows "run_list m' r xs = run_list m r xs"
proof (rule run_list_cong, rule ld32_cong)
  fix x i assume x: "x \<in> set xs" and "in_range i x 4"
  then have "in_range i x 4096" by (simp add: in_range_def)
  with x assms(2-4) have "\<not> in_range i v 4096" by (metis pages_disjoint)
  then show "m' i = m i" by (rule assms(1))
qed

lemma free_pages_cong:
  "freelist t = freelist s \<Longrightarrow> ram t = ram s \<Longrightarrow> kend t = kend s \<Longrightarrow> free_pages t xs = free_pages s xs"
  by (simp add: free_pages_def page_ok_def)

section \<open>Closed forms\<close>

text \<open>
  The allocator can be called when its lock is free. The lock leaves the nesting state of the CPU
  as \<open>touched\<close> says, when it is in use.
\<close>

definition kmem_ready :: "'z mstate_scheme \<Rightarrow> nat \<Rightarrow> bool" where
  "kmem_ready s c \<longleftrightarrow> cpu_ok s c \<and> lock_free s KmemLock"

definition kmem_touched :: "nat \<Rightarrow> 'z mstate_scheme \<Rightarrow> 'z mstate_scheme" where
  "kmem_touched c s = (if use_lock s then touched c s else s)"

lemma kmem_fields [simp]:
  "freelist (grabbed l c s) = freelist s" "use_lock (grabbed l c s) = use_lock s"
  "ram (grabbed l c s) = ram s" "kend (grabbed l c s) = kend s"
  "freelist (touched c s) = freelist s" "use_lock (touched c s) = use_lock s"
  "ram (touched c s) = ram s" "kend (touched c s) = kend s"
  by (simp_all add: locked_defs touched_def)

lemma same_core_kmem [simp]:
  "same_core (s\<lparr>freelist := v\<rparr>) t = same_core s t" "same_core (s\<lparr>ram := m\<rparr>) t = same_core s t"
  by (simp_all add: same_core_def)

lemma dropped_kmem:
  "dropped l c (s\<lparr>freelist := v\<rparr>) = (dropped l c s)\<lparr>freelist := v\<rparr>"
  "dropped l c (s\<lparr>ram := m\<rparr>) = (dropped l c s)\<lparr>ram := m\<rparr>"
  by (simp_all add: locked_defs)

lemma grabbed_ram: "grabbed l c (s\<lparr>ram := m\<rparr>) = (grabbed l c s)\<lparr>ram := m\<rparr>"
  by (simp add: locked_defs readeflags_IF_def)

lemma kalloc_eq:
  assumes "kmem_ready s c"
  shows "kalloc s = Done (freelist s)
    ((kmem_touched c s)\<lparr>freelist := if freelist s = 0 then 0 else ld32 (ram s) (freelist s)\<rparr>)"
proof -
  have r: "cpu_ok s c" "lock_free s KmemLock" using assms by (simp_all add: kmem_ready_def)
  then show ?thesis
    by (simp add: kalloc_def kmem_touched_def acquire_lock_free release_section [OF r(1)]
        dropped_kmem dropped_grabbed_free)
qed

lemma kfree_eq:
  assumes "kmem_ready s c" "page_ok s v"
  shows "kfree v s = Done () ((kmem_touched c s)\<lparr>ram := st32 (memset (ram s) v 1 PGSIZE) v (freelist s), freelist := v\<rparr>)"
proof -
  let ?s = "s\<lparr>ram := memset (ram s) v 1 PGSIZE\<rparr>"
  have r: "cpu_ok s c" "lock_free s KmemLock" using assms by (simp_all add: kmem_ready_def)
  then have r': "cpu_ok ?s c" "lock_free ?s KmemLock"
    using same_core_cpu_ok [of ?s s c] same_core_lock_free [of ?s s] by simp_all
  show ?thesis
    using r r' assms(2)
    by (simp add: kfree_def page_ok_def not_less not_le kmem_touched_def acquire_lock_free
        release_section [OF r(1)] dropped_kmem grabbed_ram dropped_grabbed_free)
qed

lemma kfree_panics: "\<not> page_ok s v \<Longrightarrow> kfree v s = Panics ''kfree''"
  by (auto simp: kfree_def page_ok_def not_less not_le)

lemma kmem_ready_cong:
  "cpu_ok t c = cpu_ok s c \<Longrightarrow> locks t KmemLock = locks s KmemLock \<Longrightarrow> kmem_ready t c = kmem_ready s c"
  by (simp add: kmem_ready_def lock_free_def)

lemma kmem_touched_ready [simp]: "kmem_ready (kmem_touched c s) c = kmem_ready s c"
  by (cases "use_lock s") (auto simp: kmem_ready_def kmem_touched_def lock_free_def)

lemma kmem_touched_fields [simp]:
  "freelist (kmem_touched c s) = freelist s" "use_lock (kmem_touched c s) = use_lock s"
  "ram (kmem_touched c s) = ram s" "kend (kmem_touched c s) = kend s"
  by (simp_all add: kmem_touched_def)

lemma kmem_ready_upd [simp]:
  "kmem_ready (s\<lparr>freelist := v\<rparr>) c = kmem_ready s c" "kmem_ready (s\<lparr>ram := m\<rparr>) c = kmem_ready s c"
proof -
  show "kmem_ready (s\<lparr>freelist := v\<rparr>) c = kmem_ready s c"
    by (rule kmem_ready_cong) (simp_all add: same_core_cpu_ok [of "s\<lparr>freelist := v\<rparr>" s])
  show "kmem_ready (s\<lparr>ram := m\<rparr>) c = kmem_ready s c"
    by (rule kmem_ready_cong) (simp_all add: same_core_cpu_ok [of "s\<lparr>ram := m\<rparr>" s])
qed

section \<open>The allocator as a list of free pages\<close>

text \<open>
  What a client of a page allocator relies on: \<open>pages\<close> is the abstract state, \<open>ready\<close> the
  condition for calling, \<open>valid\<close> the pages it accepts.
\<close>

locale page_allocator =
  fixes alloc :: "('s, u32) routine" and free :: "u32 \<Rightarrow> ('s, unit) routine"
    and pages :: "'s \<Rightarrow> u32 list \<Rightarrow> bool" and ready :: "'s \<Rightarrow> bool" and valid :: "'s \<Rightarrow> u32 \<Rightarrow> bool"
  assumes alloc_law: "ready s \<Longrightarrow> pages s xs \<Longrightarrow>
      run_ok (alloc s) (\<lambda>r t. ready t \<and> pages t (tl xs) \<and> r = (case xs of [] \<Rightarrow> 0 | x # _ \<Rightarrow> x) \<and>
        (\<forall>v. valid t v = valid s v))"
    and free_law: "ready s \<Longrightarrow> pages s xs \<Longrightarrow> valid s v \<Longrightarrow> v \<notin> set xs \<Longrightarrow>
      run_ok (free v s) (\<lambda>_ t. ready t \<and> pages t (v # xs) \<and> (\<forall>w. valid t w = valid s w))"
    and pages_distinct: "pages s xs \<Longrightarrow> distinct xs \<and> (\<forall>x \<in> set xs. valid s x \<and> x \<noteq> 0)"
begin

primrec alloc_many :: "nat \<Rightarrow> ('s, u32 list) routine" where
  "alloc_many 0 = ret []"
| "alloc_many (Suc n) = bnd alloc (\<lambda>r. bnd (alloc_many n) (\<lambda>rs. ret (r # rs)))"

text \<open>Allocations in a row hand out distinct pages, as many as there are.\<close>

lemma alloc_many:
  "ready s \<Longrightarrow> pages s xs \<Longrightarrow> n \<le> length xs \<Longrightarrow>
   run_ok (alloc_many n s) (\<lambda>rs t. ready t \<and> rs = take n xs \<and> pages t (drop n xs))"
proof (induction n arbitrary: s xs)
  case (Suc n)
  then obtain x ys where xs: "xs = x # ys" by (cases xs) auto
  from alloc_law [OF Suc.prems(1,2)] obtain t where
    t: "alloc s = Done x t" "ready t" "pages t ys" by (auto simp: run_ok_iff xs)
  with Suc.IH [of t ys] Suc.prems(3) show ?case by (auto simp: run_ok_iff xs)
qed simp

text \<open>A page that is allocated and freed goes back to the head of the list.\<close>

lemma alloc_free:
  assumes "ready s" "pages s (x # xs)"
  shows "run_ok (bnd alloc free s) (\<lambda>_ t. ready t \<and> pages t (x # xs))"
proof -
  from alloc_law [OF assms] obtain t where t: "alloc s = Done x t" "ready t" "pages t xs"
      "\<forall>v. valid t v = valid s v" by (auto simp: run_ok_iff)
  moreover have "valid s x" "x \<notin> set xs" using pages_distinct [OF assms(2)] by auto
  ultimately show ?thesis using free_law [of t xs x] by (auto simp: run_ok_iff)
qed

end

lemma page_ok_cong: "kend t = kend s \<Longrightarrow> page_ok t v = page_ok s v"
  by (simp add: page_ok_def)

lemma memset_junk:
  "v mod 4096 = 0 \<Longrightarrow> \<not> in_range a v 4096 \<Longrightarrow> st32 (memset m v 1 4096) v w a = m a"
  using in_range_mono [of a v 4 4096] by (subst st32_other) (auto simp: memset_fill fill_def)

lemma kalloc_law:
  assumes "kmem_ready s c" "free_pages s xs"
  shows "run_ok (kalloc s) (\<lambda>r t. kmem_ready t c \<and> free_pages t (tl xs) \<and>
    r = (case xs of [] \<Rightarrow> 0 | x # _ \<Rightarrow> x) \<and> (\<forall>v. page_ok t v = page_ok s v))"
  using assms
  by (cases xs) (auto simp: kalloc_eq free_pages_def page_ok_def)

lemma kfree_law:
  assumes "kmem_ready s c" "free_pages s xs" "page_ok s v" "v \<notin> set xs"
  shows "run_ok (kfree v s) (\<lambda>_ t. kmem_ready t c \<and> free_pages t (v # xs) \<and>
    (\<forall>w. page_ok t w = page_ok s w))"
proof -
  let ?m = "st32 (memset (ram s) v 1 4096) v (freelist s)"
  have al: "v mod 4096 = 0" "\<forall>x \<in> set xs. x mod 4096 = 0"
    using assms(2,3) by (auto simp: free_pages_def page_ok_def)
  have "run_list ?m (freelist s) xs = run_list (ram s) (freelist s) xs"
    using memset_junk al assms(4) by (intro run_list_other_page) auto
  with assms show ?thesis
    using page_ok_nonzero [OF assms(3)] by (auto simp: kfree_eq free_pages_def page_ok_def)
qed

interpretation ka: page_allocator kalloc kfree free_pages "\<lambda>s. kmem_ready s c" page_ok
proof
  show "distinct xs \<and> (\<forall>x \<in> set xs. page_ok s x \<and> x \<noteq> 0)" if "free_pages s xs" for s :: "'z mstate_scheme" and xs
    using that page_ok_nonzero by (auto simp: free_pages_def)
qed (rule kalloc_law kfree_law; assumption)+

section \<open>Initialisation\<close>

text \<open>\<open>page_seq p n\<close>: the \<open>n\<close> pages from \<open>p\<close> on.\<close>

primrec page_seq :: "u32 \<Rightarrow> nat \<Rightarrow> u32 list" where
  "page_seq p 0 = []"
| "page_seq p (Suc n) = p # page_seq (p + PGSIZE) n"

lemma freerange_loop:
  fixes s :: "'z mstate_scheme"
  assumes "kmem_ready s c" "free_pages s xs" "\<forall>v \<in> set (page_seq p n). page_ok s v"
    "distinct (page_seq p n @ xs)" "unat p + 4096 * n \<le> unat vend" "unat vend < unat p + 4096 * Suc n"
    "unat vend \<le> 0x8E000000"
  shows "run_ok (loop (n + Suc k) p (\<lambda>p. if p + PGSIZE \<le> vend then seq (kfree p) (ret (Inl (p + PGSIZE)))
       else ret (Inr ())) s) (\<lambda>_ t. kmem_ready t c \<and> free_pages t (rev (page_seq p n) @ xs))"
  using assms
proof (induction n arbitrary: p s xs)
  case 0
  then have "unat (p + 4096) = unat p + 4096" by (simp add: unat_word_ariths)
  with 0 have "\<not> p + PGSIZE \<le> vend" by (simp add: word_le_nat_alt)
  with 0 show ?case by simp
next
  case (Suc n)
  then have "unat (p + 4096) = unat p + 4096" by (simp add: unat_word_ariths)
  with Suc.prems have up: "p + PGSIZE \<le> vend" "unat (p + PGSIZE) = unat p + 4096"
    by (simp_all add: word_le_nat_alt)
  from kfree_law [OF Suc.prems(1,2), of p] Suc.prems(3,4) obtain t where
    t: "kfree p s = Done () t" "kmem_ready t c" "free_pages t (p # xs)" "\<And>w. page_ok t w = page_ok s w"
    by (auto simp: run_ok_iff)
  have "run_ok (loop (n + Suc k) (p + PGSIZE) (\<lambda>p. if p + PGSIZE \<le> vend
      then seq (kfree p) (ret (Inl (p + PGSIZE))) else ret (Inr ())) t)
      (\<lambda>_ t. kmem_ready t c \<and> free_pages t (rev (page_seq (p + PGSIZE) n) @ p # xs))"
    by (rule Suc.IH) (use t(2-4) Suc.prems up(2) in auto)
  with t(1) up(1) show ?case by simp
qed

section \<open>Properties\<close>

text \<open>A machine with two free pages, for the witnesses.\<close>

definition demo_mstate :: mstate where
  "demo_mstate = dstate.extend demo_dstate (mstate.fields (st32 (\<lambda>_. 0) 0x80401000 0x80400000)
     0x80401000 True 0x80400000 0x80108000 0x803FF000)"

lemma demo_mstate_ready: "kmem_ready demo_mstate 0"
  by (simp add: kmem_ready_def cpu_ok_def this_cpu_def demo_mstate_def demo_dstate_def demo_state_def demo_cpu_def
      lapicid_def readeflags_IF_def lock_free_def kstate.defs dstate.defs mstate.defs)

lemma demo_mstate_pages: "free_pages demo_mstate [0x80401000, 0x80400000]"
proof -
  have "ld32 (st32 (\<lambda>_. 0) 0x80401000 0x80400000) 0x80400000 = 0"
    by (simp add: ld32_def st32_def)
  then show ?thesis
    by (simp add: free_pages_def page_ok_def demo_mstate_def kstate.defs dstate.defs mstate.defs V2P_def)
qed

text \<open>(C16) Allocations in a row return the pages at the front of the free list, so no page is handed
  out twice before it is freed.\<close>

theorem kalloc_distinct:
  assumes "kmem_ready s c" "free_pages s xs" "n \<le> length xs"
  shows "run_ok (ka.alloc_many n s) (\<lambda>rs t. rs = take n xs \<and> distinct rs \<and> free_pages t (drop n xs))"
  using ka.alloc_many [OF assms] ka.pages_distinct [OF assms(2)] by (auto simp: run_ok_iff)

theorem kalloc_distinct_witness:
  "run_ok (ka.alloc_many 2 demo_mstate) (\<lambda>rs t. rs = take 2 [0x80401000, 0x80400000] \<and>
     distinct rs \<and> free_pages t (drop 2 [0x80401000, 0x80400000]))"
  by (rule kalloc_distinct [OF demo_mstate_ready demo_mstate_pages]) simp

text \<open>(C17) The allocator implements a stack of distinct free pages over the links it stores in the
  pages themselves: \<^verbatim>\<open>kalloc\<close> pops the stack and returns 0 exactly when it is empty, and
  \<^verbatim>\<open>kfree\<close> of a page that is not free pushes it, although it overwrites the page.\<close>

theorem kalloc_kfree_refine:
  assumes "kmem_ready s c" "free_pages s xs" "page_ok s v" "v \<notin> set xs"
  shows "run_ok (kalloc s) (\<lambda>r t. free_pages t (tl xs) \<and> r = (if xs = [] then 0 else hd xs) \<and>
           (r = 0 \<longleftrightarrow> xs = [])) \<and>
         run_ok (kfree v s) (\<lambda>_ t. free_pages t (v # xs))"
  using kalloc_law [OF assms(1,2)] kfree_law [OF assms] page_ok_nonzero assms(2)
  by (cases xs) (auto simp: run_ok_iff free_pages_def)

theorem kalloc_kfree_refine_witness:
  "run_ok (kalloc demo_mstate) (\<lambda>r t. free_pages t (tl [0x80401000, 0x80400000]) \<and>
      r = (if [0x80401000, 0x80400000] = ([] :: u32 list) then 0 else hd [0x80401000, 0x80400000]) \<and>
      (r = 0 \<longleftrightarrow> [0x80401000, 0x80400000] = ([] :: u32 list))) \<and>
   run_ok (kfree 0x80402000 demo_mstate) (\<lambda>_ t. free_pages t (0x80402000 # [0x80401000, 0x80400000]))"
  by (rule kalloc_kfree_refine [OF demo_mstate_ready demo_mstate_pages])
    (simp_all add: page_ok_def demo_mstate_def kstate.defs dstate.defs mstate.defs V2P_def)

text \<open>(C18) \<^verbatim>\<open>freerange\<close> returns and adds exactly the whole pages between the rounded-up
  start and the end of the range to the free list, the last one first.\<close>

theorem freerange_correct:
  assumes "kmem_ready s c" "free_pages s xs" "\<forall>v \<in> set (page_seq (PGROUNDUP vstart) n). page_ok s v"
    "distinct (page_seq (PGROUNDUP vstart) n @ xs)"
    "n = (unat vend - unat (PGROUNDUP vstart)) div 4096" "PGROUNDUP vstart \<le> vend"
    "vend \<le> P2V PHYSTOP"
  shows "run_ok (freerange vstart vend s)
    (\<lambda>_ t. free_pages t (rev (page_seq (PGROUNDUP vstart) n) @ xs))"
proof -
  let ?p = "unat (PGROUNDUP vstart)" and ?d = "unat vend - unat (PGROUNDUP vstart)"
  have v: "unat vend \<le> 0x8E000000" using assms(7) by (simp add: P2V_def word_le_nat_alt)
  have p: "?p \<le> unat vend" using assms(6) by (simp add: word_le_nat_alt)
  have n: "4096 * n \<le> ?d" "?d < 4096 * Suc n" using assms(5) by simp_all
  then have "n \<le> 2 ^ 20" using v by simp
  then obtain k where k: "2 ^ 20 + 1 = n + Suc k" by (metis add_Suc_right le_Suc_ex Suc_eq_plus1)
  have b: "?p + 4096 * n \<le> unat vend" "unat vend < ?p + 4096 * Suc n" using n p by linarith+
  show ?thesis unfolding freerange_def k
    by (rule run_ok_mono [OF freerange_loop [OF assms(1-4) b v]]) simp
qed

theorem freerange_correct_witness:
  "run_ok (freerange 0x80402010 0x80404000 demo_mstate)
    (\<lambda>_ t. free_pages t (rev (page_seq (PGROUNDUP 0x80402010) 1) @ [0x80401000, 0x80400000]))"
  by (rule freerange_correct [OF demo_mstate_ready demo_mstate_pages])
    (simp_all add: PGROUNDUP_def P2V_def page_ok_def demo_mstate_def kstate.defs dstate.defs mstate.defs V2P_def)

end
