(* ===== verification/Vm.thy ===== *)
theory Vm
  imports Kalloc
begin

text \<open>
  Page tables (\<^verbatim>\<open>vm.c\<close>): the walk, mapping and unmapping, the kernel half of an address
  space, growing, shrinking, copying and linking the user half, and the segment registers. Page
  directories and page tables are pages of \<open>ram\<close>, at the kernel addresses the code uses.
\<close>

section \<open>Page table entries\<close>

definition PDX :: "u32 \<Rightarrow> u32" where "PDX va = drop_bit 22 va AND 0x3FF"
definition PTX :: "u32 \<Rightarrow> u32" where "PTX va = drop_bit 12 va AND 0x3FF"
definition PGADDR :: "u32 \<Rightarrow> u32 \<Rightarrow> u32 \<Rightarrow> u32" where
  "PGADDR d t off = push_bit 22 d OR push_bit 12 t OR off"
definition NPDENTRIES :: nat where "NPDENTRIES = 1024"

definition PTE_P :: u32 where "PTE_P = 1"
definition PTE_W :: u32 where "PTE_W = 2"
definition PTE_U :: u32 where "PTE_U = 4"

definition PTE_ADDR :: "u32 \<Rightarrow> u32" where "PTE_ADDR pte = pte AND NOT 0xFFF"
definition PTE_FLAGS :: "u32 \<Rightarrow> u32" where "PTE_FLAGS pte = pte AND 0xFFF"

text \<open>Loads and stores of a word, and filling and copying, in kernel memory.\<close>

definition rd32 :: "u32 \<Rightarrow> ('z mstate_scheme, u32) routine" where
  "rd32 a = gets (\<lambda>s. ld32 (ram s) a)"

definition wr32 :: "u32 \<Rightarrow> u32 \<Rightarrow> ('z mstate_scheme, unit) routine" where
  "wr32 a v = modify (\<lambda>s. s\<lparr>ram := st32 (ram s) a v\<rparr>)"

definition kmemset :: "u32 \<Rightarrow> u32 \<Rightarrow> u32 \<Rightarrow> ('z mstate_scheme, unit) routine" where
  "kmemset a c n = modify (\<lambda>s. s\<lparr>ram := memset (ram s) a c n\<rparr>)"

definition kmemmove :: "u32 \<Rightarrow> u32 \<Rightarrow> u32 \<Rightarrow> ('z mstate_scheme, unit) routine" where
  "kmemmove d a n = modify (\<lambda>s. s\<lparr>ram := memmove (ram s) d a n\<rparr>)"

section \<open>Address translation by the hardware\<close>

text \<open>
  \<open>translate m pd va\<close> is the kernel address of the byte that the user address \<open>va\<close> means
  under the page directory \<open>pd\<close>; \<open>None\<close> is a page fault.
\<close>

definition translate :: "mem \<Rightarrow> u32 \<Rightarrow> u32 \<Rightarrow> u32 option" where
  "translate m pd va =
     (let pde = ld32 m (pd + 4 * PDX va) in
      if pde AND PTE_P = 0 then None
      else let pte = ld32 m (P2V (PTE_ADDR pde) + 4 * PTX va) in
        if pte AND PTE_P = 0 then None
        else Some (P2V (PTE_ADDR pte) + (va AND 0xFFF)))"

text \<open>The kernel dereferences a pointer through the current page directory; the upper half is the
  direct map.\<close>

definition kva :: "'z mstate_scheme \<Rightarrow> u32 \<Rightarrow> u32 option" where
  "kva s va = (if KERNBASE \<le> va then Some va else translate (ram s) (P2V (hw_cr3 s (hw_cpu s))) va)"

definition deref32 :: "u32 \<Rightarrow> ('z mstate_scheme, u32) routine" where
  "deref32 va = bnd (gets (\<lambda>s. kva s va)) (\<lambda>a. case a of None \<Rightarrow> stuck ''page fault'' | Some a \<Rightarrow> rd32 a)"

definition deref8 :: "u32 \<Rightarrow> ('z mstate_scheme, byte) routine" where
  "deref8 va = bnd (gets (\<lambda>s. kva s va)) (\<lambda>a. case a of None \<Rightarrow> stuck ''page fault'' | Some a \<Rightarrow> gets (\<lambda>s. ram s a))"

definition store32 :: "u32 \<Rightarrow> u32 \<Rightarrow> ('z mstate_scheme, unit) routine" where
  "store32 va v = bnd (gets (\<lambda>s. kva s va)) (\<lambda>a. case a of None \<Rightarrow> stuck ''page fault'' | Some a \<Rightarrow> wr32 a v)"

definition store8 :: "u32 \<Rightarrow> byte \<Rightarrow> ('z mstate_scheme, unit) routine" where
  "store8 va v = bnd (gets (\<lambda>s. kva s va)) (\<lambda>a. case a of None \<Rightarrow> stuck ''page fault''
     | Some a \<Rightarrow> modify (\<lambda>s. s\<lparr>ram := (ram s)(a := v)\<rparr>))"

section \<open>Segments and address space registers\<close>

definition SEG_KCODE :: nat where "SEG_KCODE = 1"
definition SEG_KDATA :: nat where "SEG_KDATA = 2"
definition SEG_UCODE :: nat where "SEG_UCODE = 3"
definition SEG_UDATA :: nat where "SEG_UDATA = 4"
definition SEG_TSS :: nat where "SEG_TSS = 5"
definition DPL_USER :: nat where "DPL_USER = 3"

definition lcr3 :: "u32 \<Rightarrow> ('z kstate_scheme, unit) routine" where
  "lcr3 v = modify (\<lambda>s. s\<lparr>hw_cr3 := (hw_cr3 s)(hw_cpu s := v)\<rparr>)"

definition ltr :: "u16 \<Rightarrow> ('z kstate_scheme, unit) routine" where
  "ltr v = modify (\<lambda>s. s\<lparr>hw_tr := (hw_tr s)(hw_cpu s := v)\<rparr>)"

definition lgdt :: "nat \<Rightarrow> ('z kstate_scheme, unit) routine" where
  "lgdt c = modify (\<lambda>s. s\<lparr>hw_gdtr := (hw_gdtr s)(hw_cpu s := Some c)\<rparr>)"

definition seginit :: "('z kstate_scheme, unit) routine" where
  "seginit =
     bnd cpuid (\<lambda>c.
     seq (modify (upd_cpu c (\<lambda>k. k\<lparr>gdt := (gdt k)(SEG_KCODE := SEG (0x8 OR 0x2) 0 0xffffffff 0)\<rparr>))) (
     seq (modify (upd_cpu c (\<lambda>k. k\<lparr>gdt := (gdt k)(SEG_KDATA := SEG 0x2 0 0xffffffff 0)\<rparr>))) (
     seq (modify (upd_cpu c (\<lambda>k. k\<lparr>gdt := (gdt k)(SEG_UCODE := SEG (0x8 OR 0x2) 0 0xffffffff 3)\<rparr>))) (
     seq (modify (upd_cpu c (\<lambda>k. k\<lparr>gdt := (gdt k)(SEG_UDATA := SEG 0x2 0 0xffffffff 3)\<rparr>))) (
     lgdt c)))))"

definition switchkvm :: "('z mstate_scheme, unit) routine" where
  "switchkvm = bnd (gets kpgdir) (\<lambda>pd. lcr3 (V2P pd))"

text \<open>The task state segment has 104 bytes.\<close>

definition switchuvm :: "nat option \<Rightarrow> ('z mstate_scheme, unit) routine" where
  "switchuvm p0 =
     (case p0 of None \<Rightarrow> panic ''switchuvm: no process''
      | Some p \<Rightarrow>
        bnd (gets (\<lambda>s. procs s ! p)) (\<lambda>pr.
        if kstack pr = 0 then panic ''switchuvm: no kstack''
        else if pgdir pr = 0 then panic ''switchuvm: no pgdir''
        else
          seq pushcli (
          bnd mycpu (\<lambda>c.
          seq (modify (\<lambda>s. upd_cpu c (\<lambda>k. k\<lparr>gdt := (gdt k)(SEG_TSS := SEG16 0x9 (ts_addr s c) (104 - 1) 0)\<rparr>) s)) (
          seq (modify (upd_cpu c (\<lambda>k. k\<lparr>gdt := (gdt k)(SEG_TSS := (gdt k SEG_TSS)\<lparr>seg_s := 0\<rparr>)\<rparr>))) (
          seq (modify (upd_cpu c (\<lambda>k. k\<lparr>ts_ss0 := push_bit 3 (of_nat SEG_KDATA)\<rparr>))) (
          seq (modify (upd_cpu c (\<lambda>k. k\<lparr>ts_esp0 := kstack pr + KSTACKSIZE\<rparr>))) (
          seq (modify (upd_cpu c (\<lambda>k. k\<lparr>ts_iomb := 0xFFFF\<rparr>))) (
          seq (ltr (push_bit 3 (of_nat SEG_TSS))) (
          seq (lcr3 (V2P (pgdir pr)))
            popcli))))))))))"

section \<open>Walking and mapping\<close>

text \<open>The address of the entry for \<open>va\<close>, or 0.\<close>

definition walkpgdir :: "u32 \<Rightarrow> u32 \<Rightarrow> bool \<Rightarrow> ('z mstate_scheme, u32) routine" where
  "walkpgdir pd va alloc =
     bnd (rd32 (pd + 4 * PDX va)) (\<lambda>pde.
     if pde AND PTE_P \<noteq> 0 then ret (P2V (PTE_ADDR pde) + 4 * PTX va)
     else if \<not> alloc then ret 0
     else bnd kalloc (\<lambda>pgtab.
       if pgtab = 0 then ret 0
       else
         seq (kmemset pgtab 0 PGSIZE) (
         seq (wr32 (pd + 4 * PDX va) (V2P pgtab OR PTE_P OR PTE_W OR PTE_U)) (
         ret (pgtab + 4 * PTX va)))))"

text \<open>A loop over page addresses runs at most once per page of the address space.\<close>

definition mappages :: "u32 \<Rightarrow> u32 \<Rightarrow> u32 \<Rightarrow> u32 \<Rightarrow> u32 \<Rightarrow> ('z mstate_scheme, int) routine" where
  "mappages pd va len pa perm =
     (let last = PGROUNDDOWN (va + len - 1) in
      loop (2 ^ 20) (PGROUNDDOWN va, pa) (\<lambda>(a, pa).
        bnd (walkpgdir pd a True) (\<lambda>pte.
        if pte = 0 then ret (Inr (-1))
        else bnd (rd32 pte) (\<lambda>e.
          if e AND PTE_P \<noteq> 0 then panic ''remap''
          else
            seq (wr32 pte (pa OR perm OR PTE_P)) (
            ret (if a = last then Inr 0 else Inl (a + PGSIZE, pa + PGSIZE)))))))"

definition unmappages :: "u32 \<Rightarrow> u32 \<Rightarrow> u32 \<Rightarrow> ('z mstate_scheme, u32) routine" where
  "unmappages pd va len =
     (let last = PGROUNDDOWN (va + len - 1) in
      loop (2 ^ 20) (PGROUNDDOWN va) (\<lambda>a.
        bnd (walkpgdir pd a True) (\<lambda>pte.
        if pte = 0 then ret (Inr (-1))
        else bnd (rd32 pte) (\<lambda>e.
          if PTE_ADDR e = 0 then panic ''unmappage/zero_address''
          else
            seq (wr32 pte 0) (
            ret (if a = last then Inr (P2V (PTE_ADDR e)) else Inl (a + PGSIZE)))))))"

section \<open>Shrinking and freeing\<close>

definition deallocuvm :: "u32 \<Rightarrow> u32 \<Rightarrow> u32 \<Rightarrow> ('z mstate_scheme, u32) routine" where
  "deallocuvm pd oldsz newsz =
     (if oldsz \<le> newsz then ret oldsz
      else loop (2 ^ 20 + 1) (PGROUNDUP newsz) (\<lambda>a.
        if \<not> a < oldsz then ret (Inr newsz)
        else bnd (walkpgdir pd a False) (\<lambda>pte.
          if pte = 0 then ret (Inl (PGADDR (PDX a + 1) 0 0 - PGSIZE + PGSIZE))
          else bnd (rd32 pte) (\<lambda>e.
            if e AND PTE_P \<noteq> 0 then
              if PTE_ADDR e = 0 then panic ''deallocuvm/kfree''
              else
                seq (kfree (P2V (PTE_ADDR e))) (
                seq (wr32 pte 0) (
                ret (Inl (a + PGSIZE))))
            else ret (Inl (a + PGSIZE))))))"

text \<open>The loop that frees the page tables listed in the directory from entry \<open>i\<close> on.\<close>

definition free_tables :: "u32 \<Rightarrow> nat \<Rightarrow> ('z mstate_scheme, unit) routine" where
  "free_tables pd i =
     for_each [i..<NPDENTRIES] (\<lambda>i.
       bnd (rd32 (pd + 4 * of_nat i)) (\<lambda>e.
       doif (e AND PTE_P \<noteq> 0) (kfree (P2V (PTE_ADDR e)))))"

definition freevm :: "u32 \<Rightarrow> ('z mstate_scheme, unit) routine" where
  "freevm pd =
     (if pd = 0 then panic ''freevm: no pgdir''
      else
        seq (deallocuvm pd KERNBASE 0) (
        seq (free_tables pd 0)
          (kfree pd)))"

definition freethread :: "u32 \<Rightarrow> u32 \<Rightarrow> ('z mstate_scheme, unit) routine" where
  "freethread pd stack_beg =
     (if pd = 0 then panic ''freethread: no pgdir''
      else
        bnd (deallocuvm pd KERNBASE (stack_beg - PGSIZE)) (\<lambda>newsz.
        seq (free_tables pd (unat newsz))
          (kfree pd)))"

section \<open>The kernel half\<close>

definition kmap :: "'z mstate_scheme \<Rightarrow> (u32 \<times> u32 \<times> u32 \<times> u32) list" where
  "kmap s = [(KERNBASE, 0, EXTMEM, PTE_W),
             (KERNLINK, V2P KERNLINK, V2P (kdata s), 0),
             (kdata s, V2P (kdata s), PHYSTOP, PTE_W),
             (DEVSPACE, DEVSPACE, 0, PTE_W)]"

primrec map_kernel :: "(u32 \<times> u32 \<times> u32 \<times> u32) list \<Rightarrow> u32 \<Rightarrow> ('z mstate_scheme, u32) routine" where
  "map_kernel [] pd = ret pd"
| "map_kernel (k # ks) pd =
     (case k of (virt, phys_start, phys_end, perm) \<Rightarrow>
        bnd (mappages pd virt (phys_end - phys_start) phys_start perm) (\<lambda>r.
        if r < 0 then seq (freevm pd) (ret 0)
        else map_kernel ks pd))"

definition setupkvm :: "('z mstate_scheme, u32) routine" where
  "setupkvm =
     bnd kalloc (\<lambda>pd.
     if pd = 0 then ret 0
     else
       seq (kmemset pd 0 PGSIZE) (
       if P2V PHYSTOP > DEVSPACE then panic ''PHYSTOP too high''
       else bnd (gets kmap) (\<lambda>ks. map_kernel ks pd)))"

definition kvmalloc :: "('z mstate_scheme, unit) routine" where
  "kvmalloc =
     bnd setupkvm (\<lambda>pd.
     seq (modify (\<lambda>s. s\<lparr>kpgdir := pd\<rparr>))
       switchkvm)"

section \<open>The user half\<close>

definition inituvm :: "u32 \<Rightarrow> u32 \<Rightarrow> u32 \<Rightarrow> ('z mstate_scheme, unit) routine" where
  "inituvm pd init n =
     (if PGSIZE \<le> n then panic ''inituvm: more than a page''
      else bnd kalloc (\<lambda>mm.
        if mm = 0 then stuck ''null pointer''
        else
          seq (kmemset mm 0 PGSIZE) (
          seq (mappages pd 0 PGSIZE (V2P mm) (PTE_W OR PTE_U))
            (kmemmove mm init n))))"

definition allocuvm :: "u32 \<Rightarrow> u32 \<Rightarrow> u32 \<Rightarrow> ('z mstate_scheme, u32) routine" where
  "allocuvm pd oldsz newsz =
     (if KERNBASE \<le> newsz then ret 0
      else if newsz < oldsz then ret oldsz
      else loop (2 ^ 20) (PGROUNDUP oldsz) (\<lambda>a.
        if \<not> a < newsz then ret (Inr newsz)
        else bnd kalloc (\<lambda>mm.
          if mm = 0 then
            seq (cprintf (''allocuvm out of memory'' @ [CHR 0x0A]) []) (
            seq (deallocuvm pd newsz oldsz)
              (ret (Inr 0)))
          else
            seq (kmemset mm 0 PGSIZE) (
            bnd (mappages pd a PGSIZE (V2P mm) (PTE_W OR PTE_U)) (\<lambda>r.
            if r < 0 then
              seq (cprintf (''allocuvm out of memory (2)'' @ [CHR 0x0A]) []) (
              seq (deallocuvm pd newsz oldsz) (
              seq (kfree mm)
                (ret (Inr 0))))
            else ret (Inl (a + PGSIZE)))))))"

definition palloc :: "u32 \<Rightarrow> u32 \<Rightarrow> ('z mstate_scheme, u32) routine" where
  "palloc pd loc =
     bnd kalloc (\<lambda>mm.
     if mm = 0 then seq (cprintf (''palloc out of memory'' @ [CHR 0x0A]) []) (ret 0)
     else
       seq (mappages pd (PGROUNDDOWN loc) PGSIZE (V2P mm) (PTE_W OR PTE_U))
         (ret (PGROUNDDOWN loc)))"

definition clearpteu :: "u32 \<Rightarrow> u32 \<Rightarrow> ('z mstate_scheme, unit) routine" where
  "clearpteu pd uva =
     bnd (walkpgdir pd uva False) (\<lambda>pte.
     if pte = 0 then panic ''clearpteu''
     else bnd (rd32 pte) (\<lambda>e. wr32 pte (e AND NOT PTE_U)))"

text \<open>The label \<^verbatim>\<open>bad\<close> of \<^verbatim>\<open>copyuvm\<close> and \<^verbatim>\<open>linkuvm\<close>.\<close>

definition bad_vm :: "u32 \<Rightarrow> ('z mstate_scheme, 'x + u32) routine" where
  "bad_vm d = seq (freevm d) (ret (Inr 0))"

definition copyuvm :: "u32 \<Rightarrow> u32 \<Rightarrow> ('z mstate_scheme, u32) routine" where
  "copyuvm pd n =
     bnd setupkvm (\<lambda>d.
     if d = 0 then ret 0
     else loop (2 ^ 20 + 1) 0 (\<lambda>i.
       if \<not> i < n then ret (Inr d)
       else bnd (walkpgdir pd i False) (\<lambda>pte.
         if pte = 0 then panic ''copyuvm: pte should exist''
         else bnd (rd32 pte) (\<lambda>e.
           if e AND PTE_P = 0 then panic ''copyuvm: page not present''
           else bnd kalloc (\<lambda>mm.
             if mm = 0 then bad_vm d
             else
               seq (kmemmove mm (P2V (PTE_ADDR e)) PGSIZE) (
               bnd (mappages d i PGSIZE (V2P mm) (PTE_FLAGS e)) (\<lambda>r.
               if r < 0 then seq (kfree mm) (bad_vm d)
               else ret (Inl (i + PGSIZE)))))))))"

text \<open>The inner loop of \<^verbatim>\<open>linkuvm\<close> copies the words of the new stack from the page
  \<open>spage\<close> to the user address \<open>i\<close> and relocates the ones that point into the page.\<close>

definition copy_stack :: "u32 \<Rightarrow> u32 \<Rightarrow> u32 \<Rightarrow> u32 \<Rightarrow> ('z mstate_scheme, unit) routine" where
  "copy_stack n stack spage i =
     loop 1025 (stack - spage) (\<lambda>j.
       if \<not> j < PGSIZE then ret (Inr ())
       else bnd (deref32 (spage + j)) (\<lambda>tmp.
         if n < tmp \<and> tmp < n + PGSIZE then
           seq (store32 (spage + j) (tmp + (i - n))) (
           seq (store32 (i + j) (tmp + (i - n)))
             (ret (Inl (j + 4))))
         else seq (store32 (i + j) tmp) (ret (Inl (j + 4)))))"

definition linkuvm :: "u32 \<Rightarrow> u32 \<Rightarrow> u32 \<Rightarrow> u32 \<Rightarrow> ('z mstate_scheme, u32) routine" where
  "linkuvm pd n orig_stack_beg stack =
     (let spage = PGROUNDDOWN stack in
     bnd setupkvm (\<lambda>d.
     if d = 0 then ret 0
     else loop (2 ^ 20 + 1) 0 (\<lambda>i.
       if \<not> i < n then ret (Inr d)
       else bnd (walkpgdir pd i False) (\<lambda>pte.
         if pte = 0 then panic ''linkuvm: pte should exist''
         else bnd (rd32 pte) (\<lambda>e.
           if e AND PTE_P = 0 then panic ''linkuvm: page not present''
           else if i < orig_stack_beg - PGSIZE then
             bnd (mappages d i PGSIZE (PTE_ADDR e) (PTE_FLAGS e)) (\<lambda>r.
             if r < 0 then bad_vm d else ret (Inl (i + PGSIZE)))
           else if i < orig_stack_beg then
             bnd kalloc (\<lambda>mm.
             if mm = 0 then bad_vm d
             else bnd (mappages d i PGSIZE (V2P mm) PTE_W) (\<lambda>r.
               if r < 0 then seq (kfree mm) (bad_vm d) else ret (Inl (i + PGSIZE))))
           else
             bnd (mappages d i PGSIZE (V2P spage) (PTE_W OR PTE_U)) (\<lambda>r.
             if r < 0 then bad_vm d
             else seq (copy_stack n stack spage i) (ret (Inr d))))))))"

section \<open>Copying out\<close>

definition uva2ka :: "u32 \<Rightarrow> u32 \<Rightarrow> ('z mstate_scheme, u32) routine" where
  "uva2ka pd uva =
     bnd (walkpgdir pd uva False) (\<lambda>pte.
     if pte = 0 then stuck ''null pointer''
     else bnd (rd32 pte) (\<lambda>e.
       if e AND PTE_P = 0 then ret 0
       else if e AND PTE_U = 0 then ret 0
       else ret (P2V (PTE_ADDR e))))"

text \<open>
  Where a transfer comes from: memory, read through the current address space, or a local variable
  of the kernel. Where it goes: memory, or a local variable, which is then given by the bytes that
  the operation returns.
\<close>

datatype src = FromMem u32 | FromBytes "byte list"

primrec store_bytes :: "u32 \<Rightarrow> byte list \<Rightarrow> ('z mstate_scheme, unit) routine" where
  "store_bytes a [] = ret ()"
| "store_bytes a (b # bs) = seq (store8 a b) (store_bytes (a + 1) bs)"

definition put_dst :: "u32 option \<Rightarrow> nat \<Rightarrow> byte list \<Rightarrow> ('z mstate_scheme, unit) routine" where
  "put_dst dst i bs = (case dst of None \<Rightarrow> ret () | Some a \<Rightarrow> store_bytes (a + of_nat i) bs)"

definition src_byte :: "src \<Rightarrow> nat \<Rightarrow> ('z mstate_scheme, byte) routine" where
  "src_byte src i = (case src of FromMem a \<Rightarrow> deref8 (a + of_nat i) | FromBytes bs \<Rightarrow> ret (bs ! i))"

primrec src_bytes :: "src \<Rightarrow> nat \<Rightarrow> nat \<Rightarrow> ('z mstate_scheme, byte list) routine" where
  "src_bytes src i 0 = ret []"
| "src_bytes src i (Suc n) = bnd (src_byte src i) (\<lambda>b. bnd (src_bytes src (Suc i) n) (\<lambda>bs. ret (b # bs)))"

text \<open>The loop variables are the user address, the bytes copied so far and the bytes left.\<close>

definition copyout :: "u32 \<Rightarrow> u32 \<Rightarrow> src \<Rightarrow> u32 \<Rightarrow> ('z mstate_scheme, int) routine" where
  "copyout pd va p len =
     loop (2 ^ 20 + 2) (va, 0, len) (\<lambda>(va, k, len).
       if len = 0 then ret (Inr 0)
       else
         let va0 = PGROUNDDOWN va in
         bnd (uva2ka pd va0) (\<lambda>pa0.
         if pa0 = 0 then ret (Inr (-1))
         else
           let n = PGSIZE - (va - va0); n = (if len < n then len else n) in
           bnd (src_bytes p k (unat n)) (\<lambda>bs.
           seq (modify (\<lambda>s. s\<lparr>ram := put (ram s) (pa0 + (va - va0)) bs\<rparr>)) (
           ret (Inl (va0 + PGSIZE, k + unat n, len - n))))))"

end
