(* ===== verification/Proc.thy ===== *)
theory Proc
  imports Vm
begin

text \<open>
  The process table and the scheduler (\<^verbatim>\<open>proc.c\<close>), except for the routines that need the
  file system: allocation of a slot, the four scheduling policies, giving up the processor,
  sleeping and waking, killing, waiting for children and joining threads. This theory holds the
  definitions; their properties are in the theories \<open>Sched\<close> and \<open>Tickets\<close>.
\<close>

section \<open>Random numbers\<close>

definition fastrandSlated :: "u32 \<Rightarrow> ('z kstate_scheme, u32) routine" where
  "fastrandSlated x =
     seq (modify (\<lambda>s. s\<lparr>g_seed := (214013 + x) * g_seed s + (2531011 + x)\<rparr>)) (
     gets (\<lambda>s. drop_bit 16 (g_seed s) AND 0x7FFF))"

definition fastrand :: "('z kstate_scheme, u32) routine" where
  "fastrand =
     seq (modify (\<lambda>s. s\<lparr>g_seed := 214013 * g_seed s + 2531011\<rparr>)) (
     gets (\<lambda>s. drop_bit 16 (g_seed s) AND 0x7FFF))"

definition PRIORITY_Q :: "u32 list" where
  "PRIORITY_Q = [1, 2, 4, 8, 16, 32]"

section \<open>Slots of the process table\<close>

definition pinit :: "('z kstate_scheme, unit) routine" where
  "pinit = initlock PtableLock ''ptable''"

text \<open>The current process, in code that dereferences \<^verbatim>\<open>myproc()\<close> without a test.\<close>

definition curproc :: "('z kstate_scheme, nat) routine" where
  "curproc = bnd myproc (\<lambda>p. case p of None \<Rightarrow> stuck ''null pointer'' | Some p \<Rightarrow> ret p)"

text \<open>What the critical section of \<^verbatim>\<open>allocproc\<close> writes into the slot it found.\<close>

definition embryo :: "u32 \<Rightarrow> u32 \<Rightarrow> proc \<Rightarrow> proc" where
  "embryo npid now p =
     p\<lparr>state := EMBRYO, ticketCount := 10, pid := npid, priority := (if npid = 1 then 1 else 3),
       lastChangeTime := now, creationTime := now, totalWaitTime := 0, totalCBT := 0\<rparr>"

text \<open>The new kernel stack: the saved context returns to \<^verbatim>\<open>forkret\<close>, which returns to
  \<^verbatim>\<open>trapret\<close>.\<close>

definition first_context :: kcontext where
  "first_context = \<lparr>ctx_edi = 0, ctx_esi = 0, ctx_ebx = 0, ctx_ebp = 0, ctx_eip = Forkret\<rparr>"

definition allocproc :: "('z mstate_scheme, nat option) routine" where
  "allocproc =
     seq (acquire PtableLock) (
     bnd (gets (\<lambda>s. find_idx (\<lambda>p. state p = UNUSED) (procs s))) (\<lambda>slot.
     case slot of
       None \<Rightarrow> seq (release PtableLock) (ret None)
     | Some p \<Rightarrow>
         seq (modify (\<lambda>s. upd_proc p (embryo (nextpid s) (ticks s)) s)) (
         seq (modify (\<lambda>s. s\<lparr>nextpid := nextpid s + 1\<rparr>)) (
         seq (release PtableLock) (
         bnd kalloc (\<lambda>ks.
         seq (modify (upd_proc p (\<lambda>x. x\<lparr>kstack := ks\<rparr>))) (
         if ks = 0 then
           seq (modify (upd_proc p (\<lambda>x. x\<lparr>state := UNUSED\<rparr>))) (ret None)
         else
           seq (modify (upd_proc p (\<lambda>x. x\<lparr>kret := Trapret, kctx := first_context\<rparr>)))
             (ret (Some p)))))))))"

definition growproc :: "u32 \<Rightarrow> ('z mstate_scheme, u32) routine" where
  "growproc n =
     bnd curproc (\<lambda>cp.
     bnd (gets (\<lambda>s. procs s ! cp)) (\<lambda>pr.
     let done = (\<lambda>nsz.
       seq (modify (upd_proc cp (\<lambda>x. x\<lparr>sz := nsz\<rparr>))) (
       seq (switchuvm (Some cp)) (ret 0))) in
     if 0 < sint n then
       bnd (allocuvm (pgdir pr) (sz pr) (sz pr + n)) (\<lambda>nsz. if nsz = 0 then ret (-1) else done nsz)
     else if sint n < 0 then
       bnd (deallocuvm (pgdir pr) (sz pr) (sz pr + n)) (\<lambda>nsz. if nsz = 0 then ret (-1) else done nsz)
     else done (sz pr)))"

section \<open>Giving up the processor\<close>

text \<open>The checks of \<^verbatim>\<open>sched\<close> and the switch to the scheduler.\<close>

definition sched_switch :: "nat \<Rightarrow> ('z kstate_scheme, unit) routine" where
  "sched_switch p =
     bnd (holding PtableLock) (\<lambda>h.
     if \<not> h then panic ''sched ptable.lock''
     else bnd mycpu (\<lambda>c.
       bnd (gets (\<lambda>s. ncli (cpus s ! c))) (\<lambda>n.
       if n \<noteq> 1 then panic ''sched locks''
       else bnd (gets (\<lambda>s. state (procs s ! p))) (\<lambda>st.
         if st = RUNNING then panic ''sched running''
         else bnd (gets readeflags_IF) (\<lambda>fl.
           if fl then panic ''sched interruptible''
           else
             bnd (gets (\<lambda>s. intena (cpus s ! c))) (\<lambda>ie.
             seq switch (
             bnd mycpu (\<lambda>c'.
             modify (upd_cpu c' (\<lambda>k. k\<lparr>intena := ie\<rparr>))))))))))"

definition sched :: "('z kstate_scheme, unit) routine" where
  "sched =
     bnd curproc (\<lambda>p.
     seq (modify (\<lambda>s. upd_proc p (\<lambda>x. x\<lparr>totalCBT := totalCBT x + (ticks s - lastChangeTime x)\<rparr>) s)) (
     seq (modify (\<lambda>s. upd_proc p (\<lambda>x. x\<lparr>lastChangeTime := ticks s\<rparr>) s))
       (sched_switch p)))"

definition yield :: "('z kstate_scheme, unit) routine" where
  "yield =
     seq (acquire PtableLock) (
     bnd curproc (\<lambda>p.
     seq (modify (upd_proc p (\<lambda>x. x\<lparr>state := RUNNABLE\<rparr>))) (
     seq sched
       (release PtableLock))))"

text \<open>The policy check after a process became runnable: the priority policies preempt at once.\<close>

definition maybe_yield :: "('z kstate_scheme, unit) routine" where
  "maybe_yield =
     seq pushcli (
     bnd mycpu (\<lambda>c.
     bnd (gets (\<lambda>s. schedAlg (cpus s ! c))) (\<lambda>alg.
     seq popcli (
     doif (alg = 2 \<or> alg = 3) yield))))"

section \<open>Sleeping and waking\<close>

text \<open>A lock is named by its \<open>lock_id\<close>, so the test for a null lock has no counterpart.\<close>

definition sleep :: "chan \<Rightarrow> lock_id \<Rightarrow> ('z kstate_scheme, unit) routine" where
  "sleep ch lk =
     bnd myproc (\<lambda>p0.
     case p0 of None \<Rightarrow> panic ''sleep''
     | Some p \<Rightarrow>
         seq (doif (lk \<noteq> PtableLock) (seq (acquire PtableLock) (release lk))) (
         seq (modify (upd_proc p (\<lambda>x. x\<lparr>chan := Some ch\<rparr>))) (
         seq (modify (\<lambda>s. (upd_proc p (\<lambda>x. x\<lparr>state := SLEEPING\<rparr>) s)\<lparr>totalTicketCount :=
                totalTicketCount s - ticketCount (procs s ! p)\<rparr>)) (
         seq sched (
         seq (modify (upd_proc p (\<lambda>x. x\<lparr>chan := None\<rparr>)))
           (doif (lk \<noteq> PtableLock) (seq (release PtableLock) (acquire lk))))))))"

definition make_runnable :: "nat \<Rightarrow> 'z kstate_scheme \<Rightarrow> 'z kstate_scheme" where
  "make_runnable p s =
     (upd_proc p (\<lambda>x. x\<lparr>state := RUNNABLE, lastChangeTime := ticks s\<rparr>) s)\<lparr>totalTicketCount :=
        totalTicketCount s + ticketCount (procs s ! p)\<rparr>"

definition wakeup1 :: "chan \<Rightarrow> ('z kstate_scheme, unit) routine" where
  "wakeup1 ch =
     for_each [0..<NPROC] (\<lambda>p. modify (\<lambda>s.
       if state (procs s ! p) = SLEEPING \<and> chan (procs s ! p) = Some ch then make_runnable p s else s))"

definition wakeup :: "chan \<Rightarrow> ('z kstate_scheme, unit) routine" where
  "wakeup ch = seq (acquire PtableLock) (seq (wakeup1 ch) (release PtableLock))"

definition kill :: "u32 \<Rightarrow> ('z kstate_scheme, u32) routine" where
  "kill k =
     seq (acquire PtableLock) (
     bnd (gets (\<lambda>s. find_idx (\<lambda>x. pid x = k) (procs s))) (\<lambda>slot.
     case slot of
       None \<Rightarrow> seq (release PtableLock) (ret (-1))
     | Some p \<Rightarrow>
         seq (modify (upd_proc p (\<lambda>x. x\<lparr>killed := True\<rparr>))) (
         bnd (gets (\<lambda>s. state (procs s ! p) = SLEEPING)) (\<lambda>sleeping.
         seq (doif sleeping (modify (make_runnable p))) (
         seq (release PtableLock) (
         seq (doif sleeping maybe_yield)
           (ret 0)))))))"

section \<open>Waiting for children\<close>

text \<open>The fields that \<^verbatim>\<open>diagwait\<close> and \<^verbatim>\<open>thread_join\<close> clear when they free a slot.\<close>

definition cleared :: "proc \<Rightarrow> proc" where
  "cleared p = p\<lparr>pid := 0, first_pid := 0, parent := None, pname := (pname p)[0 := 0], killed := False,
     state := UNUSED, priority := 0, creationTime := 0, lastChangeTime := 0, totalWaitTime := 0,
     totalCBT := 0, ticketCount := 0\<rparr>"

definition is_child :: "nat \<Rightarrow> proc \<Rightarrow> bool" where
  "is_child cp p \<longleftrightarrow> pid p = first_pid p \<and> parent p = Some cp"

definition reap_child :: "u32 \<Rightarrow> nat \<Rightarrow> ('z mstate_scheme, u32) routine" where
  "reap_child arg p =
     bnd (gets (\<lambda>s. procs s ! p)) (\<lambda>x.
     seq (doif (arg \<noteq> 0) (
       seq (store32 arg (totalCBT x)) (
       seq (store32 (arg + 4) (totalWaitTime x))
         (store32 (arg + 8) (lastChangeTime x - creationTime x))))) (
     seq (kfree (kstack x)) (
     seq (modify (upd_proc p (\<lambda>x. x\<lparr>kstack := 0\<rparr>))) (
     seq (freevm (pgdir x)) (
     seq (modify (upd_proc p cleared)) (
     seq (release PtableLock)
       (ret (pid x))))))))"

definition diagwait :: "nat \<Rightarrow> u32 \<Rightarrow> ('z mstate_scheme, u32) routine" where
  "diagwait fuel arg =
     bnd curproc (\<lambda>cp.
     seq (acquire PtableLock) (
     loop fuel () (\<lambda>_.
       bnd (gets procs) (\<lambda>ps.
       case find_idx (\<lambda>p. is_child cp p \<and> state p = ZOMBIE) ps of
         Some p \<Rightarrow> bnd (reap_child arg p) (\<lambda>r. ret (Inr r))
       | None \<Rightarrow>
           if (\<forall>p \<in> set ps. \<not> is_child cp p) \<or> killed (ps ! cp) then
             seq (release PtableLock) (ret (Inr (-1)))
           else seq (sleep (ChanProc cp) PtableLock) (ret (Inl ()))))))"

definition wait :: "nat \<Rightarrow> ('z mstate_scheme, u32) routine" where
  "wait fuel = diagwait fuel 0"

definition is_target :: "proc list \<Rightarrow> nat \<Rightarrow> u32 \<Rightarrow> nat \<Rightarrow> bool" where
  "is_target ps cp tid p \<longleftrightarrow> p \<noteq> cp \<and> first_pid (ps ! p) = first_pid (ps ! cp) \<and> pid (ps ! p) = tid"

definition reap_thread :: "nat \<Rightarrow> nat \<Rightarrow> ('z mstate_scheme, u32) routine" where
  "reap_thread cp p =
     bnd (gets (\<lambda>s. procs s ! p)) (\<lambda>x.
     bnd (gets (\<lambda>s. tf_esp (tf (procs s ! cp)))) (\<lambda>esp.
     seq (kfree (kstack x)) (
     seq (modify (upd_proc p (\<lambda>x. x\<lparr>kstack := 0\<rparr>))) (
     seq (freethread (pgdir x) (PGROUNDDOWN esp)) (
     seq (modify (upd_proc p cleared)) (
     seq (release PtableLock)
       (ret (if killed x then -1 else 0))))))))"

definition thread_join :: "nat \<Rightarrow> u32 \<Rightarrow> ('z mstate_scheme, u32) routine" where
  "thread_join fuel tid =
     bnd curproc (\<lambda>cp.
     bnd (gets (\<lambda>s. pid (procs s ! cp))) (\<lambda>own.
     if tid = own then ret (-2)
     else
       seq (acquire PtableLock) (
       loop fuel () (\<lambda>_.
         bnd (gets procs) (\<lambda>ps.
         case List.find (\<lambda>p. is_target ps cp tid p \<and>
             (pid (ps ! p) = first_pid (ps ! p) \<or> state (ps ! p) = ZOMBIE)) [0..<length ps] of
           Some p \<Rightarrow>
             if pid (ps ! p) = first_pid (ps ! p) then ret (Inr (-2))
             else bnd (reap_thread cp p) (\<lambda>r. ret (Inr r))
         | None \<Rightarrow>
             if (\<forall>p < length ps. \<not> is_target ps cp tid p) \<or> killed (ps ! cp) then
               seq (release PtableLock) (ret (Inr (-2)))
             else seq (sleep (ChanProc cp) PtableLock) (ret (Inl ())))))))"

section \<open>The scheduler\<close>

text \<open>The round-robin position: null or outside the table means the first slot, and a position
  other than the first slot moves on by one, possibly just past the table.\<close>

definition rr_start :: "nat option \<Rightarrow> nat" where
  "rr_start lp = (let p = (case lp of None \<Rightarrow> 0 | Some q \<Rightarrow> if NPROC \<le> q then 0 else q) in
     if 0 < p then p + 1 else p)"

text \<open>Policies 0 and 1: the first runnable slot from the position on.\<close>

definition rr_scan :: "proc list \<Rightarrow> nat \<Rightarrow> nat option" where
  "rr_scan ps start = List.find (\<lambda>p. state (ps ! p) = RUNNABLE) [start..<NPROC]"

text \<open>Policies 2 and 3: one round over the table from the position on, keeping the smallest
  priority value seen (0: none yet) and its slot.\<close>

fun prio_scan :: "proc list \<Rightarrow> nat \<Rightarrow> nat \<Rightarrow> u32 \<Rightarrow> nat option \<Rightarrow> nat option" where
  "prio_scan ps p 0 minPP minP = minP"
| "prio_scan ps p (Suc k) minPP minP =
     (let nxt = (if NPROC \<le> p + 1 then 0 else p + 1) in
      if state (ps ! p) = RUNNABLE then
        let (minPP, minP) =
          (if minPP \<noteq> 0 then (if priority (ps ! p) < minPP then (priority (ps ! p), Some p) else (minPP, minP))
           else (priority (ps ! p), Some p)) in
        if minPP = 1 then minP else prio_scan ps nxt k minPP minP
      else prio_scan ps nxt k minPP minP)"

text \<open>Policy 4: subtract the tickets of the runnable slots in turn until the draw is used up.\<close>

fun lottery_scan :: "proc list \<Rightarrow> u32 \<Rightarrow> nat option" where
  "lottery_scan [] winner = None"
| "lottery_scan (p # ps) winner =
     (if state p \<noteq> RUNNABLE then map_option Suc (lottery_scan ps winner)
      else let winner = winner - ticketCount p in
        if sint winner < 0 then Some 0 else map_option Suc (lottery_scan ps winner))"

text \<open>
  The \<^verbatim>\<open>switch\<close> over the policy: the chosen slot and its time quantum. A priority scan that
  starts just past the table reads outside it.
\<close>

definition sched_choose :: "nat \<Rightarrow> ('z kstate_scheme, (nat \<times> u32) option) routine" where
  "sched_choose c =
     seq (modify (upd_cpu c (\<lambda>k. k\<lparr>RRLastProc := Some (rr_start (RRLastProc k))\<rparr>))) (
     bnd (gets (\<lambda>s. the (RRLastProc (cpus s ! c)))) (\<lambda>start.
     bnd (gets (\<lambda>s. schedAlg (cpus s ! c))) (\<lambda>alg.
     bnd (gets procs) (\<lambda>ps.
     if alg = 2 \<or> alg = 3 then
       if NPROC \<le> start then stuck ''out of bounds''
       else
         (case prio_scan ps start NPROC 0 None of
           Some p \<Rightarrow>
             seq (modify (upd_cpu c (\<lambda>k. k\<lparr>RRLastProc := Some p\<rparr>))) (
             if alg = 3 then
               if priority (ps ! p) - 1 < 6 then ret (Some (p, PRIORITY_Q ! unat (priority (ps ! p) - 1)))
               else stuck ''out of bounds''
             else ret (Some (p, 1)))
         | None \<Rightarrow> seq (modify (upd_cpu c (\<lambda>k. k\<lparr>RRLastProc := Some 0\<rparr>))) (ret None))
     else if alg = 4 then
       bnd (gets totalTicketCount) (\<lambda>total.
       bnd (if 0 < sint total then bnd fastrand (\<lambda>r. ret (r mod total)) else ret 0) (\<lambda>winner.
       ret (map_option (\<lambda>p. (p, 1)) (lottery_scan ps winner))))
     else
       seq (doif (alg \<noteq> 0 \<and> alg \<noteq> 1) (modify (upd_cpu c (\<lambda>k. k\<lparr>schedAlg := 0\<rparr>)))) (
       let timeQ = (if alg = 0 then 1 else QUANTUM) in
       (case rr_scan ps start of
         Some p \<Rightarrow>
           seq (modify (upd_cpu c (\<lambda>k. k\<lparr>RRLastProc := Some p\<rparr>))) (
           ret (Some (p, timeQ)))
       | None \<Rightarrow> seq (modify (upd_cpu c (\<lambda>k. k\<lparr>RRLastProc := Some 0\<rparr>))) (ret None)))))))"

text \<open>What a round does with the chosen process, up to the switch and after it.\<close>

definition sched_run :: "nat \<Rightarrow> nat \<Rightarrow> u32 \<Rightarrow> ('z mstate_scheme, unit) routine" where
  "sched_run c p timeQ =
     seq (modify (upd_cpu c (\<lambda>k. k\<lparr>ctr := timeQ, cproc := Some p\<rparr>))) (
     seq (modify (\<lambda>s. upd_proc p (\<lambda>x. x\<lparr>totalWaitTime := totalWaitTime x + (ticks s - lastChangeTime x),
            lastChangeTime := ticks s\<rparr>) s)) (
     seq (switchuvm (Some p)) (
     seq (modify (upd_proc p (\<lambda>x. x\<lparr>state := RUNNING\<rparr>))) (
     seq switch (
     seq switchkvm
       (modify (upd_cpu c (\<lambda>k. k\<lparr>cproc := None\<rparr>))))))))"

definition scheduler :: "nat \<Rightarrow> ('z mstate_scheme, unit) routine" where
  "scheduler fuel =
     bnd mycpu (\<lambda>c.
     seq (modify (upd_cpu c (\<lambda>k. k\<lparr>cproc := None\<rparr>))) (
     seq (for_each [0..<1000] (\<lambda>_. bnd (gets ticks) (\<lambda>t. seq (fastrandSlated t) (ret ())))) (
     loop fuel () (\<lambda>_.
       seq sti (
       seq (acquire PtableLock) (
       bnd (sched_choose c) (\<lambda>r.
       seq (case r of Some (p, timeQ) \<Rightarrow> sched_run c p timeQ | None \<Rightarrow> ret ()) (
       seq (release PtableLock)
         (ret (Inl ()))))))))))"

section \<open>Policy, priority and accounting calls\<close>

definition get_policy :: "('z kstate_scheme, u32) routine" where
  "get_policy = gets (\<lambda>s. schedAlg (cpus s ! 0))"

definition change_policy :: "u32 \<Rightarrow> ('z kstate_scheme, u32) routine" where
  "change_policy policy =
     (if sint policy < 0 \<or> 4 < sint policy then ret (-1)
      else
        seq pushcli (
        bnd (gets ncpu) (\<lambda>n.
        seq (for_each [0..<n] (\<lambda>i. modify (upd_cpu i (\<lambda>k. k\<lparr>schedAlg := policy\<rparr>)))) (
        seq popcli
          (ret policy)))))"

definition set_priority :: "u32 \<Rightarrow> ('z kstate_scheme, unit) routine" where
  "set_priority prio =
     (let prio = (if sint prio < 1 \<or> 6 < sint prio then 5 else prio) in
      bnd curproc (\<lambda>p. modify (upd_proc p (\<lambda>x. x\<lparr>priority := prio\<rparr>))))"

definition get_proc_times :: "u32 \<Rightarrow> ('z mstate_scheme, unit) routine" where
  "get_proc_times arg =
     bnd curproc (\<lambda>p.
     seq (modify (\<lambda>s. upd_proc p (\<lambda>x. x\<lparr>totalCBT := totalCBT x + (ticks s - lastChangeTime x)\<rparr>) s)) (
     seq (modify (\<lambda>s. upd_proc p (\<lambda>x. x\<lparr>lastChangeTime := ticks s\<rparr>) s)) (
     bnd (gets (\<lambda>s. procs s ! p)) (\<lambda>x.
     bnd (gets ticks) (\<lambda>now.
     seq (store32 (arg + 8) (now - creationTime x)) (
     seq (store32 (arg + 4) (totalWaitTime x))
       (store32 arg (totalCBT x))))))))"

definition get_ticketCount :: "('z kstate_scheme, u32) routine" where
  "get_ticketCount = bnd curproc (\<lambda>p. gets (\<lambda>s. ticketCount (procs s ! p)))"

definition set_ticketCount :: "u32 \<Rightarrow> ('z kstate_scheme, unit) routine" where
  "set_ticketCount n =
     (if 0 < sint n then
        bnd curproc (\<lambda>p.
        modify (\<lambda>s. (upd_proc p (\<lambda>x. x\<lparr>ticketCount := n\<rparr>) s)\<lparr>totalTicketCount :=
          totalTicketCount s + (n - ticketCount (procs s ! p))\<rparr>))
      else ret ())"

section \<open>Pages for thread stacks\<close>

definition getpage :: "('z mstate_scheme, u32) routine" where
  "getpage = bnd curproc (\<lambda>p. bnd (gets (\<lambda>s. procs s ! p)) (\<lambda>x. palloc (pgdir x) (PGROUNDUP (sz x))))"

definition detachpage :: "u32 \<Rightarrow> ('z mstate_scheme, u32) routine" where
  "detachpage loc = bnd curproc (\<lambda>p. bnd (gets (\<lambda>s. procs s ! p)) (\<lambda>x. unmappages (pgdir x) loc PGSIZE))"

section \<open>Process listing\<close>

text \<open>\<^verbatim>\<open>getcallerpcs\<close> of \<^verbatim>\<open>spinlock.c\<close>: at most ten return addresses, then zeros.\<close>

primrec callerpcs :: "nat \<Rightarrow> mem \<Rightarrow> u32 \<Rightarrow> u32 list" where
  "callerpcs 0 m ebp = []"
| "callerpcs (Suc n) m ebp =
     (if ebp = 0 \<or> ebp < KERNBASE \<or> ebp = 0xffffffff then replicate (Suc n) 0
      else ld32 m (ebp + 4) # callerpcs n m (ld32 m ebp))"

definition getcallerpcs :: "mem \<Rightarrow> u32 \<Rightarrow> u32 list" where
  "getcallerpcs m v = callerpcs 10 m (v - 8)"

definition state_name :: "procstate \<Rightarrow> string" where
  "state_name st = (case st of UNUSED \<Rightarrow> ''unused'' | EMBRYO \<Rightarrow> ''embryo'' | SLEEPING \<Rightarrow> ''sleep ''
     | RUNNABLE \<Rightarrow> ''runble'' | RUNNING \<Rightarrow> ''run   '' | ZOMBIE \<Rightarrow> ''zombie'')"

definition procdump :: "('z mstate_scheme, unit) routine" where
  "procdump =
     for_each [0..<NPROC] (\<lambda>p.
       bnd (gets (\<lambda>s. procs s ! p)) (\<lambda>x.
       if state x = UNUSED then ret ()
       else
         seq (cprintf ''%d %s %s'' [CInt (pid x), CStr (Some (map of_char (state_name (state x)))),
                CStr (Some (takeWhile (\<lambda>b. b \<noteq> 0) (pname x)))]) (
         seq (if state x = SLEEPING then
                bnd (gets (\<lambda>s. getcallerpcs (ram s) (ctx_ebp (kctx x) + 8))) (\<lambda>pcs.
                for_each (takeWhile (\<lambda>pc. pc \<noteq> 0) pcs) (\<lambda>pc. cprintf '' %p'' [CInt pc]))
              else ret ())
           (cprintf [CHR 0x0A] []))))"

end
