(* ===== verification/Frame.thy ===== *)
theory Frame
  imports Proc
begin

text \<open>
  Frame rules. A routine is \<open>quiet\<close> if it does not give up the processor and leaves the process
  table, the ticket total, the clock and the CPUs' current processes alone. The locks, the
  devices, the page allocator and the page tables are quiet; the rules are collected in
  \<open>quiet_rules\<close> and applied by backward chaining over the structure of a routine.
\<close>

named_theorems quiet_rules \<open>routines that leave the process table alone\<close>

definition pview :: "'z kstate_scheme \<Rightarrow> proc list \<times> u32 \<times> u32 \<times> u32 \<times> nat option list \<times> byte list \<times>
    nat \<times> nat \<times> (nat \<Rightarrow> byte) \<times> bool" where
  "pview s = (procs s, totalTicketCount s, nextpid s, ticks s, map cproc (cpus s), map apicid (cpus s),
     ncpu s, hw_cpu s, hw_apicid s, lapic_mapped s)"

definition quiet :: "('z kstate_scheme, 'a) routine \<Rightarrow> bool" where
  "quiet m \<longleftrightarrow> (\<forall>s. post (\<lambda>_. False) (\<lambda>_ _. True) (m s) (\<lambda>_ t. pview t = pview s))"

lemma post_no_switch: "post (\<lambda>_. False) (\<lambda>_ _. True) r Q \<Longrightarrow> (\<And>a t. Q a t \<Longrightarrow> Q' a t) \<Longrightarrow> post G R r Q'"
  by (cases r) auto

lemma quietD: "quiet m \<Longrightarrow> (\<And>a t. pview t = pview s \<Longrightarrow> Q a t) \<Longrightarrow> post G R (m s) Q"
  unfolding quiet_def by (erule allE [of _ s], erule post_no_switch) simp

lemma quiet_Done: "quiet m \<Longrightarrow> m s = Done a t \<Longrightarrow> pview t = pview s"
  unfolding quiet_def by (drule spec [of _ s]) simp

lemma quiet_ret [quiet_rules]: "quiet (ret a)"
  and quiet_gets [quiet_rules]: "quiet (gets f)"
  and quiet_panic [quiet_rules]: "quiet (panic e)"
  and quiet_stuck [quiet_rules]: "quiet (stuck e)"
  by (simp_all add: quiet_def)

lemma quiet_modify [quiet_rules]: "(\<And>s. pview (f s) = pview s) \<Longrightarrow> quiet (modify f)"
  by (simp add: quiet_def)

lemma quiet_bnd [quiet_rules]:
  fixes m :: "('z kstate_scheme, 'a) routine"
  assumes "quiet m" "\<And>a. quiet (f a)"
  shows "quiet (bnd m f)"
  unfolding quiet_def bnd_apply post_andthen
proof
  fix s :: "'z kstate_scheme"
  have "post (\<lambda>_. False) (\<lambda>_ _. True) (f a t) (\<lambda>_ u. pview u = pview s)" if "pview t = pview s" for a t
    using assms(2) [of a, unfolded quiet_def, THEN spec [of _ t]] that by simp
  then show "post (\<lambda>_. False) (\<lambda>_ _. True) (m s)
      (\<lambda>a t. post (\<lambda>_. False) (\<lambda>_ _. True) (f a t) (\<lambda>_ u. pview u = pview s))"
    by (intro quietD [OF assms(1)]) simp
qed

lemma quiet_seq [quiet_rules]: "quiet m \<Longrightarrow> quiet n \<Longrightarrow> quiet (seq m n)"
  unfolding seq_def by (rule quiet_bnd)

lemma quiet_doif [quiet_rules]: "quiet m \<Longrightarrow> quiet (doif b m)"
  by (simp add: doif_def quiet_ret)

lemma quiet_if [quiet_rules]: "quiet m \<Longrightarrow> quiet n \<Longrightarrow> quiet (if b then m else n)"
  by simp

lemma quiet_option [quiet_rules]:
  "quiet m \<Longrightarrow> (\<And>y. quiet (n y)) \<Longrightarrow> quiet (case x of None \<Rightarrow> m | Some y \<Rightarrow> n y)"
  by (cases x) auto

lemma quiet_prod [quiet_rules]: "(\<And>a b. quiet (f a b)) \<Longrightarrow> quiet (case x of (a, b) \<Rightarrow> f a b)"
  by (cases x) auto

lemma quiet_sum [quiet_rules]:
  "(\<And>y. quiet (m y)) \<Longrightarrow> (\<And>y. quiet (n y)) \<Longrightarrow> quiet (case x of Inl y \<Rightarrow> m y | Inr y \<Rightarrow> n y)"
  by (cases x) auto

lemma quiet_list:
  "(xs = [] \<Longrightarrow> quiet m) \<Longrightarrow> (\<And>y ys. xs = y # ys \<Longrightarrow> quiet (n y ys)) \<Longrightarrow>
   quiet (case xs of [] \<Rightarrow> m | y # ys \<Rightarrow> n y ys)"
  by (cases xs) auto

lemma quiet_carg:
  "(\<And>v. quiet (m v)) \<Longrightarrow> (\<And>v. quiet (n v)) \<Longrightarrow> quiet (case x of CInt v \<Rightarrow> m v | CStr v \<Rightarrow> n v)"
  by (cases x) auto

lemma quiet_for_each [quiet_rules]: "(\<And>x. quiet (f x)) \<Longrightarrow> quiet (for_each xs f)"
  by (induction xs) (auto intro: quiet_ret quiet_seq)

lemma quiet_loop [quiet_rules]: "(\<And>x. quiet (body x)) \<Longrightarrow> quiet (loop n x body)"
  by (induction n arbitrary: x) (auto intro!: quiet_stuck quiet_bnd quiet_ret split: sum.splits)

lemma pview_upd_cpu:
  "(\<And>k. cproc (f k) = cproc k) \<Longrightarrow> (\<And>k. apicid (f k) = apicid k) \<Longrightarrow> pview (upd_cpu c f s) = pview s"
  by (simp add: pview_def upd_cpu_def map_upd_same)

lemma pview_upd_lock [simp]: "pview (upd_lock l f s) = pview s"
  by (simp add: pview_def upd_lock_def)

section \<open>Locks\<close>

lemma quiet_cli [quiet_rules]: "quiet cli" and quiet_sti [quiet_rules]: "quiet sti"
  unfolding cli_def sti_def by (intro quiet_rules; simp add: pview_def)+

lemma quiet_mycpu [quiet_rules]: "quiet mycpu"
  unfolding mycpu_def by (intro quiet_rules)

lemma quiet_pushcli [quiet_rules]: "quiet pushcli"
  unfolding pushcli_def by (intro quiet_rules pview_upd_cpu) simp_all

lemma quiet_popcli [quiet_rules]: "quiet popcli"
  unfolding popcli_def by (intro quiet_rules pview_upd_cpu) simp_all

lemma quiet_myproc [quiet_rules]: "quiet myproc"
  unfolding myproc_def by (intro quiet_rules)

lemma quiet_holding [quiet_rules]: "quiet (holding l)"
  unfolding holding_def by (intro quiet_rules)

lemma quiet_acquire [quiet_rules]: "quiet (acquire l)"
  unfolding acquire_def by (intro quiet_rules pview_upd_lock)

lemma quiet_release [quiet_rules]: "quiet (release l)"
  unfolding release_def by (intro quiet_rules pview_upd_lock)

lemma quiet_initlock [quiet_rules]: "quiet (initlock l n)"
  unfolding initlock_def by (intro quiet_rules pview_upd_lock)

section \<open>Devices and console output\<close>

lemma quiet_inb [quiet_rules]: "quiet (inb p)" and quiet_outb [quiet_rules]: "quiet (outb p b)"
  unfolding inb_def outb_def by (intro quiet_rules; simp add: pview_def)+

lemma quiet_uart_wait [quiet_rules]: "quiet (uart_wait n)"
proof (induction n)
  case (Suc n)
  then show ?case unfolding uart_wait.simps microdelay_def by (intro quiet_rules)
qed (simp only: uart_wait.simps quiet_ret)

lemma quiet_uartputc [quiet_rules]: "quiet (uartputc c)"
  unfolding uartputc_def by (intro quiet_rules)

lemma quiet_uartgetc [quiet_rules]: "quiet uartgetc"
  unfolding uartgetc_def by (intro quiet_rules)

lemma quiet_kbdgetc [quiet_rules]: "quiet kbdgetc"
  unfolding kbdgetc_def by (intro quiet_rules) (simp add: pview_def)

lemma pview_crt [simp]: "pview (s\<lparr>crt := v\<rparr>) = pview s"
  by (simp add: pview_def)

lemma quiet_cga [quiet_rules]: "quiet cga_cursor" "quiet (cga_write c pos)" "quiet (cga_scroll pos)" "quiet (cga_set pos)"
  unfolding cga_cursor_def cga_write_def cga_scroll_def cga_set_def by (intro quiet_rules pview_crt)+

lemma quiet_cgaputc [quiet_rules]: "quiet (cgaputc c)"
  unfolding cgaputc_def by (intro quiet_rules)

lemma quiet_consputc [quiet_rules]: "quiet (consputc c)"
  unfolding consputc_def by (intro quiet_rules)

lemma quiet_printint [quiet_rules]: "quiet (printint x b sg)"
  unfolding printint_def by (intro quiet_rules)

lemma quiet_cprintf_loop [quiet_rules]: "quiet (cprintf_loop fmt args :: ('z dstate_scheme, unit) routine)"
proof (induction fmt arbitrary: args rule: length_induct)
  case (1 fmt)
  show ?case
  proof (cases fmt)
    case (Cons ch rest)
    have IH: "quiet (cprintf_loop rest as :: ('z dstate_scheme, unit) routine)" for as
      using 1 Cons by simp
    have IH2: "rest = f # fs \<Longrightarrow> quiet (cprintf_loop fs as :: ('z dstate_scheme, unit) routine)" for f fs as
      using 1 Cons by simp
    show ?thesis unfolding Cons cprintf_loop.simps Let_def
      by (intro quiet_if quiet_seq quiet_list quiet_carg IH quiet_rules) (erule IH2)+
  qed (simp only: cprintf_loop.simps quiet_ret)
qed

lemma quiet_cprintf [quiet_rules]: "quiet (cprintf fmt args)"
  unfolding cprintf_def by (intro quiet_rules)

section \<open>Memory\<close>

lemma pview_ram [simp]: "pview (s\<lparr>ram := m\<rparr>) = pview s"
  and pview_freelist [simp]: "pview (s\<lparr>freelist := v\<rparr>) = pview s"
  and pview_kpgdir [simp]: "pview (s\<lparr>kpgdir := v\<rparr>) = pview s"
  by (simp_all add: pview_def)

lemma quiet_kalloc [quiet_rules]: "quiet kalloc"
  unfolding kalloc_def by (intro quiet_rules pview_freelist)

lemma quiet_kfree [quiet_rules]: "quiet (kfree v)"
  unfolding kfree_def by (intro quiet_rules pview_freelist pview_ram)

lemma quiet_words [quiet_rules]: "quiet (rd32 a)" "quiet (wr32 a v)" "quiet (kmemset a c n)" "quiet (kmemmove d a n)"
  unfolding rd32_def wr32_def kmemset_def kmemmove_def by (intro quiet_rules pview_ram)+

lemma quiet_deref [quiet_rules]: "quiet (deref32 a)" "quiet (deref8 a)" "quiet (store32 a v)" "quiet (store8 a b)"
  unfolding deref32_def deref8_def store32_def store8_def by (intro quiet_rules pview_ram)+

lemma quiet_walkpgdir [quiet_rules]: "quiet (walkpgdir pd va al)"
  unfolding walkpgdir_def by (intro quiet_rules)

lemma quiet_mappages [quiet_rules]: "quiet (mappages pd va n pa perm)"
  unfolding mappages_def Let_def by (intro quiet_rules)

lemma quiet_unmappages [quiet_rules]: "quiet (unmappages pd va n)"
  unfolding unmappages_def Let_def by (intro quiet_rules)

lemma quiet_deallocuvm [quiet_rules]: "quiet (deallocuvm pd a b)"
  unfolding deallocuvm_def by (intro quiet_rules)

lemma quiet_free_tables [quiet_rules]: "quiet (free_tables pd i)"
  unfolding free_tables_def by (intro quiet_rules)

lemma quiet_freevm [quiet_rules]: "quiet (freevm pd)"
  unfolding freevm_def by (intro quiet_rules)

lemma quiet_freethread [quiet_rules]: "quiet (freethread pd a)"
  unfolding freethread_def by (intro quiet_rules)

lemma quiet_map_kernel [quiet_rules]: "quiet (map_kernel ks pd)"
proof (induction ks)
  case (Cons k ks)
  then show ?case unfolding map_kernel.simps by (intro quiet_rules)
qed (simp only: map_kernel.simps quiet_ret)

lemma quiet_setupkvm [quiet_rules]: "quiet setupkvm"
  unfolding setupkvm_def by (intro quiet_rules)

lemma quiet_allocuvm [quiet_rules]: "quiet (allocuvm pd a b)"
  unfolding allocuvm_def by (intro quiet_rules)

lemma quiet_palloc [quiet_rules]: "quiet (palloc pd loc)"
  unfolding palloc_def by (intro quiet_rules)

lemma quiet_bad_vm [quiet_rules]: "quiet (bad_vm d)"
  unfolding bad_vm_def by (intro quiet_rules)

lemma quiet_copyuvm [quiet_rules]: "quiet (copyuvm pd n)"
  unfolding copyuvm_def by (intro quiet_rules)

lemma quiet_linkuvm [quiet_rules]: "quiet (linkuvm pd n a b)"
  unfolding linkuvm_def copy_stack_def Let_def by (intro quiet_rules)

lemma quiet_store_bytes [quiet_rules]: "quiet (store_bytes a bs)"
proof (induction bs arbitrary: a)
  case (Cons b bs)
  then show ?case unfolding store_bytes.simps by (intro quiet_rules)
qed (simp only: store_bytes.simps quiet_ret)

lemma quiet_put_dst [quiet_rules]: "quiet (put_dst dst i bs)"
  unfolding put_dst_def by (intro quiet_rules)

lemma quiet_src_byte [quiet_rules]: "quiet (src_byte src i)"
  unfolding src_byte_def by (cases src) (simp_all only: src.case quiet_rules)

lemma quiet_src_bytes [quiet_rules]: "quiet (src_bytes src i n)"
proof (induction n arbitrary: i)
  case (Suc n)
  then show ?case unfolding src_bytes.simps by (intro quiet_rules)
qed (simp only: src_bytes.simps quiet_ret)

lemma quiet_search [quiet_rules]:
  assumes "\<And>x. quiet (f x)"
  shows "quiet (search xs f)"
proof (induction xs)
  case (Cons x xs)
  with assms show ?case unfolding search.simps by (intro quiet_rules)
qed (simp only: search.simps quiet_ret)

lemma quiet_copyout [quiet_rules]: "quiet (copyout pd va p n)"
  unfolding copyout_def uva2ka_def Let_def by (intro quiet_rules pview_ram)

lemma quiet_inituvm [quiet_rules]: "quiet (inituvm pd a n)"
  unfolding inituvm_def by (intro quiet_rules)

lemma quiet_lcr3 [quiet_rules]: "quiet (lcr3 v)" and quiet_ltr [quiet_rules]: "quiet (ltr w)"
  unfolding lcr3_def ltr_def by (intro quiet_rules; simp add: pview_def)+

lemma quiet_switchkvm [quiet_rules]: "quiet switchkvm"
  unfolding switchkvm_def by (intro quiet_rules)

lemma quiet_switchuvm [quiet_rules]: "quiet (switchuvm p)"
  unfolding switchuvm_def by (intro quiet_rules pview_upd_cpu) simp_all

end
