(* ===== verification/Tickets.thy ===== *)
theory Tickets
  imports Frame
begin

text \<open>
  The ticket accounting of the process table. \<open>totalTicketCount\<close> is the sum, in 32-bit
  arithmetic, of the tickets of the runnable and running processes. Every routine that changes the
  table keeps this, across the points where it gives up the processor: the routines of a process
  rely on the scheduler to resume them as the running process of a CPU, and the scheduler
  guarantees exactly that.
\<close>

section \<open>The invariant\<close>

definition counted :: "procstate \<Rightarrow> bool" where
  "counted st \<longleftrightarrow> st = RUNNABLE \<or> st = RUNNING"

definition weight :: "proc \<Rightarrow> u32" where
  "weight p = (if counted (state p) then ticketCount p else 0)"

definition tickets_ok :: "'z kstate_scheme \<Rightarrow> bool" where
  "tickets_ok s \<longleftrightarrow> length (procs s) = NPROC \<and> totalTicketCount s = sum_list (map weight (procs s))"

text \<open>The current process of the executing CPU.\<close>

definition cur :: "'z kstate_scheme \<Rightarrow> nat option" where
  "cur s = (case this_cpu s of None \<Rightarrow> None | Some c \<Rightarrow> cproc (cpus s ! c))"

definition running :: "'z kstate_scheme \<Rightarrow> nat \<Rightarrow> bool" where
  "running s p \<longleftrightarrow> cur s = Some p \<and> p < NPROC \<and> state (procs s ! p) = RUNNING"

lemma pview_procs:
  "pview t = pview s \<Longrightarrow> procs t = procs s"
  "pview t = pview s \<Longrightarrow> totalTicketCount t = totalTicketCount s"
  "pview t = pview s \<Longrightarrow> this_cpu t = this_cpu s"
  by (simp_all add: pview_def this_cpu_map lapicid_def)

lemma pview_cur:
  assumes "pview t = pview s"
  shows "cur t = cur s"
proof (cases "this_cpu s")
  case None
  then show ?thesis using pview_procs(3) [OF assms] by (simp add: cur_def)
next
  case (Some c)
  then have c: "this_cpu t = Some c" using pview_procs(3) [OF assms] by simp
  have "map cproc (cpus t) = map cproc (cpus s)" using assms by (simp add: pview_def)
  then have "cproc (cpus t ! c) = cproc (cpus s ! c)"
    using this_cpu_bound [OF Some] this_cpu_bound [OF c] by (metis nth_map)
  then show ?thesis using Some c by (simp add: cur_def)
qed

lemma pview_inv:
  assumes "pview t = pview s"
  shows "tickets_ok t = tickets_ok s" "running t p = running s p"
  using pview_procs [OF assms] pview_cur [OF assms] by (simp_all add: tickets_ok_def running_def)

text \<open>Changing one slot.\<close>

lemma tickets_upd:
  assumes "tickets_ok s" "q < NPROC" "w = totalTicketCount s - weight (procs s ! q) + weight (f (procs s ! q))"
  shows "tickets_ok ((upd_proc q f s)\<lparr>totalTicketCount := w\<rparr>)"
  using assms by (simp add: tickets_ok_def upd_proc_def sum_list_map_update)

lemma tickets_upd_same:
  assumes "tickets_ok s" "weight (f (procs s ! q)) = weight (procs s ! q)"
  shows "tickets_ok (upd_proc q f s)"
  using assms by (simp add: tickets_ok_def upd_proc_def map_upd_same)

lemma this_cpu_upd_proc [simp]: "this_cpu (upd_proc q f s) = this_cpu s"
  by (rule this_cpu_frame) (simp_all add: upd_proc_def)

lemma cur_upd_proc [simp]: "cur (upd_proc q f s) = cur s" "cur ((upd_proc q f s)\<lparr>totalTicketCount := w\<rparr>) = cur s"
proof -
  show "cur (upd_proc q f s) = cur s" by (simp add: cur_def split: option.split)
  have "this_cpu ((upd_proc q f s)\<lparr>totalTicketCount := w\<rparr>) = this_cpu s"
    by (rule this_cpu_frame) (simp_all add: upd_proc_def)
  then show "cur ((upd_proc q f s)\<lparr>totalTicketCount := w\<rparr>) = cur s"
    by (simp add: cur_def split: option.split)
qed

section \<open>A logic for the routines of a process\<close>

text \<open>
  \<open>resumed p t u\<close>: the process \<open>p\<close> that gave up the processor in \<open>t\<close> is resumed in \<open>u\<close>. It is then
  the running process of the CPU that resumes it.
\<close>

definition resumed :: "nat \<Rightarrow> 'z kstate_scheme \<Rightarrow> 'z kstate_scheme \<Rightarrow> bool" where
  "resumed p t u \<longleftrightarrow> tickets_ok u \<and> running u p"

definition hoare :: "nat \<Rightarrow> (proc list \<Rightarrow> bool) \<Rightarrow> ('z kstate_scheme, 'a) routine \<Rightarrow> ('a \<Rightarrow> proc list \<Rightarrow> bool) \<Rightarrow> bool" where
  "hoare p P m Q \<longleftrightarrow> (\<forall>s. tickets_ok s \<and> running s p \<and> P (procs s) \<longrightarrow>
     post tickets_ok (resumed p) (m s) (\<lambda>a t. tickets_ok t \<and> running t p \<and> Q a (procs t)))"

abbreviation good :: "nat \<Rightarrow> ('z kstate_scheme, 'a) routine \<Rightarrow> bool" where
  "good p m \<equiv> hoare p (\<lambda>_. True) m (\<lambda>_ _. True)"

lemma hoareD:
  "hoare p P m Q \<Longrightarrow> tickets_ok s \<Longrightarrow> running s p \<Longrightarrow> P (procs s) \<Longrightarrow>
   post tickets_ok (resumed p) (m s) (\<lambda>a t. tickets_ok t \<and> running t p \<and> Q a (procs t))"
  by (simp add: hoare_def)

lemma hoare_quiet:
  fixes m :: "('z kstate_scheme, 'a) routine"
  assumes "quiet m"
  shows "hoare p P m (\<lambda>_. P)"
  unfolding hoare_def
proof (intro allI impI)
  fix s :: "'z kstate_scheme" assume s: "tickets_ok s \<and> running s p \<and> P (procs s)"
  show "post tickets_ok (resumed p) (m s) (\<lambda>a t. tickets_ok t \<and> running t p \<and> P (procs t))"
  proof (rule quietD [OF assms])
    fix t :: "'z kstate_scheme" assume t: "pview t = pview s"
    show "tickets_ok t \<and> running t p \<and> P (procs t)"
      using s pview_inv [OF t] pview_procs(1) [OF t] by simp
  qed
qed

lemma hoare_conseq:
  assumes "hoare p P m Q" "\<And>ps. P' ps \<Longrightarrow> P ps" "\<And>a ps. Q a ps \<Longrightarrow> Q' a ps"
  shows "hoare p P' m Q'"
  unfolding hoare_def by (intro allI impI, rule post_mono [OF hoareD [OF assms(1)]]) (use assms(2,3) in auto)

lemma hoare_weaken: "hoare p P m Q \<Longrightarrow> hoare p P m (\<lambda>_ _. True)"
  by (erule hoare_conseq) simp_all

lemma hoare_bnd:
  fixes m :: "('z kstate_scheme, 'a) routine"
  assumes "hoare p P m Q" "\<And>a. hoare p (Q a) (f a) S"
  shows "hoare p P (bnd m f) S"
  unfolding hoare_def bnd_apply post_andthen
proof (intro allI impI)
  fix s :: "'z kstate_scheme" assume "tickets_ok s \<and> running s p \<and> P (procs s)"
  then have "post tickets_ok (resumed p) (m s) (\<lambda>a t. tickets_ok t \<and> running t p \<and> Q a (procs t))"
    using assms(1) by (simp add: hoare_def)
  then show "post tickets_ok (resumed p) (m s) (\<lambda>a t. post tickets_ok (resumed p) (f a t)
      (\<lambda>a t. tickets_ok t \<and> running t p \<and> S a (procs t)))"
    by (rule post_mono) (use assms(2) in \<open>auto simp: hoare_def\<close>)
qed

lemma hoare_seq: "hoare p P m Q \<Longrightarrow> (\<And>a. hoare p (Q a) n S) \<Longrightarrow> hoare p P (seq m n) S"
  unfolding seq_def by (rule hoare_bnd)

named_theorems hoare_rules \<open>structural rules for the routines of a process\<close>

lemma good_quiet: "quiet m \<Longrightarrow> good p m"
  by (rule hoare_quiet)

lemma good_bnd [hoare_rules]: "good p m \<Longrightarrow> (\<And>a. good p (f a)) \<Longrightarrow> good p (bnd m f)"
  by (rule hoare_bnd)

lemma good_seq [hoare_rules]: "good p m \<Longrightarrow> good p n \<Longrightarrow> good p (seq m n)"
  by (rule hoare_seq)

lemma good_if [hoare_rules]: "good p m \<Longrightarrow> good p n \<Longrightarrow> good p (if b then m else n)"
  by simp

lemma good_doif [hoare_rules]: "good p m \<Longrightarrow> good p (doif b m)"
  by (simp add: doif_def good_quiet quiet_ret)

lemma good_option [hoare_rules]:
  "good p m \<Longrightarrow> (\<And>y. good p (n y)) \<Longrightarrow> good p (case x of None \<Rightarrow> m | Some y \<Rightarrow> n y)"
  by (cases x) auto

lemma good_loop [hoare_rules]: "(\<And>x. good p (body x)) \<Longrightarrow> good p (loop n x body)"
proof (induction n arbitrary: x)
  case (Suc n)
  then show ?case unfolding loop.simps by (intro good_bnd) (auto split: sum.split intro: good_quiet quiet_ret)
qed (simp only: loop.simps good_quiet quiet_stuck)

text \<open>Branching on the process table, and the current process.\<close>

lemma hoare_gets:
  "(\<And>s. tickets_ok s \<Longrightarrow> running s p \<Longrightarrow> P (procs s) \<Longrightarrow> hoare p (\<lambda>ps. ps = procs s) (f (g s)) Q) \<Longrightarrow>
   hoare p P (bnd (gets g) f) Q"
  unfolding hoare_def bnd_apply gets_apply andthen.simps by blast

lemma myproc_cur: "post G R (myproc s) (\<lambda>a t. a = cur s)"
proof (cases "this_cpu s")
  case None
  let ?t = "s\<lparr>hw_IF := (hw_IF s)(hw_cpu s := False)\<rparr>"
  have "this_cpu ?t = None" using None by (subst this_cpu_frame [of ?t s]) simp_all
  moreover have "\<not> readeflags_IF ?t" by (simp add: readeflags_IF_def)
  ultimately have "pushcli s = Panics (''unknown apicid'' @ [CHR 0x0A])"
    by (simp add: pushcli_def cli_def mycpu_def)
  then show ?thesis by (simp add: myproc_def)
next
  case (Some c)
  have "cproc (cpus (pushed c s) ! c) = cproc (cpus s ! c)"
    using this_cpu_bound [OF Some] by (simp add: cpus_pushed)
  moreover have "post G R (popcli t) (\<lambda>_ _. True)" for t
    by (rule quietD [OF quiet_popcli]) simp
  ultimately show ?thesis using Some by (simp add: myproc_def pushcli_eq mycpu_eq cur_def)
qed

lemma post_conj: "post G R r Q \<Longrightarrow> post G R r S \<Longrightarrow> post G R r (\<lambda>a t. Q a t \<and> S a t)"
  by (induction r) auto

lemma hoare_myproc:
  fixes f :: "nat option \<Rightarrow> ('z kstate_scheme, 'a) routine"
  assumes "hoare p P (f (Some p)) Q"
  shows "hoare p P (bnd myproc f) Q"
  unfolding hoare_def bnd_apply post_andthen
proof (intro allI impI)
  fix s :: "'z kstate_scheme" assume s: "tickets_ok s \<and> running s p \<and> P (procs s)"
  then have "post tickets_ok (resumed p) (myproc s) (\<lambda>a t. tickets_ok t \<and> running t p \<and> P (procs t))"
    by (intro hoareD [OF hoare_quiet [OF quiet_myproc]]) simp_all
  from post_conj [OF myproc_cur this]
  have "post tickets_ok (resumed p) (myproc s) (\<lambda>a t. a = Some p \<and> tickets_ok t \<and> running t p \<and> P (procs t))"
    using s by (simp add: running_def)
  then show "post tickets_ok (resumed p) (myproc s) (\<lambda>a t. post tickets_ok (resumed p) (f a t)
      (\<lambda>a t. tickets_ok t \<and> running t p \<and> Q a (procs t)))"
    by (rule post_mono) (auto intro: hoareD [OF assms])
qed

lemma hoare_curproc [hoare_rules]: "hoare p P (f p) Q \<Longrightarrow> hoare p P (bnd curproc f) Q"
  unfolding curproc_def bnd_assoc by (rule hoare_myproc) (simp add: bnd_def)

section \<open>Giving up the processor\<close>

lemma post_quiet_bnd:
  assumes "quiet m" "\<And>a t. pview t = pview s \<Longrightarrow> post G R (f a t) Q"
  shows "post G R (bnd m f s) Q"
  unfolding bnd_apply post_andthen by (rule quietD [OF assms(1)]) (rule assms(2))

lemma post_quiet_seq: "quiet m \<Longrightarrow> (\<And>t. pview t = pview s \<Longrightarrow> post G R (n t) Q) \<Longrightarrow> post G R (seq m n s) Q"
  unfolding seq_def by (rule post_quiet_bnd)

lemma post_modify_seq: "post G R (n (f s)) Q \<Longrightarrow> post G R (seq (modify f) n s) Q"
  by simp

lemma post_if: "(b \<Longrightarrow> post G R (m s) Q) \<Longrightarrow> (\<not> b \<Longrightarrow> post G R (n s) Q) \<Longrightarrow> post G R ((if b then m else n) s) Q"
  by simp

lemma post_panic: "post G R (panic e s) Q"
  by simp

lemma post_switch_seq: "G s \<Longrightarrow> (\<And>u. R s u \<Longrightarrow> post G R (n u) Q) \<Longrightarrow> post G R (seq switch n s) Q"
  by simp

lemma post_curproc_bnd:
  assumes "cur s = Some p" "\<And>t. pview t = pview s \<Longrightarrow> post G R (f p t) Q"
  shows "post G R (bnd curproc f s) Q"
proof -
  have "post G R (myproc s) (\<lambda>a t. a = Some p \<and> pview t = pview s)"
    using post_conj [OF myproc_cur quietD [OF quiet_myproc, of s "\<lambda>_ t. pview t = pview s"]] assms(1) by simp
  then show ?thesis
    unfolding curproc_def bnd_apply post_andthen by (rule post_mono) (auto simp: assms(2))
qed

text \<open>\<^verbatim>\<open>sched\<close> is called with the state of the process already changed.\<close>

lemma tickets_time: "tickets_ok s \<Longrightarrow> tickets_ok (upd_proc p (\<lambda>x. x\<lparr>totalCBT := f x\<rparr>) s)"
  "tickets_ok s \<Longrightarrow> tickets_ok (upd_proc p (\<lambda>x. x\<lparr>lastChangeTime := g x\<rparr>) s)"
  by (rule tickets_upd_same; simp add: weight_def)+

lemma sched_switch_post:
  assumes "tickets_ok s" "cur s = Some p"
  shows "post tickets_ok (resumed p) (sched_switch p s) (\<lambda>_ t. tickets_ok t \<and> running t p)"
proof -
  have inv: "tickets_ok w" "cur w = Some p" if "pview w = pview s" for w
    using assms pview_inv(1) [OF that] pview_cur [OF that] by simp_all
  have resume: "tickets_ok (upd_cpu c (intena_update f) t) \<and> running (upd_cpu c (intena_update f) t) p"
    if "pview w = pview s" "resumed p w v" "pview t = pview v" for w v t c f
  proof -
    have "pview (upd_cpu c (intena_update f) t) = pview v"
      using pview_upd_cpu [of "intena_update f" c t] that(3) by simp
    from pview_inv [OF this] show ?thesis using that(2) inv(2) [OF that(1)] by (simp add: resumed_def)
  qed
  show ?thesis unfolding sched_switch_def
    by (intro post_quiet_bnd post_if post_panic post_switch_seq quiet_rules) (auto intro: inv dest: resume)
qed

lemma sched_post:
  assumes "tickets_ok s" "cur s = Some p"
  shows "post tickets_ok (resumed p) (sched s) (\<lambda>_ t. tickets_ok t \<and> running t p)"
  unfolding sched_def
proof (rule post_curproc_bnd [OF assms(2)], intro post_modify_seq sched_switch_post)
  fix t assume t: "pview t = pview s"
  show "tickets_ok (upd_proc p (\<lambda>x. x\<lparr>lastChangeTime := ticks
      (upd_proc p (\<lambda>x. x\<lparr>totalCBT := totalCBT x + (ticks t - lastChangeTime x)\<rparr>) t)\<rparr>)
      (upd_proc p (\<lambda>x. x\<lparr>totalCBT := totalCBT x + (ticks t - lastChangeTime x)\<rparr>) t))"
    using assms(1) pview_inv(1) [OF t] by (simp add: tickets_time)
qed (simp add: assms(2) pview_cur)

text \<open>Changing the caller's slot and entering the scheduler.\<close>

lemma good_enter_sched:
  fixes f :: "'z kstate_scheme \<Rightarrow> 'z kstate_scheme"
  assumes "\<And>s. tickets_ok s \<Longrightarrow> running s p \<Longrightarrow> tickets_ok (f s) \<and> cur (f s) = Some p"
  shows "good p (seq (modify f) sched)"
  unfolding hoare_def
proof (intro allI impI post_modify_seq)
  fix s :: "'z kstate_scheme" assume "tickets_ok s \<and> running s p \<and> True"
  then have "tickets_ok (f s)" "cur (f s) = Some p" using assms by auto
  from sched_post [OF this] show "post tickets_ok (resumed p) (sched (f s)) (\<lambda>a t. tickets_ok t \<and> running t p \<and> True)"
    by simp
qed

lemma good_modify: "(\<And>s. pview (f s) = pview s) \<Longrightarrow> good p (modify f)"
  by (rule good_quiet, rule quiet_modify)

lemma nth_upd_same: "(\<And>x. g (f x) = g x) \<Longrightarrow> g (xs[q := f (xs ! q)] ! p) = g (xs ! p)"
  by (cases "q < length xs"; cases "p = q") (simp_all add: list_update_beyond)

lemma good_upd_proc:
  assumes "\<And>x. state (f x) = state x" "\<And>x. ticketCount (f x) = ticketCount x"
  shows "good p (modify (upd_proc q f))"
  unfolding hoare_def
  by (auto simp: running_def tickets_upd_same weight_def assms nth_upd_same [where g = state])

lemma good_gets_upd_proc:
  assumes "\<And>s x. state (f s x) = state x" "\<And>s x. ticketCount (f s x) = ticketCount x"
  shows "good p (modify (\<lambda>s. upd_proc q (f s) s))"
  unfolding hoare_def
  by (auto simp: running_def tickets_upd_same weight_def assms nth_upd_same [where g = state])

lemma running_weight: "running s p \<Longrightarrow> weight (procs s ! p) = ticketCount (procs s ! p)"
  by (simp add: running_def weight_def counted_def)

lemma yield_enter:
  assumes "tickets_ok s" "running s p"
  shows "tickets_ok (upd_proc p (\<lambda>x. x\<lparr>state := RUNNABLE\<rparr>) s) \<and>
    cur (upd_proc p (\<lambda>x. x\<lparr>state := RUNNABLE\<rparr>) s) = Some p"
  using assms tickets_upd_same [OF assms(1), of "\<lambda>x. x\<lparr>state := RUNNABLE\<rparr>" p]
  by (simp add: running_weight) (simp add: weight_def counted_def running_def)

text \<open>Leaving the set of counted processes, as \<^verbatim>\<open>sleep\<close> and \<^verbatim>\<open>exit\<close> do.\<close>

lemma leave_enter:
  assumes "tickets_ok s" "running s p" "\<not> counted st"
  shows "tickets_ok ((upd_proc p (\<lambda>x. x\<lparr>state := st\<rparr>) s)\<lparr>totalTicketCount :=
      totalTicketCount s - ticketCount (procs s ! p)\<rparr>) \<and>
    cur ((upd_proc p (\<lambda>x. x\<lparr>state := st\<rparr>) s)\<lparr>totalTicketCount :=
      totalTicketCount s - ticketCount (procs s ! p)\<rparr>) = Some p"
proof (intro conjI tickets_upd)
  show "totalTicketCount s - ticketCount (procs s ! p) = totalTicketCount s - weight (procs s ! p) +
      weight ((procs s ! p)\<lparr>state := st\<rparr>)"
    using assms running_weight [OF assms(2)] by (simp add: weight_def)
qed (use assms in \<open>simp_all add: running_def\<close>)

lemma good_locks [hoare_rules]: "good p (acquire l)" "good p (release l)" "good p pushcli" "good p popcli"
  "good p mycpu" "good p myproc" "good p (holding l)" "good p (initlock l nm)"
  by (rule good_quiet, intro quiet_rules)+

lemma good_gets [hoare_rules]: "good p (gets f)" and good_ret [hoare_rules]: "good p (ret a)"
  and good_panic [hoare_rules]: "good p (panic e)" and good_stuck [hoare_rules]: "good p (stuck e)"
  by (rule good_quiet, intro quiet_rules)+

lemma good_yield [hoare_rules]: "good p yield"
proof -
  have eq: "yield = seq (acquire PtableLock) (bnd curproc (\<lambda>p.
      seq (seq (modify (upd_proc p (\<lambda>x. x\<lparr>state := RUNNABLE\<rparr>))) sched) (release PtableLock)))"
    by (simp only: yield_def seq_assoc)
  show ?thesis unfolding eq by (intro good_seq hoare_curproc good_locks good_enter_sched yield_enter)
qed

lemma good_maybe_yield [hoare_rules]: "good p maybe_yield"
  unfolding maybe_yield_def by (intro hoare_rules)

lemma good_sleep [hoare_rules]: "good p (sleep ch lk)"
proof -
  have eq: "sleep ch lk = bnd myproc (\<lambda>p0. case p0 of None \<Rightarrow> panic ''sleep'' | Some p \<Rightarrow>
      seq (doif (lk \<noteq> PtableLock) (seq (acquire PtableLock) (release lk))) (
      seq (modify (upd_proc p (\<lambda>x. x\<lparr>chan := Some ch\<rparr>))) (
      seq (seq (modify (\<lambda>s. (upd_proc p (\<lambda>x. x\<lparr>state := SLEEPING\<rparr>) s)\<lparr>totalTicketCount :=
             totalTicketCount s - ticketCount (procs s ! p)\<rparr>)) sched) (
      seq (modify (upd_proc p (\<lambda>x. x\<lparr>chan := None\<rparr>)))
        (doif (lk \<noteq> PtableLock) (seq (release PtableLock) (acquire lk)))))))"
    by (simp only: sleep_def seq_assoc)
  show ?thesis unfolding eq
    by (rule hoare_myproc, simp only: option.case,
        intro good_seq good_doif good_locks good_upd_proc good_enter_sched leave_enter)
      (simp_all add: counted_def)
qed


section \<open>Waking, reaping and creating processes\<close>

lemma hoare_modify:
  assumes "\<And>s. tickets_ok s \<Longrightarrow> running s p \<Longrightarrow> P (procs s) \<Longrightarrow>
    tickets_ok (f s) \<and> running (f s) p \<and> Q (procs (f s))"
  shows "hoare p P (modify f) (\<lambda>_. Q)"
  using assms by (simp add: hoare_def)

lemma hoare_getsR:
  assumes "\<And>s. tickets_ok s \<Longrightarrow> running s p \<Longrightarrow> P (procs s) \<Longrightarrow> R (g s) (procs s)"
    "\<And>a. hoare p (R a) (f a) Q"
  shows "hoare p P (bnd (gets g) f) Q"
  using assms unfolding hoare_def bnd_apply gets_apply andthen.simps by blast

lemma hoare_ignore: "good p m \<Longrightarrow> hoare p P m (\<lambda>_ _. True)"
  by (erule hoare_conseq) simp_all

lemma good_for_each:
  assumes "\<And>x. x \<in> set xs \<Longrightarrow> good p (f x)"
  shows "good p (for_each xs f)"
  using assms
proof (induction xs)
  case (Cons x xs)
  then show ?case unfolding for_each.simps by (intro good_seq) simp_all
qed (simp only: for_each.simps good_ret)

text \<open>A slot in a given state.\<close>

definition slot :: "nat \<Rightarrow> procstate \<Rightarrow> proc list \<Rightarrow> bool" where
  "slot q st ps \<longleftrightarrow> q < NPROC \<and> state (ps ! q) = st"

lemma running_other: "running s p \<Longrightarrow> q \<noteq> p \<Longrightarrow> running (upd_proc q f s) p"
  by (simp add: running_def)

lemma running_other_total:
  "running s p \<Longrightarrow> q \<noteq> p \<Longrightarrow> running ((upd_proc q f s)\<lparr>totalTicketCount := w\<rparr>) p"
  by (simp add: running_def)

lemma make_runnable_ok:
  assumes "tickets_ok s" "running s p" "slot q st (procs s)" "\<not> counted st"
  shows "tickets_ok (make_runnable q s) \<and> running (make_runnable q s) p"
  unfolding make_runnable_def
proof (intro conjI tickets_upd running_other_total)
  show "totalTicketCount s + ticketCount (procs s ! q) = totalTicketCount s - weight (procs s ! q) +
      weight ((procs s ! q)\<lparr>state := RUNNABLE, lastChangeTime := ticks s\<rparr>)"
    using assms(3,4) by (simp add: weight_def slot_def counted_def)
  show "q \<noteq> p" using assms by (auto simp: slot_def running_def counted_def)
qed (use assms in \<open>simp_all add: slot_def\<close>)

lemma hoare_make_runnable: "\<not> counted st \<Longrightarrow> hoare p (slot q st) (modify (make_runnable q)) (\<lambda>_ _. True)"
  by (rule hoare_modify) (simp add: make_runnable_ok)

lemma good_wakeup1 [hoare_rules]: "good p (wakeup1 ch)"
  unfolding wakeup1_def
proof (rule good_for_each)
  fix q assume "q \<in> set [0..<NPROC]"
  then show "good p (modify (\<lambda>s. if state (procs s ! q) = SLEEPING \<and> chan (procs s ! q) = Some ch
      then make_runnable q s else s))"
    by (intro hoare_modify) (auto simp: make_runnable_ok slot_def counted_def)
qed

lemma good_wakeup [hoare_rules]: "good p (wakeup ch)"
  unfolding wakeup_def by (intro hoare_rules)

text \<open>Writing fields of a slot that the accounting does not read.\<close>

lemma hoare_upd_slot:
  assumes "\<And>s x. state (f s x) = state x" "\<And>s x. ticketCount (f s x) = ticketCount x"
  shows "hoare p (slot q st) (modify (\<lambda>s. upd_proc r (f s) s)) (\<lambda>_. slot q st)"
  by (rule hoare_modify)
    (simp add: running_def slot_def tickets_upd_same weight_def assms nth_upd_same [where g = state])

lemma hoare_quiet_seq: "quiet m \<Longrightarrow> hoare p P n Q \<Longrightarrow> hoare p P (seq m n) Q"
  by (rule hoare_seq, erule hoare_quiet) simp

lemma hoare_quiet_bnd: "quiet m \<Longrightarrow> (\<And>a. hoare p P (f a) Q) \<Longrightarrow> hoare p P (bnd m f) Q"
  by (rule hoare_bnd, erule hoare_quiet) simp

lemma hoare_slot_seq:
  assumes "\<And>s x. state (f s x) = state x" "\<And>s x. ticketCount (f s x) = ticketCount x"
    "hoare p (slot q st) n Q"
  shows "hoare p (slot q st) (seq (modify (\<lambda>s. upd_proc r (f s) s)) n) Q"
  by (rule hoare_seq, rule hoare_upd_slot) (use assms in simp_all)

text \<open>Changing the state of an uncounted slot.\<close>

lemma hoare_restate:
  assumes "\<And>s x. state (f s x) = st'" "\<not> counted st" "\<not> counted st'"
  shows "hoare p (slot q st) (modify (\<lambda>s. upd_proc q (f s) s)) (\<lambda>_. slot q st')"
proof (rule hoare_modify)
  fix s :: "'a kstate_scheme" assume s: "tickets_ok s" "running s p" "slot q st (procs s)"
  then have "q \<noteq> p" using assms(2) by (auto simp: slot_def running_def counted_def)
  then show "tickets_ok (upd_proc q (f s) s) \<and> running (upd_proc q (f s) s) p \<and> slot q st' (procs (upd_proc q (f s) s))"
    using s assms tickets_upd_same [OF s(1), of "f s" q]
    by (auto simp: slot_def running_other weight_def tickets_ok_def [of s])
qed

lemma hoare_fact: "(A \<Longrightarrow> good p m) \<Longrightarrow> hoare p (\<lambda>_. A) m (\<lambda>_ _. True)"
  by (simp add: hoare_def)

lemma good_kill [hoare_rules]: "good p (kill k)"
proof -
  have wake: "hoare p (\<lambda>ps. b \<longrightarrow> slot q SLEEPING ps) (doif b (modify (make_runnable q))) (\<lambda>_ _. True)" for b q
    by (cases b) (simp_all add: doif_def hoare_ignore [OF good_ret] hoare_make_runnable counted_def)
  have sleeping: "good p (bnd (gets (\<lambda>s. state (procs s ! q) = SLEEPING)) (\<lambda>sleeping.
      seq (doif sleeping (modify (make_runnable q))) (
      seq (release PtableLock) (seq (doif sleeping maybe_yield) (ret 0)))))" if "q < NPROC" for q
    by (rule hoare_getsR [where R = "\<lambda>b ps. b \<longrightarrow> slot q SLEEPING ps"], use that in \<open>simp add: slot_def\<close>,
        rule hoare_seq [OF wake], intro hoare_rules)
  show ?thesis unfolding kill_def
  proof (rule good_seq [OF good_locks(1)],
      rule hoare_getsR [where R = "\<lambda>sl ps. \<forall>q. sl = Some q \<longrightarrow> q < NPROC"], goal_cases)
    case (1 s)
    then show ?case by (auto simp: tickets_ok_def dest: find_idx_SomeD)
  next
    case (2 sl)
    show ?case
    proof (cases sl)
      case None
      show ?thesis unfolding None option.case by (rule hoare_ignore, intro hoare_rules)
    next
      case (Some q)
      show ?thesis unfolding Some option.case
        by (rule hoare_fact, intro good_seq good_upd_proc sleeping) simp_all
    qed
  qed
qed


lemma hoare_reap_child: "hoare p (slot q ZOMBIE) (reap_child arg q) (\<lambda>_ _. True)"
proof -
  have "hoare p (slot q ZOMBIE) (seq (modify (upd_proc q cleared)) (seq (release PtableLock) (ret k))) (\<lambda>_ _. True)"
    for k :: u32
    by (rule hoare_seq, rule hoare_restate [where st' = UNUSED], simp add: cleared_def,
        simp_all only: counted_def procstate.distinct simp_thms, rule hoare_ignore, intro hoare_rules)
  note end_step = this
  show ?thesis unfolding reap_child_def
    by (rule hoare_quiet_bnd [OF quiet_gets], rule hoare_quiet_seq, intro quiet_rules,
        rule hoare_quiet_seq [OF quiet_kfree], rule hoare_slot_seq, simp, simp,
        rule hoare_quiet_seq [OF quiet_freevm], rule end_step)
qed

lemma hoare_reap_thread: "hoare p (slot q ZOMBIE) (reap_thread cp q) (\<lambda>_ _. True)"
proof -
  have "hoare p (slot q ZOMBIE) (seq (modify (upd_proc q cleared)) (seq (release PtableLock) (ret k))) (\<lambda>_ _. True)"
    for k :: u32
    by (rule hoare_seq, rule hoare_restate [where st' = UNUSED], simp add: cleared_def,
        simp_all only: counted_def procstate.distinct simp_thms, rule hoare_ignore, intro hoare_rules)
  note end_step = this
  show ?thesis unfolding reap_thread_def
    by (rule hoare_quiet_bnd [OF quiet_gets], rule hoare_quiet_bnd [OF quiet_gets],
        rule hoare_quiet_seq [OF quiet_kfree], rule hoare_slot_seq, simp, simp,
        rule hoare_quiet_seq [OF quiet_freethread], rule end_step)
qed

lemma hoare_then_ret: "hoare p P m (\<lambda>_ _. True) \<Longrightarrow> hoare p P (bnd m (\<lambda>r. ret (g r))) (\<lambda>_ _. True)"
  by (erule hoare_bnd) (rule good_ret)

lemma good_diagwait [hoare_rules]: "good p (diagwait n arg)"
  unfolding diagwait_def
proof (intro hoare_curproc good_seq good_locks good_loop, rule hoare_getsR [where R = "(=)"])
  fix ps :: "proc list"
  let ?z = "find_idx (\<lambda>x. is_child p x \<and> state x = ZOMBIE) ps"
  show "hoare p ((=) ps) (case ?z of
        None \<Rightarrow> if (\<forall>x \<in> set ps. \<not> is_child p x) \<or> killed (ps ! p) then seq (release PtableLock) (ret (Inr (-1)))
          else seq (sleep (ChanProc p) PtableLock) (ret (Inl ()))
      | Some q \<Rightarrow> bnd (reap_child arg q) (\<lambda>r. ret (Inr r))) (\<lambda>_ _. True)"
  proof (cases ?z)
    case None
    show ?thesis unfolding None option.case by (rule hoare_ignore, intro hoare_rules)
  next
    case (Some q)
    then have z: "q < length ps" "state (ps ! q) = ZOMBIE" by (auto dest: find_idx_SomeD)
    have "hoare p (slot q ZOMBIE) (bnd (reap_child arg q) (\<lambda>r. ret (Inr r))) (\<lambda>_ _. True)"
      by (rule hoare_then_ret, rule hoare_reap_child)
    then show ?thesis unfolding Some option.case
      using z by (auto simp: hoare_def slot_def tickets_ok_def)
  qed
qed simp

lemma good_wait [hoare_rules]: "good p (wait n)"
  unfolding wait_def by (rule good_diagwait)

lemma good_thread_join [hoare_rules]: "good p (thread_join n tid)"
proof -
  have body: "hoare p ((=) ps) (case List.find (\<lambda>q. is_target ps p tid q \<and>
        (pid (ps ! q) = first_pid (ps ! q) \<or> state (ps ! q) = ZOMBIE)) [0..<length ps] of
      None \<Rightarrow> if (\<forall>q < length ps. \<not> is_target ps p tid q) \<or> killed (ps ! p)
        then seq (release PtableLock) (ret (Inr (-2)))
        else seq (sleep (ChanProc p) PtableLock) (ret (Inl ()))
    | Some q \<Rightarrow> if pid (ps ! q) = first_pid (ps ! q) then ret (Inr (-2))
        else bnd (reap_thread p q) (\<lambda>r. ret (Inr r))) (\<lambda>_ _. True)" (is "hoare p _ (case ?z of None \<Rightarrow> _ | Some q \<Rightarrow> _ q) _")
    for ps
  proof (cases ?z)
    case None
    show ?thesis unfolding None option.case by (rule hoare_ignore, intro hoare_rules)
  next
    case (Some q)
    then have q: "q < length ps" "pid (ps ! q) \<noteq> first_pid (ps ! q) \<longrightarrow> state (ps ! q) = ZOMBIE"
      by (auto simp: find_Some_iff)
    have reap: "hoare p (slot q ZOMBIE) (bnd (reap_thread p q) (\<lambda>r. ret (Inr r))) (\<lambda>_ _. True)"
      by (rule hoare_then_ret, rule hoare_reap_thread)
    show ?thesis
    proof (cases "pid (ps ! q) = first_pid (ps ! q)")
      case True
      show ?thesis unfolding Some option.case if_P [OF True] by (rule hoare_ignore, intro hoare_rules)
    next
      case False
      then show ?thesis unfolding Some option.case if_not_P [OF False]
        using q reap by (auto simp: hoare_def slot_def tickets_ok_def)
    qed
  qed
  show ?thesis unfolding thread_join_def
    by (rule hoare_curproc, rule good_bnd [OF good_gets], rule good_if [OF good_ret],
        rule good_seq [OF good_locks(1)], rule good_loop, rule hoare_getsR [where R = "(=)"], rule refl, rule body)
qed

end
