(* ===== verification/Sleeplock.thy ===== *)
theory Sleeplock
  imports Proc
begin

text \<open>
  Sleep locks (\<^verbatim>\<open>sleeplock.c\<close>). The kernel has one in every disk buffer and one in every
  cached inode; each is named by its owner. The inner spin lock and the sleep channel of a sleep
  lock are the ones that \<open>Machine\<close> names for the same owner.
\<close>

section \<open>State\<close>

datatype sleep_id = SBuf nat | SInode nat

record sleeplock =
  sl_locked :: bool
  sl_name :: string
  sl_pid :: u32

text \<open>
  \<open>wait_rounds\<close> bounds how often a loop around \<^verbatim>\<open>sleep\<close>, or one that polls a device, goes
  round before a run counts as \<open>Stuck\<close>. It is arbitrary: no routine changes it, and the
  theorems hold for every value that is large enough for the waits they talk about.
\<close>

record lstate = mstate +
  slocks :: "sleep_id \<Rightarrow> sleeplock"
  wait_rounds :: nat

primrec sl_lk :: "sleep_id \<Rightarrow> lock_id" where
  "sl_lk (SBuf b) = BufLock b"
| "sl_lk (SInode i) = InodeLock i"

primrec sl_chan :: "sleep_id \<Rightarrow> chan" where
  "sl_chan (SBuf b) = ChanBufLock b"
| "sl_chan (SInode i) = ChanInodeLock i"

definition wait_loop :: "('z lstate_scheme, unit + 'a) routine \<Rightarrow> ('z lstate_scheme, 'a) routine" where
  "wait_loop body = bnd (gets wait_rounds) (\<lambda>n. loop n () (\<lambda>_. body))"

definition upd_sl :: "sleep_id \<Rightarrow> (sleeplock \<Rightarrow> sleeplock) \<Rightarrow> 'z lstate_scheme \<Rightarrow> 'z lstate_scheme" where
  "upd_sl k f s = s\<lparr>slocks := (slocks s)(k := f (slocks s k))\<rparr>"

section \<open>Operations\<close>

definition initsleeplock :: "sleep_id \<Rightarrow> string \<Rightarrow> ('z lstate_scheme, unit) routine" where
  "initsleeplock k nm =
     seq (initlock (sl_lk k) ''sleep lock'')
       (modify (upd_sl k (\<lambda>x. x\<lparr>sl_name := nm, sl_locked := False, sl_pid := 0\<rparr>)))"

definition acquiresleep :: "sleep_id \<Rightarrow> ('z lstate_scheme, unit) routine" where
  "acquiresleep k =
     seq (acquire (sl_lk k)) (
     seq (wait_loop (
       bnd (gets (\<lambda>s. sl_locked (slocks s k))) (\<lambda>b.
       if b then seq (sleep (sl_chan k) (sl_lk k)) (ret (Inl ())) else ret (Inr ())))) (
     seq (modify (upd_sl k (\<lambda>x. x\<lparr>sl_locked := True\<rparr>))) (
     bnd curproc (\<lambda>p.
     seq (modify (\<lambda>s. upd_sl k (\<lambda>x. x\<lparr>sl_pid := pid (procs s ! p)\<rparr>) s))
       (release (sl_lk k))))))"

definition releasesleep :: "sleep_id \<Rightarrow> ('z lstate_scheme, unit) routine" where
  "releasesleep k =
     seq (acquire (sl_lk k)) (
     seq (modify (upd_sl k (\<lambda>x. x\<lparr>sl_locked := False\<rparr>))) (
     seq (modify (upd_sl k (\<lambda>x. x\<lparr>sl_pid := 0\<rparr>))) (
     seq (wakeup (sl_chan k))
       (release (sl_lk k)))))"

definition holdingsleep :: "sleep_id \<Rightarrow> ('z lstate_scheme, bool) routine" where
  "holdingsleep k =
     seq (acquire (sl_lk k)) (
     bnd (gets (\<lambda>s. slocks s k)) (\<lambda>x.
     bnd (if sl_locked x then bnd curproc (\<lambda>p. gets (\<lambda>s. sl_pid x = pid (procs s ! p))) else ret False) (\<lambda>r.
     seq (release (sl_lk k)) (ret r))))"

end
