(* ===== verification/Bio.thy ===== *)
theory Bio
  imports Sleeplock
begin

text \<open>
  The buffer cache (\<^verbatim>\<open>bio.c\<close>) and the two disk drivers it can be linked with: the
  memory disk (\<^verbatim>\<open>memide.c\<close>) and the IDE disk (\<^verbatim>\<open>ide.c\<close>).
\<close>

section \<open>State\<close>

definition BSIZE :: u32 where "BSIZE = 512"
definition NBUF :: nat where "NBUF = 30"
definition FSSIZE :: u32 where "FSSIZE = 1000"
definition B_VALID :: u32 where "B_VALID = 2"
definition B_DIRTY :: u32 where "B_DIRTY = 4"

text \<open>
  The data of a buffer or of a disk block is a memory object addressed from 0; the bytes below
  \<open>BSIZE\<close> are its contents. Copying all \<open>BSIZE\<close> bytes of one such object to another is an
  assignment of the object.
\<close>

type_synonym block = mem

record buf =
  bflags :: u32
  bdev :: u32
  blockno :: u32
  refcnt :: u32
  bprev :: nat
  bnext :: nat
  qnext :: "nat option"
  bdata :: block

text \<open>
  \<open>bufs\<close> is the array \<^verbatim>\<open>bcache.buf\<close> followed by \<^verbatim>\<open>bcache.head\<close>, so that
  a link is an index and \<open>NBUF\<close> is the list head. The sleep lock of buffer \<open>b\<close> is
  \<open>SBuf b\<close>. \<open>memfs\<close> says which driver is linked. \<open>disk\<close> and \<open>disksize\<close> are the
  memory disk, \<open>disk_writes\<close> the blocks written to it, in order. The remaining fields belong
  to the IDE driver: its variables and the 32-bit transfers on its data port.
\<close>

record bstate = lstate +
  bufs :: "buf list"
  memfs :: bool
  disk :: "u32 \<Rightarrow> block"
  disksize :: u32
  disk_writes :: "(u32 \<times> block) list"
  idequeue :: "nat option"
  havedisk1 :: bool
  port32_in :: "nat \<Rightarrow> u32"
  port32_reads :: nat
  port32_out :: "u32 list"

definition upd_buf :: "nat \<Rightarrow> (buf \<Rightarrow> buf) \<Rightarrow> 'z bstate_scheme \<Rightarrow> 'z bstate_scheme" where
  "upd_buf b f s = s\<lparr>bufs := (bufs s)[b := f (bufs s ! b)]\<rparr>"

section \<open>The memory disk\<close>

text \<open>The linked image is \<open>img\<close>, of \<open>imgsize\<close> bytes.\<close>

definition memide_init :: "(u32 \<Rightarrow> block) \<Rightarrow> u32 \<Rightarrow> ('z bstate_scheme, unit) routine" where
  "memide_init img imgsize = modify (\<lambda>s. s\<lparr>disk := img, disksize := imgsize div BSIZE\<rparr>)"

definition memide_intr :: "('z bstate_scheme, unit) routine" where
  "memide_intr = ret ()"

definition memide_rw :: "nat \<Rightarrow> ('z bstate_scheme, unit) routine" where
  "memide_rw b =
     bnd (holdingsleep (SBuf b)) (\<lambda>h.
     if \<not> h then panic ''iderw: buf not locked''
     else bnd (gets (\<lambda>s. bufs s ! b)) (\<lambda>x.
       bnd (gets disksize) (\<lambda>n.
       if bflags x AND (B_VALID OR B_DIRTY) = B_VALID then panic ''iderw: nothing to do''
       else if bdev x \<noteq> 1 then panic ''iderw: request not for disk 1''
       else if n \<le> blockno x then panic ''iderw: block out of range''
       else
         seq (if bflags x AND B_DIRTY \<noteq> 0 then
                seq (modify (upd_buf b (\<lambda>y. y\<lparr>bflags := bflags y AND NOT B_DIRTY\<rparr>)))
                  (modify (\<lambda>s. s\<lparr>disk := (disk s)(blockno x := bdata (bufs s ! b)),
                     disk_writes := disk_writes s @ [(blockno x, bdata (bufs s ! b))]\<rparr>))
              else modify (\<lambda>s. upd_buf b (\<lambda>y. y\<lparr>bdata := disk s (blockno x)\<rparr>) s))
           (modify (upd_buf b (\<lambda>y. y\<lparr>bflags := bflags y OR B_VALID\<rparr>))))))"

section \<open>The IDE disk\<close>

text \<open>Whole buffers are transferred, 128 words each.\<close>

definition outsl :: "block \<Rightarrow> ('z bstate_scheme, unit) routine" where
  "outsl d = modify (\<lambda>s. s\<lparr>port32_out := port32_out s @ map (\<lambda>i. ld32 d (4 * of_nat i)) [0..<128]\<rparr>)"

primrec put_words :: "u32 list \<Rightarrow> u32 \<Rightarrow> block \<Rightarrow> block" where
  "put_words [] a d = d"
| "put_words (w # ws) a d = put_words ws (a + 4) (st32 d a w)"

definition insl :: "nat \<Rightarrow> ('z bstate_scheme, unit) routine" where
  "insl b =
     bnd (gets (\<lambda>s. map (\<lambda>i. port32_in s (port32_reads s + i)) [0..<128])) (\<lambda>ws.
     modify (\<lambda>s. (upd_buf b (\<lambda>x. x\<lparr>bdata := put_words ws 0 (bdata x)\<rparr>) s)\<lparr>port32_reads := port32_reads s + 128\<rparr>))"

definition idewait :: "bool \<Rightarrow> ('z bstate_scheme, int) routine" where
  "idewait checkerr =
     wait_loop (
       bnd (inb 0x1f7) (\<lambda>r.
       if r AND (0x80 OR 0x40) \<noteq> 0x40 then ret (Inl ())
       else ret (Inr (if checkerr \<and> r AND (0x20 OR 0x01) \<noteq> 0 then -1 else 0))))"

primrec probe_disk1 :: "nat \<Rightarrow> ('z bstate_scheme, unit) routine" where
  "probe_disk1 0 = ret ()"
| "probe_disk1 (Suc n) = bnd (inb 0x1f7) (\<lambda>r.
     if r \<noteq> 0 then modify (\<lambda>s. s\<lparr>havedisk1 := True\<rparr>) else probe_disk1 n)"

definition ide_init :: "('z bstate_scheme, unit) routine" where
  "ide_init =
     seq (initlock IdeLock ''ide'') (
     bnd (gets ncpu) (\<lambda>n.
     seq (ioapicenable 14 (of_nat n - 1)) (
     seq (idewait False) (
     seq (outb 0x1f6 (0xe0 OR push_bit 4 1)) (
     seq (probe_disk1 1000)
       (outb 0x1f6 (0xe0 OR push_bit 4 0)))))))"

text \<open>There is one sector per block.\<close>

definition idestart :: "nat option \<Rightarrow> ('z bstate_scheme, unit) routine" where
  "idestart b0 =
     (case b0 of None \<Rightarrow> panic ''idestart''
      | Some b \<Rightarrow>
        bnd (gets (\<lambda>s. bufs s ! b)) (\<lambda>x.
        if FSSIZE \<le> blockno x then panic ''incorrect blockno''
        else
          let sector = blockno x in
          seq (idewait False) (
          seq (outb 0x3f6 0) (
          seq (outb 0x1f2 1) (
          seq (outb 0x1f3 (ucast (sector AND 0xff))) (
          seq (outb 0x1f4 (ucast (drop_bit 8 sector AND 0xff))) (
          seq (outb 0x1f5 (ucast (drop_bit 16 sector AND 0xff))) (
          seq (outb 0x1f6 (ucast (0xe0 OR push_bit 4 (bdev x AND 1) OR (drop_bit 24 sector AND 0x0f)))) (
          if bflags x AND B_DIRTY \<noteq> 0 then
            seq (outb 0x1f7 0x30)
              (outsl (bdata x))
          else outb 0x1f7 0x20)))))))))"

definition ide_intr :: "('z bstate_scheme, unit) routine" where
  "ide_intr =
     seq (acquire IdeLock) (
     bnd (gets idequeue) (\<lambda>q.
     case q of None \<Rightarrow> release IdeLock
     | Some b \<Rightarrow>
         seq (modify (\<lambda>s. s\<lparr>idequeue := qnext (bufs s ! b)\<rparr>)) (
         bnd (gets (\<lambda>s. bflags (bufs s ! b))) (\<lambda>fl.
         seq (if fl AND B_DIRTY = 0 then
                bnd (idewait True) (\<lambda>r. doif (0 \<le> r) (insl b))
              else ret ()) (
         seq (modify (upd_buf b (\<lambda>x. x\<lparr>bflags := bflags x OR B_VALID\<rparr>))) (
         seq (modify (upd_buf b (\<lambda>x. x\<lparr>bflags := bflags x AND NOT B_DIRTY\<rparr>))) (
         seq (wakeup (ChanBuf b)) (
         bnd (gets idequeue) (\<lambda>q'.
         seq (doif (q' \<noteq> None) (idestart q'))
           (release IdeLock))))))))))"

text \<open>
  Appending to the queue: the walk along \<^verbatim>\<open>qnext\<close> to the first null link. The queue never holds
  more than the \<open>NBUF\<close> buffers.
\<close>

definition ide_append :: "nat \<Rightarrow> ('z bstate_scheme, unit) routine" where
  "ide_append b =
     bnd (gets idequeue) (\<lambda>q.
     case q of None \<Rightarrow> modify (\<lambda>s. s\<lparr>idequeue := Some b\<rparr>)
     | Some h \<Rightarrow>
         loop (NBUF + 1) h (\<lambda>x.
           bnd (gets (\<lambda>s. qnext (bufs s ! x))) (\<lambda>nx.
           case nx of None \<Rightarrow> seq (modify (upd_buf x (\<lambda>y. y\<lparr>qnext := Some b\<rparr>))) (ret (Inr ()))
           | Some y \<Rightarrow> ret (Inl y))))"

definition ide_rw :: "nat \<Rightarrow> ('z bstate_scheme, unit) routine" where
  "ide_rw b =
     bnd (holdingsleep (SBuf b)) (\<lambda>h.
     if \<not> h then panic ''iderw: buf not locked''
     else bnd (gets (\<lambda>s. bufs s ! b)) (\<lambda>x.
       bnd (gets havedisk1) (\<lambda>hd1.
       if bflags x AND (B_VALID OR B_DIRTY) = B_VALID then panic ''iderw: nothing to do''
       else if bdev x \<noteq> 0 \<and> \<not> hd1 then panic ''iderw: ide disk 1 not present''
       else
         seq (acquire IdeLock) (
         seq (modify (upd_buf b (\<lambda>y. y\<lparr>qnext := None\<rparr>))) (
         seq (ide_append b) (
         bnd (gets idequeue) (\<lambda>q.
         seq (doif (q = Some b) (idestart (Some b))) (
         seq (wait_loop (
           bnd (gets (\<lambda>s. bflags (bufs s ! b))) (\<lambda>fl.
           if fl AND (B_VALID OR B_DIRTY) \<noteq> B_VALID then seq (sleep (ChanBuf b) IdeLock) (ret (Inl ()))
           else ret (Inr ()))))
           (release IdeLock)))))))))"

section \<open>The linked driver\<close>

definition iderw :: "nat \<Rightarrow> ('z bstate_scheme, unit) routine" where
  "iderw b = bnd (gets memfs) (\<lambda>m. if m then memide_rw b else ide_rw b)"

section \<open>The buffer cache\<close>

text \<open>Put buffer \<open>b\<close> first: the four assignments that \<^verbatim>\<open>binit\<close> and \<^verbatim>\<open>brelse\<close>
  share.\<close>

definition link_first :: "nat \<Rightarrow> 'z bstate_scheme \<Rightarrow> 'z bstate_scheme" where
  "link_first b s =
     (let s = upd_buf b (\<lambda>x. x\<lparr>bnext := bnext (bufs s ! NBUF)\<rparr>) s;
          s = upd_buf b (\<lambda>x. x\<lparr>bprev := NBUF\<rparr>) s;
          s = upd_buf (bnext (bufs s ! NBUF)) (\<lambda>x. x\<lparr>bprev := b\<rparr>) s
      in upd_buf NBUF (\<lambda>x. x\<lparr>bnext := b\<rparr>) s)"

definition binit :: "('z bstate_scheme, unit) routine" where
  "binit =
     seq (initlock BcacheLock ''bcache'') (
     seq (modify (upd_buf NBUF (\<lambda>x. x\<lparr>bprev := NBUF\<rparr>))) (
     seq (modify (upd_buf NBUF (\<lambda>x. x\<lparr>bnext := NBUF\<rparr>)))
       (for_each [0..<NBUF] (\<lambda>b. seq (initsleeplock (SBuf b) ''buffer'') (modify (link_first b))))))"

text \<open>The walk from the head along one of the two links to the first buffer with a property.\<close>

definition bfind :: "(buf \<Rightarrow> nat) \<Rightarrow> (buf \<Rightarrow> bool) \<Rightarrow> ('z bstate_scheme, nat option) routine" where
  "bfind link P =
     bnd (gets (\<lambda>s. link (bufs s ! NBUF))) (\<lambda>b0.
     loop (NBUF + 1) b0 (\<lambda>b.
       if b = NBUF then ret (Inr None)
       else bnd (gets (\<lambda>s. bufs s ! b)) (\<lambda>x. ret (if P x then Inr (Some b) else Inl (link x)))))"

definition bget :: "u32 \<Rightarrow> u32 \<Rightarrow> ('z bstate_scheme, nat) routine" where
  "bget dv bn =
     seq (acquire BcacheLock) (
     bnd (bfind bnext (\<lambda>x. bdev x = dv \<and> blockno x = bn)) (\<lambda>hit.
     case hit of
       Some b \<Rightarrow>
         seq (modify (upd_buf b (\<lambda>x. x\<lparr>refcnt := refcnt x + 1\<rparr>))) (
         seq (release BcacheLock) (
         seq (acquiresleep (SBuf b)) (ret b)))
     | None \<Rightarrow>
         bnd (bfind bprev (\<lambda>x. refcnt x = 0 \<and> bflags x AND B_DIRTY = 0)) (\<lambda>victim.
         case victim of
           Some b \<Rightarrow>
             seq (modify (upd_buf b (\<lambda>x. x\<lparr>bdev := dv, blockno := bn, bflags := 0, refcnt := 1\<rparr>))) (
             seq (release BcacheLock) (
             seq (acquiresleep (SBuf b)) (ret b)))
         | None \<Rightarrow> panic ''bget: no buffers'')))"

definition bread :: "u32 \<Rightarrow> u32 \<Rightarrow> ('z bstate_scheme, nat) routine" where
  "bread dv bn =
     bnd (bget dv bn) (\<lambda>b.
     bnd (gets (\<lambda>s. bflags (bufs s ! b))) (\<lambda>fl.
     seq (doif (fl AND B_VALID = 0) (iderw b)) (ret b)))"

definition bwrite :: "nat \<Rightarrow> ('z bstate_scheme, unit) routine" where
  "bwrite b =
     bnd (holdingsleep (SBuf b)) (\<lambda>h.
     if \<not> h then panic ''bwrite''
     else
       seq (modify (upd_buf b (\<lambda>x. x\<lparr>bflags := bflags x OR B_DIRTY\<rparr>)))
         (iderw b))"

definition brelse :: "nat \<Rightarrow> ('z bstate_scheme, unit) routine" where
  "brelse b =
     bnd (holdingsleep (SBuf b)) (\<lambda>h.
     if \<not> h then panic ''brelse''
     else
       seq (releasesleep (SBuf b)) (
       seq (acquire BcacheLock) (
       seq (modify (upd_buf b (\<lambda>x. x\<lparr>refcnt := refcnt x - 1\<rparr>))) (
       bnd (gets (\<lambda>s. refcnt (bufs s ! b))) (\<lambda>r.
       seq (doif (r = 0) (
         seq (modify (\<lambda>s. upd_buf (bnext (bufs s ! b)) (\<lambda>x. x\<lparr>bprev := bprev (bufs s ! b)\<rparr>) s)) (
         seq (modify (\<lambda>s. upd_buf (bprev (bufs s ! b)) (\<lambda>x. x\<lparr>bnext := bnext (bufs s ! b)\<rparr>) s))
           (modify (link_first b)))))
         (release BcacheLock))))))"

end
