(* ===== verification/Log.thy ===== *)
theory Log
  imports Bio
begin

text \<open>
  The redo log (\<^verbatim>\<open>log.c\<close>), with the super block it reads at start-up (\<^verbatim>\<open>readsb\<close> of
  \<^verbatim>\<open>fs.c\<close>). This theory holds the definitions.
\<close>

section \<open>State\<close>

definition MAXOPBLOCKS :: nat where "MAXOPBLOCKS = 10"
definition LOGSIZE :: nat where "LOGSIZE = MAXOPBLOCKS * 3"

record superblock =
  sb_size :: u32
  sb_nblocks :: u32
  sb_ninodes :: u32
  sb_nlog :: u32
  sb_logstart :: u32
  sb_inodestart :: u32
  sb_bmapstart :: u32

record logheader =
  lh_n :: int
  lh_block :: "u32 list"

record log =
  lg_start :: u32
  lg_size :: int
  lg_outstanding :: int
  lg_committing :: bool
  lg_dev :: u32
  lg_lh :: logheader

record gstate = bstate +
  klog :: log

definition upd_log :: "(log \<Rightarrow> log) \<Rightarrow> 'z gstate_scheme \<Rightarrow> 'z gstate_scheme" where
  "upd_log f s = s\<lparr>klog := f (klog s)\<rparr>"

definition set_n :: "int \<Rightarrow> log \<Rightarrow> log" where
  "set_n n l = l\<lparr>lg_lh := (lg_lh l)\<lparr>lh_n := n\<rparr>\<rparr>"

section \<open>The super block\<close>

definition get_superblock :: "block \<Rightarrow> superblock" where
  "get_superblock d = \<lparr>sb_size = ld32 d 0, sb_nblocks = ld32 d 4, sb_ninodes = ld32 d 8,
     sb_nlog = ld32 d 12, sb_logstart = ld32 d 16, sb_inodestart = ld32 d 20, sb_bmapstart = ld32 d 24\<rparr>"

definition readsb :: "u32 \<Rightarrow> ('z bstate_scheme, superblock) routine" where
  "readsb dv =
     bnd (bread dv 1) (\<lambda>bp.
     bnd (gets (\<lambda>s. get_superblock (bdata (bufs s ! bp)))) (\<lambda>x.
     seq (brelse bp) (ret x)))"

section \<open>Header and data blocks\<close>

definition install_trans :: "('z gstate_scheme, unit) routine" where
  "install_trans =
     bnd (gets klog) (\<lambda>l.
     for_each [0..<nat (lh_n (lg_lh l))] (\<lambda>tail.
       bnd (bread (lg_dev l) (lg_start l + of_nat tail + 1)) (\<lambda>lbuf.
       bnd (bread (lg_dev l) (lh_block (lg_lh l) ! tail)) (\<lambda>dbuf.
       seq (modify (\<lambda>s. upd_buf dbuf (\<lambda>x. x\<lparr>bdata := bdata (bufs s ! lbuf)\<rparr>) s)) (
       seq (bwrite dbuf) (
       seq (brelse lbuf)
         (brelse dbuf)))))))"

definition read_head :: "('z gstate_scheme, unit) routine" where
  "read_head =
     bnd (gets klog) (\<lambda>l.
     bnd (bread (lg_dev l) (lg_start l)) (\<lambda>bp.
     bnd (gets (\<lambda>s. bdata (bufs s ! bp))) (\<lambda>d.
     seq (modify (upd_log (set_n (sint (ld32 d 0))))) (
     if int LOGSIZE < sint (ld32 d 0) then stuck ''out of bounds''
     else
       seq (for_each [0..<nat (sint (ld32 d 0))] (\<lambda>i.
         modify (upd_log (\<lambda>l. l\<lparr>lg_lh := (lg_lh l)\<lparr>lh_block := (lh_block (lg_lh l))[i := ld32 d (4 * of_nat i + 4)]\<rparr>\<rparr>))))
         (brelse bp)))))"

definition put_head :: "logheader \<Rightarrow> block \<Rightarrow> block" where
  "put_head h d = put_words (take (nat (lh_n h)) (lh_block h)) 4 (st32 d 0 (of_int (lh_n h)))"

definition write_head :: "('z gstate_scheme, unit) routine" where
  "write_head =
     bnd (gets klog) (\<lambda>l.
     bnd (bread (lg_dev l) (lg_start l)) (\<lambda>bp.
     seq (modify (upd_buf bp (\<lambda>x. x\<lparr>bdata := put_head (lg_lh l) (bdata x)\<rparr>))) (
     seq (bwrite bp)
       (brelse bp))))"

definition recover_from_log :: "('z gstate_scheme, unit) routine" where
  "recover_from_log =
     seq read_head (
     seq install_trans (
     seq (modify (upd_log (set_n 0)))
       write_head))"

text \<open>The header of 124 bytes fits in a block, so the test of its size has no counterpart.\<close>

definition initlog :: "u32 \<Rightarrow> ('z gstate_scheme, unit) routine" where
  "initlog dv =
     seq (initlock LogLock ''log'') (
     bnd (readsb dv) (\<lambda>x.
     seq (modify (upd_log (\<lambda>l. l\<lparr>lg_start := sb_logstart x, lg_size := sint (sb_nlog x), lg_dev := dv\<rparr>)))
       recover_from_log))"

definition write_log :: "('z gstate_scheme, unit) routine" where
  "write_log =
     bnd (gets klog) (\<lambda>l.
     for_each [0..<nat (lh_n (lg_lh l))] (\<lambda>tail.
       bnd (bread (lg_dev l) (lg_start l + of_nat tail + 1)) (\<lambda>to.
       bnd (bread (lg_dev l) (lh_block (lg_lh l) ! tail)) (\<lambda>from.
       seq (modify (\<lambda>s. upd_buf to (\<lambda>x. x\<lparr>bdata := bdata (bufs s ! from)\<rparr>) s)) (
       seq (bwrite to) (
       seq (brelse from)
         (brelse to)))))))"

definition commit :: "('z gstate_scheme, unit) routine" where
  "commit =
     bnd (gets (\<lambda>s. lh_n (lg_lh (klog s)))) (\<lambda>n.
     doif (0 < n) (
       seq write_log (
       seq write_head (
       seq install_trans (
       seq (modify (upd_log (set_n 0)))
         write_head)))))"

section \<open>Transactions\<close>

definition begin_op :: "('z gstate_scheme, unit) routine" where
  "begin_op =
     seq (acquire LogLock) (
     wait_loop (
       bnd (gets klog) (\<lambda>l.
       if lg_committing l then seq (sleep ChanLog LogLock) (ret (Inl ()))
       else if int LOGSIZE < lh_n (lg_lh l) + (lg_outstanding l + 1) * int MAXOPBLOCKS then
         seq (sleep ChanLog LogLock) (ret (Inl ()))
       else
         seq (modify (upd_log (\<lambda>l. l\<lparr>lg_outstanding := lg_outstanding l + 1\<rparr>))) (
         seq (release LogLock) (ret (Inr ()))))))"

definition end_op :: "('z gstate_scheme, unit) routine" where
  "end_op =
     seq (acquire LogLock) (
     seq (modify (upd_log (\<lambda>l. l\<lparr>lg_outstanding := lg_outstanding l - 1\<rparr>))) (
     bnd (gets klog) (\<lambda>l.
     if lg_committing l then panic ''log.committing''
     else
       seq (if lg_outstanding l = 0 then modify (upd_log (\<lambda>l. l\<lparr>lg_committing := True\<rparr>))
            else wakeup ChanLog) (
       seq (release LogLock) (
       doif (lg_outstanding l = 0) (
         seq commit (
         seq (acquire LogLock) (
         seq (modify (upd_log (\<lambda>l. l\<lparr>lg_committing := False\<rparr>))) (
         seq (wakeup ChanLog)
           (release LogLock))))))))))"

text \<open>The slot of a block in the header: the one that already names it, or the next one.\<close>

definition log_slot :: "logheader \<Rightarrow> u32 \<Rightarrow> nat" where
  "log_slot h bn = (case find_idx (\<lambda>b. b = bn) (take (nat (lh_n h)) (lh_block h)) of Some i \<Rightarrow> i | None \<Rightarrow> nat (lh_n h))"

definition log_add :: "u32 \<Rightarrow> logheader \<Rightarrow> logheader" where
  "log_add bn h = (let i = log_slot h bn in
     h\<lparr>lh_block := (lh_block h)[i := bn], lh_n := (if int i = lh_n h then lh_n h + 1 else lh_n h)\<rparr>)"

definition log_write :: "nat \<Rightarrow> ('z gstate_scheme, unit) routine" where
  "log_write b =
     bnd (gets klog) (\<lambda>l.
     if int LOGSIZE \<le> lh_n (lg_lh l) \<or> lg_size l - 1 \<le> lh_n (lg_lh l) then panic ''too big a transaction''
     else if lg_outstanding l < 1 then panic ''log_write outside of trans''
     else
       seq (acquire LogLock) (
       bnd (gets (\<lambda>s. blockno (bufs s ! b))) (\<lambda>bn.
       seq (modify (upd_log (\<lambda>l. l\<lparr>lg_lh := log_add bn (lg_lh l)\<rparr>))) (
       seq (modify (upd_buf b (\<lambda>x. x\<lparr>bflags := bflags x OR B_DIRTY\<rparr>)))
         (release LogLock)))))"

end
