(* ===== verification/Inode.thy ===== *)
theory Inode
  imports Log
begin

text \<open>
  Disk blocks and inodes (the first two thirds of \<^verbatim>\<open>fs.c\<close>): the block bitmap, the inode
  cache with its reference counts, reading and writing inodes, and the map from the blocks of a
  file to disk blocks. This theory holds the definitions.
\<close>

section \<open>State\<close>

definition ROOTDEV :: u32 where "ROOTDEV = 1"
definition ROOTINO :: u32 where "ROOTINO = 1"
definition NINODE :: nat where "NINODE = 50"
definition NDEV :: nat where "NDEV = 10"
definition NDIRECT :: nat where "NDIRECT = 12"
definition NINDIRECT :: nat where "NINDIRECT = 128"
definition MAXFILE :: nat where "MAXFILE = NDIRECT + NINDIRECT"
definition IPB :: u32 where "IPB = BSIZE div 64"
definition BPB :: u32 where "BPB = BSIZE * 8"
definition T_DIR :: u16 where "T_DIR = 1"
definition T_FILE :: u16 where "T_FILE = 2"
definition T_DEV :: u16 where "T_DEV = 3"

record dinode =
  di_type :: u16
  di_major :: u16
  di_minor :: u16
  di_nlink :: u16
  di_size :: u32
  di_addrs :: "u32 list"

text \<open>
  An entry of the inode cache. The copy of the disk inode is one record; the sleep lock of entry
  \<open>i\<close> is \<open>SInode i\<close>.
\<close>

record inode =
  i_dev :: u32
  i_inum :: u32
  i_ref :: int
  i_valid :: bool
  i_di :: dinode

text \<open>The entries of the device switch: none, or the console's routines.\<close>

datatype devsw = NoDevice | ConsoleDevice

record istate = gstate +
  sb :: superblock
  icache :: "inode list"
  devsw_tab :: "nat \<Rightarrow> devsw"

definition upd_inode :: "nat \<Rightarrow> (inode \<Rightarrow> inode) \<Rightarrow> 'z istate_scheme \<Rightarrow> 'z istate_scheme" where
  "upd_inode i f s = s\<lparr>icache := (icache s)[i := f (icache s ! i)]\<rparr>"

definition upd_di :: "nat \<Rightarrow> (dinode \<Rightarrow> dinode) \<Rightarrow> 'z istate_scheme \<Rightarrow> 'z istate_scheme" where
  "upd_di i f = upd_inode i (\<lambda>x. x\<lparr>i_di := f (i_di x)\<rparr>)"

definition IBLOCK :: "u32 \<Rightarrow> superblock \<Rightarrow> u32" where
  "IBLOCK i x = i div IPB + sb_inodestart x"

definition BBLOCK :: "u32 \<Rightarrow> superblock \<Rightarrow> u32" where
  "BBLOCK b x = b div BPB + sb_bmapstart x"

section \<open>Inodes on disk\<close>

definition ld16 :: "mem \<Rightarrow> u32 \<Rightarrow> u16" where
  "ld16 m a = ucast (m a) OR push_bit 8 (ucast (m (a + 1)))"

definition st16 :: "mem \<Rightarrow> u32 \<Rightarrow> u16 \<Rightarrow> mem" where
  "st16 m a v = m(a := ucast v, a + 1 := ucast (drop_bit 8 v))"

definition get_dinode :: "block \<Rightarrow> u32 \<Rightarrow> dinode" where
  "get_dinode d a = \<lparr>di_type = ld16 d a, di_major = ld16 d (a + 2), di_minor = ld16 d (a + 4),
     di_nlink = ld16 d (a + 6), di_size = ld32 d (a + 8),
     di_addrs = map (\<lambda>i. ld32 d (a + 12 + 4 * of_nat i)) [0..<NDIRECT + 1]\<rparr>"

definition put_dinode :: "dinode \<Rightarrow> block \<Rightarrow> u32 \<Rightarrow> block" where
  "put_dinode x d a =
     put_words (di_addrs x) (a + 12)
       (st32 (st16 (st16 (st16 (st16 d a (di_type x)) (a + 2) (di_major x)) (a + 4) (di_minor x)) (a + 6) (di_nlink x))
         (a + 8) (di_size x))"

text \<open>The offset of inode \<open>i\<close> in its block.\<close>

definition dip_off :: "u32 \<Rightarrow> u32" where
  "dip_off i = 64 * (i mod IPB)"

section \<open>Blocks\<close>

definition bzero :: "u32 \<Rightarrow> u32 \<Rightarrow> ('z gstate_scheme, unit) routine" where
  "bzero dv bno =
     bnd (bread dv bno) (\<lambda>bp.
     seq (modify (upd_buf bp (\<lambda>x. x\<lparr>bdata := memset (bdata x) 0 0 BSIZE\<rparr>))) (
     seq (log_write bp)
       (brelse bp)))"

definition bit_mask :: "u32 \<Rightarrow> byte" where
  "bit_mask bi = push_bit (unat (bi mod 8)) 1"

definition bitmap_used :: "block \<Rightarrow> u32 \<Rightarrow> bool" where
  "bitmap_used d bi \<longleftrightarrow> d (bi div 8) AND bit_mask bi \<noteq> 0"

text \<open>The bitmap blocks start at the block numbers \<open>0\<close>, \<open>BPB\<close>, ... below the size of the
  file system.\<close>

definition bitmap_starts :: "u32 \<Rightarrow> u32 list" where
  "bitmap_starts n = map (\<lambda>k. of_nat k * BPB) [0..<(unat n + unat BPB - 1) div unat BPB]"

definition balloc :: "u32 \<Rightarrow> ('z istate_scheme, u32) routine" where
  "balloc dv =
     bnd (gets sb) (\<lambda>x.
     bnd (search (bitmap_starts (sb_size x)) (\<lambda>b.
       bnd (bread dv (BBLOCK b x)) (\<lambda>bp.
       bnd (gets (\<lambda>s. bdata (bufs s ! bp))) (\<lambda>d.
       case List.find (\<lambda>bi. \<not> bitmap_used d bi)
           (takeWhile (\<lambda>bi. b + bi < sb_size x) (map of_nat [0..<unat BPB])) of
         Some bi \<Rightarrow>
           seq (modify (upd_buf bp (\<lambda>y. y\<lparr>bdata := (bdata y)(bi div 8 := bdata y (bi div 8) OR bit_mask bi)\<rparr>))) (
           seq (log_write bp) (
           seq (brelse bp) (
           seq (bzero dv (b + bi))
             (ret (Some (b + bi))))))
       | None \<Rightarrow> seq (brelse bp) (ret None))))) (\<lambda>r.
     case r of Some b \<Rightarrow> ret b | None \<Rightarrow> panic ''balloc: out of blocks''))"

definition bfree :: "u32 \<Rightarrow> u32 \<Rightarrow> ('z istate_scheme, unit) routine" where
  "bfree dv b =
     bnd (gets sb) (\<lambda>x.
     bnd (bread dv (BBLOCK b x)) (\<lambda>bp.
     let bi = b mod BPB in
     bnd (gets (\<lambda>s. bdata (bufs s ! bp))) (\<lambda>d.
     if \<not> bitmap_used d bi then panic ''freeing free block''
     else
       seq (modify (upd_buf bp (\<lambda>y. y\<lparr>bdata := (bdata y)(bi div 8 := bdata y (bi div 8) AND NOT (bit_mask bi))\<rparr>))) (
       seq (log_write bp)
         (brelse bp)))))"

section \<open>The inode cache\<close>

definition iinit :: "u32 \<Rightarrow> ('z istate_scheme, unit) routine" where
  "iinit dv =
     seq (initlock IcacheLock ''icache'') (
     seq (for_each [0..<NINODE] (\<lambda>i. initsleeplock (SInode i) ''inode'')) (
     bnd (readsb dv) (\<lambda>x.
     seq (modify (\<lambda>s. s\<lparr>sb := x\<rparr>))
       (cprintf (''sb: size %d nblocks %d ninodes %d nlog %d logstart %d inodestart %d bmap start %d'' @ [CHR 0x0A])
         [CInt (sb_size x), CInt (sb_nblocks x), CInt (sb_ninodes x), CInt (sb_nlog x), CInt (sb_logstart x),
          CInt (sb_inodestart x), CInt (sb_bmapstart x)]))))"

definition iget :: "u32 \<Rightarrow> u32 \<Rightarrow> ('z istate_scheme, nat) routine" where
  "iget dv ino =
     seq (acquire IcacheLock) (
     bnd (gets icache) (\<lambda>ic.
     case find_idx (\<lambda>x. 0 < i_ref x \<and> i_dev x = dv \<and> i_inum x = ino) ic of
       Some i \<Rightarrow>
         seq (modify (upd_inode i (\<lambda>x. x\<lparr>i_ref := i_ref x + 1\<rparr>))) (
         seq (release IcacheLock) (ret i))
     | None \<Rightarrow>
         (case find_idx (\<lambda>x. i_ref x = 0) ic of
           None \<Rightarrow> panic ''iget: no inodes''
         | Some i \<Rightarrow>
             seq (modify (upd_inode i (\<lambda>x. x\<lparr>i_dev := dv, i_inum := ino, i_ref := 1, i_valid := False\<rparr>))) (
             seq (release IcacheLock) (ret i)))))"

definition idup :: "nat \<Rightarrow> ('z istate_scheme, nat) routine" where
  "idup i =
     seq (acquire IcacheLock) (
     seq (modify (upd_inode i (\<lambda>x. x\<lparr>i_ref := i_ref x + 1\<rparr>))) (
     seq (release IcacheLock) (ret i)))"

definition zero_dinode :: dinode where
  "zero_dinode = \<lparr>di_type = 0, di_major = 0, di_minor = 0, di_nlink = 0, di_size = 0,
     di_addrs = replicate (NDIRECT + 1) 0\<rparr>"

definition ialloc :: "u32 \<Rightarrow> u16 \<Rightarrow> ('z istate_scheme, nat) routine" where
  "ialloc dv ty =
     bnd (gets sb) (\<lambda>x.
     bnd (search (map of_nat [1..<unat (sb_ninodes x)]) (\<lambda>ino.
       bnd (bread dv (IBLOCK ino x)) (\<lambda>bp.
       bnd (gets (\<lambda>s. di_type (get_dinode (bdata (bufs s ! bp)) (dip_off ino)))) (\<lambda>t.
       if t = 0 then
         seq (modify (upd_buf bp (\<lambda>y. y\<lparr>bdata := put_dinode (zero_dinode\<lparr>di_type := ty\<rparr>) (bdata y) (dip_off ino)\<rparr>))) (
         seq (log_write bp) (
         seq (brelse bp) (
         bnd (iget dv ino) (\<lambda>i. ret (Some i)))))
       else seq (brelse bp) (ret None))))) (\<lambda>r.
     case r of Some i \<Rightarrow> ret i | None \<Rightarrow> panic ''ialloc: no inodes''))"

definition iupdate :: "nat \<Rightarrow> ('z istate_scheme, unit) routine" where
  "iupdate i =
     bnd (gets (\<lambda>s. icache s ! i)) (\<lambda>ip.
     bnd (gets sb) (\<lambda>x.
     bnd (bread (i_dev ip) (IBLOCK (i_inum ip) x)) (\<lambda>bp.
     bnd (gets (\<lambda>s. i_di (icache s ! i))) (\<lambda>di.
     seq (modify (upd_buf bp (\<lambda>y. y\<lparr>bdata := put_dinode di (bdata y) (dip_off (i_inum ip))\<rparr>))) (
     seq (log_write bp)
       (brelse bp))))))"

definition ilock :: "nat \<Rightarrow> ('z istate_scheme, unit) routine" where
  "ilock i =
     bnd (gets (\<lambda>s. i_ref (icache s ! i))) (\<lambda>r.
     if r < 1 then panic ''ilock''
     else
       seq (acquiresleep (SInode i)) (
       bnd (gets (\<lambda>s. icache s ! i)) (\<lambda>ip.
       if i_valid ip then ret ()
       else
         bnd (gets sb) (\<lambda>x.
         bnd (bread (i_dev ip) (IBLOCK (i_inum ip) x)) (\<lambda>bp.
         seq (modify (\<lambda>s. upd_di i (\<lambda>_. get_dinode (bdata (bufs s ! bp)) (dip_off (i_inum ip))) s)) (
         seq (brelse bp) (
         seq (modify (upd_inode i (\<lambda>y. y\<lparr>i_valid := True\<rparr>))) (
         bnd (gets (\<lambda>s. di_type (i_di (icache s ! i)))) (\<lambda>t.
         if t = 0 then panic ''ilock: no type'' else ret ())))))))))"

definition iunlock :: "nat \<Rightarrow> ('z istate_scheme, unit) routine" where
  "iunlock i =
     bnd (holdingsleep (SInode i)) (\<lambda>h.
     bnd (gets (\<lambda>s. i_ref (icache s ! i))) (\<lambda>r.
     if \<not> h \<or> r < 1 then panic ''iunlock''
     else releasesleep (SInode i)))"

section \<open>Blocks of a file\<close>

definition bmap :: "nat \<Rightarrow> u32 \<Rightarrow> ('z istate_scheme, u32) routine" where
  "bmap i bn =
     bnd (gets (\<lambda>s. icache s ! i)) (\<lambda>ip.
     if bn < of_nat NDIRECT then
       let addr = di_addrs (i_di ip) ! unat bn in
       if addr = 0 then
         bnd (balloc (i_dev ip)) (\<lambda>a.
         seq (modify (upd_di i (\<lambda>x. x\<lparr>di_addrs := (di_addrs x)[unat bn := a]\<rparr>))) (ret a))
       else ret addr
     else
       let bn = bn - of_nat NDIRECT in
       if bn < of_nat NINDIRECT then
         bnd (let addr = di_addrs (i_di ip) ! NDIRECT in
              if addr = 0 then
                bnd (balloc (i_dev ip)) (\<lambda>a.
                seq (modify (upd_di i (\<lambda>x. x\<lparr>di_addrs := (di_addrs x)[NDIRECT := a]\<rparr>))) (ret a))
              else ret addr) (\<lambda>ind.
         bnd (bread (i_dev ip) ind) (\<lambda>bp.
         bnd (gets (\<lambda>s. ld32 (bdata (bufs s ! bp)) (4 * bn))) (\<lambda>addr.
         bnd (if addr = 0 then
                bnd (balloc (i_dev ip)) (\<lambda>a.
                seq (modify (upd_buf bp (\<lambda>y. y\<lparr>bdata := st32 (bdata y) (4 * bn) a\<rparr>))) (
                seq (log_write bp) (ret a)))
              else ret addr) (\<lambda>a.
         seq (brelse bp) (ret a)))))
       else panic ''bmap: out of range'')"

definition itrunc :: "nat \<Rightarrow> ('z istate_scheme, unit) routine" where
  "itrunc i =
     seq (for_each ([0..<NDIRECT]) (\<lambda>k.
        bnd (gets (\<lambda>s. icache s ! i)) (\<lambda>ip.
        doif (di_addrs (i_di ip) ! k \<noteq> 0) (
          seq (bfree (i_dev ip) (di_addrs (i_di ip) ! k))
            (modify (upd_di i (\<lambda>x. x\<lparr>di_addrs := (di_addrs x)[k := 0]\<rparr>))))))) (
     bnd (gets (\<lambda>s. icache s ! i)) (\<lambda>ip.
     seq (doif (di_addrs (i_di ip) ! NDIRECT \<noteq> 0) (
        bnd (bread (i_dev ip) (di_addrs (i_di ip) ! NDIRECT)) (\<lambda>bp.
        seq (for_each ([0..<NINDIRECT]) (\<lambda>j.
           bnd (gets (\<lambda>s. ld32 (bdata (bufs s ! bp)) (4 * of_nat j))) (\<lambda>a.
           doif (a \<noteq> 0) (
             bfree (i_dev ip) a)))) (
        seq (brelse bp) (
        seq (bfree (i_dev ip) (di_addrs (i_di ip) ! NDIRECT))
          (modify (upd_di i (\<lambda>x. x\<lparr>di_addrs := (di_addrs x)[NDIRECT := 0]\<rparr>)))))))) (
     seq (modify (upd_di i (\<lambda>x. x\<lparr>di_size := 0\<rparr>)))
       (iupdate i))))"

definition iput :: "nat \<Rightarrow> ('z istate_scheme, unit) routine" where
  "iput i =
     seq (acquiresleep (SInode i)) (
     bnd (gets (\<lambda>s. icache s ! i)) (\<lambda>ip.
     seq (doif (i_valid ip \<and> di_nlink (i_di ip) = 0) (
        seq (acquire IcacheLock) (
        bnd (gets (\<lambda>s. i_ref (icache s ! i))) (\<lambda>r.
        seq (release IcacheLock) (
        doif (r = 1) (
          seq (itrunc i) (
          seq (modify (upd_di i (\<lambda>x. x\<lparr>di_type := 0\<rparr>))) (
          seq (iupdate i)
            (modify (upd_inode i (\<lambda>x. x\<lparr>i_valid := False\<rparr>))))))))))) (
     seq (releasesleep (SInode i)) (
     seq (acquire IcacheLock) (
     seq (modify (upd_inode i (\<lambda>x. x\<lparr>i_ref := i_ref x - 1\<rparr>)))
       (release IcacheLock))))))"


definition iunlockput :: "nat \<Rightarrow> ('z istate_scheme, unit) routine" where
  "iunlockput i = seq (iunlock i) (iput i)"

end
