(* ===== verification/Console.thy ===== *)
theory Console
  imports Inode
begin

text \<open>
  Console input and the console as a device file (the second half of \<^verbatim>\<open>console.c\<close>): the
  interrupt handler that edits the current line, and reading and writing. The input buffer is a
  ring of \<open>INPUT_BUF\<close> bytes with a read, a write and an edit index that only grow, modulo
  the word size. This theory holds the definitions.
\<close>

section \<open>State\<close>

definition INPUT_BUF :: u32 where "INPUT_BUF = 128"
definition CONSOLE :: nat where "CONSOLE = 1"

record cstate = istate +
  inp_buf :: "u32 \<Rightarrow> byte"
  inp_r :: u32
  inp_w :: u32
  inp_e :: u32

section \<open>The interrupt handler\<close>

text \<open>Erase the characters of the line not yet handed to a reader.\<close>

definition kill_line :: "('z cstate_scheme, unit) routine" where
  "kill_line =
     loop (unat INPUT_BUF + 1) () (\<lambda>_.
       bnd (gets (\<lambda>s. inp_e s \<noteq> inp_w s \<and> inp_buf s ((inp_e s - 1) mod INPUT_BUF) \<noteq> 10)) (\<lambda>go.
       if \<not> go then ret (Inr ())
       else
         seq (modify (\<lambda>s. s\<lparr>inp_e := inp_e s - 1\<rparr>)) (
         seq (consputc BACKSPACE)
           (ret (Inl ())))))"

definition input_char :: "u32 \<Rightarrow> ('z cstate_scheme, unit) routine" where
  "input_char c =
     bnd (gets (\<lambda>s. inp_e s - inp_r s < INPUT_BUF)) (\<lambda>room.
     doif (c \<noteq> 0 \<and> room) (
       let c = (if c = 13 then 10 else c) in
       seq (modify (\<lambda>s. s\<lparr>inp_buf := (inp_buf s)(inp_e s mod INPUT_BUF := ucast c), inp_e := inp_e s + 1\<rparr>)) (
       seq (consputc c) (
       bnd (gets (\<lambda>s. c = 10 \<or> c = 4 \<or> inp_e s = inp_r s + INPUT_BUF)) (\<lambda>wake.
       doif wake (
         seq (modify (\<lambda>s. s\<lparr>inp_w := inp_e s\<rparr>))
           (wakeup ChanInput)))))))"

text \<open>
  \<open>getc\<close> is the device's routine. The control characters are P (16), U (21), H (8) and
  delete (127).
\<close>

definition consoleintr :: "('z cstate_scheme, int) routine \<Rightarrow> ('z cstate_scheme, unit) routine" where
  "consoleintr getc =
     seq (acquire ConsLock) (
     bnd (gets (\<lambda>s. wait_rounds s)) (\<lambda>n.
     bnd (loop n False (\<lambda>dump.
        bnd getc (\<lambda>c.
        if c < 0 then ret (Inr dump)
        else
          if c = 16 then
            ret (Inl True)
          else if c = 21 then
            seq kill_line
              (ret (Inl dump))
          else if c = 8 \<or> c = 127 then
            bnd (gets (\<lambda>s. inp_e s \<noteq> inp_w s)) (\<lambda>more.
            seq (doif more (
               seq (modify (\<lambda>s. s\<lparr>inp_e := inp_e s - 1\<rparr>))
                 (consputc BACKSPACE)))
              (ret (Inl dump)))
          else
            seq (input_char (of_int c))
              (ret (Inl dump))))) (\<lambda>doprocdump.
     seq (release ConsLock)
       (doif doprocdump procdump))))"

section \<open>The device file\<close>

text \<open>Wait for input; the result tells that there is some, and otherwise the caller was killed.\<close>

definition wait_input :: "nat \<Rightarrow> ('z cstate_scheme, bool) routine" where
  "wait_input i =
     wait_loop (
       bnd (gets (\<lambda>s. inp_r s = inp_w s)) (\<lambda>empty.
       if \<not> empty then ret (Inr True)
       else
         bnd curproc (\<lambda>p.
         bnd (gets (\<lambda>s. killed (procs s ! p))) (\<lambda>dead.
         if dead then
           seq (release ConsLock) (
           seq (ilock i)
             (ret (Inr False)))
         else
           seq (sleep ChanInput ConsLock)
             (ret (Inl ()))))))"

text \<open>The loop variables are the bytes still wanted and the bytes read.\<close>

definition consoleread :: "nat \<Rightarrow> u32 option \<Rightarrow> u32 \<Rightarrow> ('z cstate_scheme, u32 \<times> byte list) routine" where
  "consoleread i dst target =
     seq (iunlock i) (
     seq (acquire ConsLock) (
     bnd (loop (Suc (nat (sint target))) (target, []) (\<lambda>(n, bs).
        if \<not> 0 < sint n then ret (Inr (True, n, bs))
        else
          bnd (wait_input i) (\<lambda>ok.
          if \<not> ok then ret (Inr (False, n, bs))
          else
            bnd (gets (\<lambda>s. inp_buf s (inp_r s mod INPUT_BUF))) (\<lambda>c.
            seq (modify (\<lambda>s. s\<lparr>inp_r := inp_r s + 1\<rparr>)) (
            if c = 4 then
              seq (doif (n < target) (
                 modify (\<lambda>s. s\<lparr>inp_r := inp_r s - 1\<rparr>)))
                (ret (Inr (True, n, bs)))
            else
              seq (put_dst dst (length bs) [c])
                (ret (if c = 10 then Inr (True, n - 1, bs @ [c]) else Inl (n - 1, bs @ [c])))))))) (\<lambda>r.
     (case r of
         (ok, n, bs) \<Rightarrow>
           if \<not> ok then ret (-1, bs)
           else
             seq (release ConsLock) (
             seq (ilock i)
               (ret (target - n, bs)))))))"

definition consolewrite :: "nat \<Rightarrow> src \<Rightarrow> u32 \<Rightarrow> ('z cstate_scheme, u32) routine" where
  "consolewrite i src n =
     seq (iunlock i) (
     seq (acquire ConsLock) (
     seq (for_each [0..<nat (sint n)] (\<lambda>k.
        bnd (src_byte src k) (\<lambda>b.
        consputc (ucast b AND 0xff)))) (
     seq (release ConsLock) (
     seq (ilock i)
       (ret n)))))"

definition consoleinit :: "('z cstate_scheme, unit) routine" where
  "consoleinit =
     seq (initlock ConsLock ''console'') (
     seq (modify (\<lambda>s. s\<lparr>devsw_tab := (devsw_tab s)(CONSOLE := ConsoleDevice)\<rparr>)) (
     seq (modify (\<lambda>s. s\<lparr>cons_locking := True\<rparr>))
       (ioapicenable 1 0)))"

end
