(* ===== verification/Fs.thy ===== *)
theory Fs
  imports Console
begin

text \<open>
  Files, directories and paths (the last third of \<^verbatim>\<open>fs.c\<close>). Reading and writing dispatch on
  the device switch, so this theory comes after the console. A string is the list of its bytes
  without the terminator; a path is read from the caller's memory once, when the system call
  fetches it. This theory holds the definitions.
\<close>

section \<open>Contents of a file\<close>

definition DIRSIZ :: nat where "DIRSIZ = 14"

record stat =
  st_type :: u16
  st_dev :: u32
  st_ino :: u32
  st_nlink :: u16
  st_size :: u32

definition stati :: "nat \<Rightarrow> ('z istate_scheme, stat) routine" where
  "stati i =
     bnd (gets (\<lambda>s. icache s ! i)) (\<lambda>ip.
     ret \<lparr>st_type = di_type (i_di ip), st_dev = i_dev ip, st_ino = i_inum ip, st_nlink = di_nlink (i_di ip), st_size = di_size (i_di ip)\<rparr>)"

text \<open>Does the device switch have no routine for the inode?\<close>

definition no_device :: "'z istate_scheme \<Rightarrow> dinode \<Rightarrow> bool" where
  "no_device s di \<longleftrightarrow> sint (di_major di) < 0 \<or> int NDEV \<le> sint (di_major di) \<or>
     devsw_tab s (unat (di_major di)) = NoDevice"

definition block_bytes :: "block \<Rightarrow> u32 \<Rightarrow> u32 \<Rightarrow> byte list" where
  "block_bytes d off m = map (\<lambda>k. d (off + of_nat k)) [0..<unat m]"

text \<open>Bytes that one round of the transfer loops moves.\<close>

definition chunk :: "u32 \<Rightarrow> u32 \<Rightarrow> u32 \<Rightarrow> u32" where
  "chunk n tot off = (if n - tot < BSIZE - off mod BSIZE then n - tot else BSIZE - off mod BSIZE)"

text \<open>The result is the count that the code returns and the bytes read. Each round of the loop
  moves at least one byte.\<close>

definition readi :: "nat \<Rightarrow> u32 option \<Rightarrow> u32 \<Rightarrow> u32 \<Rightarrow> ('z cstate_scheme, u32 \<times> byte list) routine" where
  "readi i dst off n =
     bnd (gets (\<lambda>s. icache s ! i)) (\<lambda>ip.
     let di = i_di ip in
     if di_type di = T_DEV then
       bnd (gets (\<lambda>s. no_device s di)) (\<lambda>nodev.
       if nodev then
         ret (-1, [])
       else
         consoleread i dst n)
     else if di_size di < off \<or> off + n < off then
       ret (-1, [])
     else
       let n = (if di_size di < off + n then di_size di - off else n) in
       loop (Suc (unat n)) (0, off, []) (\<lambda>(tot, off, bs).
         if \<not> tot < n then ret (Inr (n, bs))
         else
           bnd (bmap i (off div BSIZE)) (\<lambda>addr.
           bnd (bread (i_dev ip) addr) (\<lambda>bp.
           let m = chunk n tot off in
           bnd (gets (\<lambda>s. block_bytes (bdata (bufs s ! bp)) (off mod BSIZE) m)) (\<lambda>cs.
           seq (put_dst dst (unat tot) cs) (
           seq (brelse bp)
             (ret (Inl (tot + m, off + m, bs @ cs)))))))))"

definition writei :: "nat \<Rightarrow> src \<Rightarrow> u32 \<Rightarrow> u32 \<Rightarrow> ('z cstate_scheme, u32) routine" where
  "writei i src off n =
     bnd (gets (\<lambda>s. icache s ! i)) (\<lambda>ip.
     let di = i_di ip in
     if di_type di = T_DEV then
       bnd (gets (\<lambda>s. no_device s di)) (\<lambda>nodev.
       if nodev then
         ret (-1)
       else
         consolewrite i src n)
     else if di_size di < off \<or> off + n < off then
       ret (-1)
     else if of_nat MAXFILE * BSIZE < off + n then
       ret (-1)
     else
       bnd (loop (Suc (unat n)) (0, off) (\<lambda>(tot, off).
          if \<not> tot < n then ret (Inr off)
          else
            bnd (bmap i (off div BSIZE)) (\<lambda>addr.
            bnd (bread (i_dev ip) addr) (\<lambda>bp.
            let m = chunk n tot off in
            bnd (src_bytes src (unat tot) (unat m)) (\<lambda>cs.
            seq (modify (upd_buf bp (\<lambda>y. y\<lparr>bdata := put (bdata y) (off mod BSIZE) cs\<rparr>))) (
            seq (log_write bp) (
            seq (brelse bp)
              (ret (Inl (tot + m, off + m)))))))))) (\<lambda>off.
       bnd (gets (\<lambda>s. di_size (i_di (icache s ! i)))) (\<lambda>sz.
       seq (doif (0 < n \<and> sz < off) (
          seq (modify (upd_di i (\<lambda>x. x\<lparr>di_size := off\<rparr>)))
            (iupdate i)))
         (ret n))))"

section \<open>Directories\<close>

text \<open>\<^verbatim>\<open>strncmp\<close> and \<^verbatim>\<open>strncpy\<close> on strings held as lists, with the terminator after the
  last byte.\<close>

definition byte0 :: "byte list \<Rightarrow> byte" where
  "byte0 bs = (case bs of [] \<Rightarrow> 0 | b # _ \<Rightarrow> b)"

fun strncmp_s :: "byte list \<Rightarrow> byte list \<Rightarrow> nat \<Rightarrow> int" where
  "strncmp_s p q 0 = 0"
| "strncmp_s p q (Suc n) =
     (if byte0 p \<noteq> 0 \<and> byte0 p = byte0 q then strncmp_s (tl p) (tl q) n
      else uint (byte0 p) - uint (byte0 q))"

fun strncpy_s :: "byte list \<Rightarrow> nat \<Rightarrow> byte list" where
  "strncpy_s t 0 = []"
| "strncpy_s t (Suc n) = (if byte0 t = 0 then replicate (Suc n) 0 else byte0 t # strncpy_s (tl t) n)"

definition namecmp :: "byte list \<Rightarrow> byte list \<Rightarrow> int" where
  "namecmp p q = strncmp_s p q DIRSIZ"

text \<open>A directory entry of 16 bytes.\<close>

record dirent =
  de_inum :: u16
  de_name :: "byte list"

definition get_dirent :: "byte list \<Rightarrow> dirent" where
  "get_dirent bs = \<lparr>de_inum = ucast (bs ! 0) OR push_bit 8 (ucast (bs ! 1)), de_name = take DIRSIZ (drop 2 bs)\<rparr>"

definition dirent_bytes :: "dirent \<Rightarrow> byte list" where
  "dirent_bytes de = [ucast (de_inum de), ucast (drop_bit 8 (de_inum de))] @ de_name de"

definition dirent_size :: u32 where "dirent_size = 16"

text \<open>The result is the inode and the offset of its entry. The directory has at most
  \<open>size / 16 + 1\<close> entries.\<close>

definition dirlookup :: "nat \<Rightarrow> byte list \<Rightarrow> ('z cstate_scheme, (nat \<times> u32) option) routine" where
  "dirlookup dp nm =
     bnd (gets (\<lambda>s. icache s ! dp)) (\<lambda>ip.
     if di_type (i_di ip) \<noteq> T_DIR then panic ''dirlookup not DIR''
     else
       loop (unat (di_size (i_di ip)) div 16 + 2) 0 (\<lambda>off.
         bnd (gets (\<lambda>s. di_size (i_di (icache s ! dp)))) (\<lambda>sz.
         if \<not> off < sz then ret (Inr None)
         else
           bnd (readi dp None off dirent_size) (\<lambda>r.
           if fst r \<noteq> dirent_size then panic ''dirlookup read''
           else
             let de = get_dirent (snd r) in
             if de_inum de = 0 then
               ret (Inl (off + dirent_size))
             else if namecmp nm (de_name de) = 0 then
               bnd (iget (i_dev ip) (ucast (de_inum de))) (\<lambda>i.
               ret (Inr (Some (i, off))))
             else
               ret (Inl (off + dirent_size))))))"

definition dirlink :: "nat \<Rightarrow> byte list \<Rightarrow> u32 \<Rightarrow> ('z cstate_scheme, int) routine" where
  "dirlink dp nm ino =
     bnd (dirlookup dp nm) (\<lambda>r.
     (case r of
         Some (i, _) \<Rightarrow>
           seq (iput i)
             (ret (-1))
       | None \<Rightarrow>
           bnd (gets (\<lambda>s. icache s ! dp)) (\<lambda>ip.
           bnd (loop (unat (di_size (i_di ip)) div 16 + 2) 0 (\<lambda>off.
              bnd (gets (\<lambda>s. di_size (i_di (icache s ! dp)))) (\<lambda>sz.
              if \<not> off < sz then ret (Inr off)
              else
                bnd (readi dp None off dirent_size) (\<lambda>r.
                if fst r \<noteq> dirent_size then panic ''dirlink read''
                else
                  ret (if de_inum (get_dirent (snd r)) = 0 then Inr off else Inl (off + dirent_size)))))) (\<lambda>off.
           let de = \<lparr>de_inum = ucast ino, de_name = strncpy_s nm DIRSIZ\<rparr> in
           bnd (writei dp (FromBytes (dirent_bytes de)) off dirent_size) (\<lambda>w.
           if w \<noteq> dirent_size then
             panic ''dirlink''
           else
             ret 0)))))"

section \<open>Paths\<close>

definition slash :: byte where "slash = 47"

text \<open>The next path element, cut to \<open>DIRSIZ\<close> bytes, and the path after it.\<close>

definition skipelem :: "byte list \<Rightarrow> (byte list \<times> byte list) option" where
  "skipelem path =
     (let p = dropWhile (\<lambda>c. c = slash) path in
      if p = [] then None
      else
        let e = takeWhile (\<lambda>c. c \<noteq> slash) p in
        Some (if DIRSIZ \<le> length e then take DIRSIZ e else e,
              dropWhile (\<lambda>c. c = slash) (dropWhile (\<lambda>c. c \<noteq> slash) p)))"

text \<open>The loop runs once per element. The result is the inode and the last element copied.\<close>

definition namex :: "byte list \<Rightarrow> bool \<Rightarrow> ('z cstate_scheme, (nat \<times> byte list) option) routine" where
  "namex path nameiparent =
     bnd (if path \<noteq> [] \<and> hd path = slash then
        iget ROOTDEV ROOTINO
      else
        bnd curproc (\<lambda>p.
        bnd (gets (\<lambda>s. cwd (procs s ! p))) (\<lambda>d.
        (case d of
            None \<Rightarrow> stuck ''null pointer''
          | Some i \<Rightarrow> idup i)))) (\<lambda>ip.
     loop (Suc (length path)) (ip, path, []) (\<lambda>(ip, path, nm).
       (case skipelem path of
           None \<Rightarrow>
             if nameiparent then
               seq (iput ip)
                 (ret (Inr None))
             else
               ret (Inr (Some (ip, nm)))
         | Some (nm, rest) \<Rightarrow>
             seq (ilock ip) (
             bnd (gets (\<lambda>s. di_type (i_di (icache s ! ip)))) (\<lambda>ty.
             if ty \<noteq> T_DIR then
               seq (iunlockput ip)
                 (ret (Inr None))
             else if nameiparent \<and> rest = [] then
               seq (iunlock ip)
                 (ret (Inr (Some (ip, nm))))
             else
               bnd (dirlookup ip nm) (\<lambda>r.
               seq (iunlockput ip)
                 (ret (case r of None \<Rightarrow> Inr None | Some (nx, _) \<Rightarrow> Inl (nx, rest, nm)))))))))"

definition namei :: "byte list \<Rightarrow> ('z cstate_scheme, nat option) routine" where
  "namei path =
     bnd (namex path False) (\<lambda>r.
     ret (map_option fst r))"

definition nameiparent :: "byte list \<Rightarrow> ('z cstate_scheme, (nat \<times> byte list) option) routine" where
  "nameiparent path =
     namex path True"

end
