(* ===== verification/File.thy ===== *)
theory File
  imports Fs
begin

text \<open>
  Open files (\<^verbatim>\<open>file.c\<close>) and pipes (\<^verbatim>\<open>pipe.c\<close>). A pipe lives in a page of its own and
  is named by the address of that page. This theory holds the definitions.
\<close>

section \<open>State\<close>

definition NFILE :: nat where "NFILE = 100"
definition PIPESIZE :: u32 where "PIPESIZE = 512"

datatype filetype = FD_NONE | FD_PIPE | FD_INODE

record kfile =
  f_type :: filetype
  f_ref :: int
  f_readable :: bool
  f_writable :: bool
  f_pipe :: u32
  f_ip :: nat
  f_off :: u32

record pipe =
  p_data :: "u32 \<Rightarrow> byte"
  p_nread :: u32
  p_nwrite :: u32
  p_readopen :: bool
  p_writeopen :: bool

record fstate = cstate +
  ftable :: "kfile list"
  pipes :: "u32 \<Rightarrow> pipe"

definition upd_file :: "nat \<Rightarrow> (kfile \<Rightarrow> kfile) \<Rightarrow> 'z fstate_scheme \<Rightarrow> 'z fstate_scheme" where
  "upd_file f g s = s\<lparr>ftable := (ftable s)[f := g (ftable s ! f)]\<rparr>"

definition upd_pipe :: "u32 \<Rightarrow> (pipe \<Rightarrow> pipe) \<Rightarrow> 'z fstate_scheme \<Rightarrow> 'z fstate_scheme" where
  "upd_pipe p g s = s\<lparr>pipes := (pipes s)(p := g (pipes s p))\<rparr>"

section \<open>The file table\<close>

definition fileinit :: "('z fstate_scheme, unit) routine" where
  "fileinit =
     initlock FtableLock ''ftable''"

definition filealloc :: "('z fstate_scheme, nat option) routine" where
  "filealloc =
     seq (acquire FtableLock) (
     bnd (gets (\<lambda>s. find_idx (\<lambda>x. f_ref x = 0) (ftable s))) (\<lambda>slot.
     (case slot of
         Some f \<Rightarrow>
           seq (modify (upd_file f (\<lambda>x. x\<lparr>f_ref := 1\<rparr>))) (
           seq (release FtableLock)
             (ret (Some f)))
       | None \<Rightarrow>
           seq (release FtableLock)
             (ret None))))"

definition filedup :: "nat \<Rightarrow> ('z fstate_scheme, nat) routine" where
  "filedup f =
     seq (acquire FtableLock) (
     bnd (gets (\<lambda>s. f_ref (ftable s ! f))) (\<lambda>r.
     if r < 1 then panic ''filedup''
     else
       seq (modify (upd_file f (\<lambda>x. x\<lparr>f_ref := f_ref x + 1\<rparr>))) (
       seq (release FtableLock)
         (ret f))))"

definition pipeclose :: "u32 \<Rightarrow> bool \<Rightarrow> ('z fstate_scheme, unit) routine" where
  "pipeclose p w =
     seq (acquire (PipeLock p)) (
     seq (if w then
        seq (modify (upd_pipe p (\<lambda>x. x\<lparr>p_writeopen := False\<rparr>)))
          (wakeup (ChanPipeRead p))
      else
        seq (modify (upd_pipe p (\<lambda>x. x\<lparr>p_readopen := False\<rparr>)))
          (wakeup (ChanPipeWrite p))) (
     bnd (gets (\<lambda>s. \<not> p_readopen (pipes s p) \<and> \<not> p_writeopen (pipes s p))) (\<lambda>shut.
     if shut then
       seq (release (PipeLock p))
         (kfree p)
     else
       release (PipeLock p))))"

definition fileclose :: "nat \<Rightarrow> ('z fstate_scheme, unit) routine" where
  "fileclose f =
     seq (acquire FtableLock) (
     bnd (gets (\<lambda>s. f_ref (ftable s ! f))) (\<lambda>r.
     if r < 1 then panic ''fileclose''
     else
       seq (modify (upd_file f (\<lambda>x. x\<lparr>f_ref := f_ref x - 1\<rparr>))) (
       bnd (gets (\<lambda>s. ftable s ! f)) (\<lambda>ff.
       if 0 < f_ref ff then
         release FtableLock
       else
         seq (modify (upd_file f (\<lambda>x. x\<lparr>f_ref := 0, f_type := FD_NONE\<rparr>))) (
         seq (release FtableLock) (
         if f_type ff = FD_PIPE then
           pipeclose (f_pipe ff) (f_writable ff)
         else if f_type ff = FD_INODE then
           seq begin_op (
           seq (iput (f_ip ff))
             end_op)
         else ret ()))))))"

section \<open>Pipes\<close>

text \<open>The label \<^verbatim>\<open>bad\<close> of \<^verbatim>\<open>pipealloc\<close>.\<close>

definition pipe_bad :: "nat option \<Rightarrow> nat option \<Rightarrow> ('z fstate_scheme, (nat \<times> nat) option) routine" where
  "pipe_bad f0 f1 =
     seq (case f0 of
          None \<Rightarrow> ret ()
        | Some f \<Rightarrow> fileclose f) (
     seq (case f1 of
          None \<Rightarrow> ret ()
        | Some f \<Rightarrow> fileclose f)
       (ret None))"

text \<open>The result is the read end and the write end, or nothing.\<close>

definition pipealloc :: "('z fstate_scheme, (nat \<times> nat) option) routine" where
  "pipealloc =
     bnd filealloc (\<lambda>f0.
     (case f0 of
         None \<Rightarrow> pipe_bad None None
       | Some a \<Rightarrow>
           bnd filealloc (\<lambda>f1.
           (case f1 of
               None \<Rightarrow> pipe_bad (Some a) None
             | Some b \<Rightarrow>
                 bnd kalloc (\<lambda>p.
                 if p = 0 then pipe_bad (Some a) (Some b)
                 else
                   seq (modify (upd_pipe p (\<lambda>x. x\<lparr>p_readopen := True, p_writeopen := True, p_nwrite := 0, p_nread := 0\<rparr>))) (
                   seq (initlock (PipeLock p) ''pipe'') (
                   seq (modify (upd_file a (\<lambda>x. x\<lparr>f_type := FD_PIPE, f_readable := True, f_writable := False, f_pipe := p\<rparr>))) (
                   seq (modify (upd_file b (\<lambda>x. x\<lparr>f_type := FD_PIPE, f_readable := False, f_writable := True, f_pipe := p\<rparr>)))
                     (ret (Some (a, b)))))))))))"

text \<open>Wait until the pipe has room; the result tells whether it has, and otherwise the lock has been
  released.\<close>

definition pipe_room :: "u32 \<Rightarrow> ('z fstate_scheme, bool) routine" where
  "pipe_room p =
     wait_loop (
       bnd (gets (\<lambda>s. p_nwrite (pipes s p) = p_nread (pipes s p) + PIPESIZE)) (\<lambda>full.
       if \<not> full then ret (Inr True)
       else
         bnd curproc (\<lambda>q.
         bnd (gets (\<lambda>s. \<not> p_readopen (pipes s p) \<or> killed (procs s ! q))) (\<lambda>dead.
         if dead then
           seq (release (PipeLock p))
             (ret (Inr False))
         else
           seq (wakeup (ChanPipeRead p)) (
           seq (sleep (ChanPipeWrite p) (PipeLock p))
             (ret (Inl ())))))))"

definition pipe_put :: "u32 \<Rightarrow> byte \<Rightarrow> ('z fstate_scheme, unit) routine" where
  "pipe_put p b =
     modify (upd_pipe p (\<lambda>x. x\<lparr>p_data := (p_data x)(p_nwrite x mod PIPESIZE := b), p_nwrite := p_nwrite x + 1\<rparr>))"

definition pipewrite :: "u32 \<Rightarrow> u32 \<Rightarrow> u32 \<Rightarrow> ('z fstate_scheme, u32) routine" where
  "pipewrite p addr n =
     seq (acquire (PipeLock p)) (
     bnd (loop (Suc (nat (sint n))) 0 (\<lambda>i.
        if \<not> sint i < sint n then ret (Inr True)
        else
          bnd (pipe_room p) (\<lambda>ok.
          if \<not> ok then ret (Inr False)
          else
            bnd (deref8 (addr + i)) (\<lambda>b.
            seq (pipe_put p b)
              (ret (Inl (i + 1))))))) (\<lambda>ok.
     if \<not> ok then ret (-1)
     else
       seq (wakeup (ChanPipeRead p)) (
       seq (release (PipeLock p))
         (ret n))))"

text \<open>Wait for data or for the last writer to close; the result tells that the wait is over, and
  otherwise the lock has been released.\<close>

definition pipe_data :: "u32 \<Rightarrow> ('z fstate_scheme, bool) routine" where
  "pipe_data p =
     wait_loop (
       bnd (gets (\<lambda>s. p_nread (pipes s p) = p_nwrite (pipes s p) \<and> p_writeopen (pipes s p))) (\<lambda>empty.
       if \<not> empty then ret (Inr True)
       else
         bnd curproc (\<lambda>q.
         bnd (gets (\<lambda>s. killed (procs s ! q))) (\<lambda>dead.
         if dead then
           seq (release (PipeLock p))
             (ret (Inr False))
         else
           seq (sleep (ChanPipeRead p) (PipeLock p))
             (ret (Inl ()))))))"

definition pipe_take :: "u32 \<Rightarrow> ('z fstate_scheme, byte) routine" where
  "pipe_take p =
     bnd (gets (\<lambda>s. p_data (pipes s p) (p_nread (pipes s p) mod PIPESIZE))) (\<lambda>b.
     seq (modify (upd_pipe p (\<lambda>x. x\<lparr>p_nread := p_nread x + 1\<rparr>)))
       (ret b))"

definition piperead :: "u32 \<Rightarrow> u32 \<Rightarrow> u32 \<Rightarrow> ('z fstate_scheme, u32) routine" where
  "piperead p addr n =
     seq (acquire (PipeLock p)) (
     bnd (pipe_data p) (\<lambda>ok.
     if \<not> ok then ret (-1)
     else
       bnd (loop (Suc (nat (sint n))) 0 (\<lambda>i.
          if \<not> sint i < sint n then ret (Inr i)
          else
            bnd (gets (\<lambda>s. p_nread (pipes s p) = p_nwrite (pipes s p))) (\<lambda>empty.
            if empty then ret (Inr i)
            else
              bnd (pipe_take p) (\<lambda>b.
              seq (store8 (addr + i) b)
                (ret (Inl (i + 1))))))) (\<lambda>i.
       seq (wakeup (ChanPipeWrite p)) (
       seq (release (PipeLock p))
         (ret i)))))"

section \<open>Operations on open files\<close>

text \<open>\<^verbatim>\<open>struct stat\<close> in memory.\<close>

definition store16 :: "u32 \<Rightarrow> u16 \<Rightarrow> ('z mstate_scheme, unit) routine" where
  "store16 a v = store_bytes a [ucast v, ucast (drop_bit 8 v)]"

definition store_stat :: "u32 \<Rightarrow> stat \<Rightarrow> ('z mstate_scheme, unit) routine" where
  "store_stat a st =
     seq (store32 (a + 4) (st_dev st)) (
     seq (store32 (a + 8) (st_ino st)) (
     seq (store16 a (st_type st)) (
     seq (store16 (a + 12) (st_nlink st))
       (store32 (a + 16) (st_size st)))))"

definition filestat :: "nat \<Rightarrow> u32 \<Rightarrow> ('z fstate_scheme, u32) routine" where
  "filestat f st =
     bnd (gets (\<lambda>s. ftable s ! f)) (\<lambda>x.
     if f_type x \<noteq> FD_INODE then ret (-1)
     else
       seq (ilock (f_ip x)) (
       bnd (stati (f_ip x)) (\<lambda>y.
       seq (store_stat st y) (
       seq (iunlock (f_ip x))
         (ret 0)))))"

definition fileread :: "nat \<Rightarrow> u32 \<Rightarrow> u32 \<Rightarrow> ('z fstate_scheme, u32) routine" where
  "fileread f addr n =
     bnd (gets (\<lambda>s. ftable s ! f)) (\<lambda>x.
     if \<not> f_readable x then ret (-1)
     else
       if f_type x = FD_PIPE then
         piperead (f_pipe x) addr n
       else if f_type x = FD_INODE then
         seq (ilock (f_ip x)) (
         bnd (gets (\<lambda>s. f_off (ftable s ! f))) (\<lambda>off.
         bnd (readi (f_ip x) (Some addr) off n) (\<lambda>r.
         seq (doif (0 < sint (fst r)) (
            modify (upd_file f (\<lambda>y. y\<lparr>f_off := f_off y + fst r\<rparr>)))) (
         seq (iunlock (f_ip x))
           (ret (fst r))))))
       else
         panic ''fileread'')"

text \<open>A write goes in chunks that fit a transaction.\<close>

definition max_write :: u32 where
  "max_write = (of_nat MAXOPBLOCKS - 1 - 1 - 2) div 2 * 512"

definition filewrite :: "nat \<Rightarrow> u32 \<Rightarrow> u32 \<Rightarrow> ('z fstate_scheme, u32) routine" where
  "filewrite f addr n =
     bnd (gets (\<lambda>s. ftable s ! f)) (\<lambda>x.
     if \<not> f_writable x then ret (-1)
     else
       if f_type x = FD_PIPE then
         pipewrite (f_pipe x) addr n
       else if f_type x = FD_INODE then
         bnd (loop (Suc (nat (sint n))) 0 (\<lambda>i.
            if \<not> sint i < sint n then ret (Inr i)
            else
              let n1 = (if sint max_write < sint (n - i) then max_write else n - i) in
              seq begin_op (
              seq (ilock (f_ip x)) (
              bnd (gets (\<lambda>s. f_off (ftable s ! f))) (\<lambda>off.
              bnd (writei (f_ip x) (FromMem (addr + i)) off n1) (\<lambda>r.
              seq (doif (0 < sint r) (
                 modify (upd_file f (\<lambda>y. y\<lparr>f_off := f_off y + r\<rparr>)))) (
              seq (iunlock (f_ip x)) (
              seq end_op (
              if sint r < 0 then
                ret (Inr i)
              else if r \<noteq> n1 then
                panic ''short filewrite''
              else
                ret (Inl (i + r))))))))))) (\<lambda>i.
         ret (if i = n then n else -1))
       else
         panic ''filewrite'')"

end
