(* ===== verification/Life.thy ===== *)
theory Life
  imports File
begin

text \<open>
  The part of \<^verbatim>\<open>proc.c\<close> that needs the file system: the first process, fork, exit, the
  first return of a new process, and the creation of threads. This theory holds the definitions.
\<close>

text \<open>\<^verbatim>\<open>safestrcpy\<close> into an array of \<open>n\<close> bytes, given the string as a list.\<close>

definition safestrcpy_s :: "byte list \<Rightarrow> byte list \<Rightarrow> nat \<Rightarrow> byte list" where
  "safestrcpy_s old t n = (let k = min (n - 1) (length t) in take k t @ [0] @ drop (k + 1) old)"

definition name_of :: "proc \<Rightarrow> byte list" where
  "name_of p = takeWhile (\<lambda>b. b \<noteq> 0) (pname p)"

definition FL_IF :: u32 where "FL_IF = 0x200"

section \<open>The first process\<close>

text \<open>The linked program \<^verbatim>\<open>initcode\<close> is at address \<open>code\<close> and has \<open>n\<close> bytes.\<close>

definition user_sel :: "nat \<Rightarrow> u16" where
  "user_sel seg = of_nat (8 * seg + DPL_USER)"

definition init_tf :: trapframe where
  "init_tf = zero_tf\<lparr>tf_cs := user_sel SEG_UCODE, tf_ds := user_sel SEG_UDATA, tf_es := user_sel SEG_UDATA,
     tf_ss := user_sel SEG_UDATA, tf_eflags := FL_IF, tf_esp := PGSIZE, tf_eip := 0\<rparr>"

definition userinit :: "u32 \<Rightarrow> u32 \<Rightarrow> ('z fstate_scheme, unit) routine" where
  "userinit code n =
     bnd allocproc (\<lambda>slot.
     (case slot of
         None \<Rightarrow> stuck ''null pointer''
       | Some p \<Rightarrow>
           seq (modify (\<lambda>s. s\<lparr>initproc := Some p\<rparr>)) (
           bnd setupkvm (\<lambda>pd.
           seq (modify (upd_proc p (\<lambda>x. x\<lparr>pgdir := pd\<rparr>))) (
           if pd = 0 then panic ''userinit: out of memory?''
           else
             seq (inituvm pd code n) (
             seq (modify (upd_proc p (\<lambda>x. x\<lparr>sz := PGSIZE, tf := init_tf\<rparr>))) (
             seq (modify (upd_proc p (\<lambda>x. x\<lparr>pname := safestrcpy_s (pname x) (map of_char ''initcode'') 16\<rparr>))) (
             bnd (namei [slash]) (\<lambda>d.
             seq (modify (upd_proc p (\<lambda>x. x\<lparr>cwd := d\<rparr>))) (
             seq (acquire PtableLock) (
             seq (modify (make_runnable p)) (
             seq (release PtableLock)
               maybe_yield))))))))))))"

section \<open>Fork and threads\<close>

text \<open>The new process shares the open files and the current directory of its creator and takes its
  name.\<close>

definition share_files :: "nat \<Rightarrow> nat \<Rightarrow> ('z fstate_scheme, unit) routine" where
  "share_files cp np =
     seq (for_each [0..<NOFILE] (\<lambda>i.
        bnd (gets (\<lambda>s. ofile (procs s ! cp) ! i)) (\<lambda>f.
        (case f of
            None \<Rightarrow> ret ()
          | Some f \<Rightarrow>
              bnd (filedup f) (\<lambda>g.
              modify (upd_proc np (\<lambda>x. x\<lparr>ofile := (ofile x)[i := Some g]\<rparr>))))))) (
     bnd (gets (\<lambda>s. cwd (procs s ! cp))) (\<lambda>d.
     seq (case d of
          None \<Rightarrow> stuck ''null pointer''
        | Some i \<Rightarrow>
            bnd (idup i) (\<lambda>j.
            modify (upd_proc np (\<lambda>x. x\<lparr>cwd := Some j\<rparr>))))
       (modify (\<lambda>s. upd_proc np (\<lambda>x. x\<lparr>pname := safestrcpy_s (pname x) (name_of (procs s ! cp)) 16\<rparr>) s))))"

text \<open>Make the new process runnable and, under the priority policies, give up the processor.\<close>

definition launch :: "nat \<Rightarrow> ('z fstate_scheme, u32) routine" where
  "launch np =
     bnd (gets (\<lambda>s. pid (procs s ! np))) (\<lambda>k.
     seq (acquire PtableLock) (
     seq (modify (make_runnable np)) (
     seq (release PtableLock) (
     seq maybe_yield
       (ret k)))))"

text \<open>Give back the slot when the address space cannot be made.\<close>

definition abandon :: "nat \<Rightarrow> ('z fstate_scheme, unit) routine" where
  "abandon np =
     bnd (gets (\<lambda>s. kstack (procs s ! np))) (\<lambda>ks.
     seq (kfree ks)
       (modify (upd_proc np (\<lambda>x. x\<lparr>kstack := 0, state := UNUSED\<rparr>))))"

definition fork :: "('z fstate_scheme, u32) routine" where
  "fork =
     bnd curproc (\<lambda>cp.
     bnd allocproc (\<lambda>slot.
     (case slot of
         None \<Rightarrow> ret (-1)
       | Some np \<Rightarrow>
           bnd (gets (\<lambda>s. procs s ! cp)) (\<lambda>c.
           bnd (copyuvm (pgdir c) (sz c)) (\<lambda>pd.
           seq (modify (upd_proc np (\<lambda>x. x\<lparr>pgdir := pd\<rparr>))) (
           if pd = 0 then
             seq (abandon np)
               (ret (-1))
           else
             seq (modify (upd_proc np (\<lambda>x. x\<lparr>first_pid := pid x, sz := sz c, parent := Some cp, tf := tf c\<rparr>))) (
             seq (modify (upd_proc np (\<lambda>x. x\<lparr>tf := (tf x)\<lparr>tf_eax := 0\<rparr>\<rparr>))) (
             seq (share_files cp np)
               (launch np)))))))))"

definition thread_create :: "u32 \<Rightarrow> ('z fstate_scheme, u32) routine" where
  "thread_create sp =
     bnd curproc (\<lambda>cp.
     let spage = PGROUNDDOWN sp in
     bnd (gets (\<lambda>s. PGROUNDDOWN (tf_esp (tf (procs s ! cp))))) (\<lambda>orig.
     bnd allocproc (\<lambda>slot.
     (case slot of
         None \<Rightarrow>
           seq (cprintf (''allocproc failed'' @ [CHR 0x0A]) [])
             (ret (-1))
       | Some np \<Rightarrow>
           bnd (gets (\<lambda>s. procs s ! cp)) (\<lambda>c.
           bnd (linkuvm (pgdir c) (sz c) orig sp) (\<lambda>pd.
           seq (modify (upd_proc np (\<lambda>x. x\<lparr>pgdir := pd\<rparr>))) (
           if pd = 0 then
             seq (abandon np) (
             seq (cprintf (''linkuvm failed'' @ [CHR 0x0A]) [])
               (ret (-1)))
           else
             seq (modify (upd_proc np (\<lambda>x. x\<lparr>first_pid := first_pid c, sz := orig + PGSIZE, parent := Some cp, tf := tf c\<rparr>))) (
             seq (modify (upd_proc np (\<lambda>x. x\<lparr>tf := (tf x)\<lparr>tf_eax := 0, tf_esp := orig + (sp - spage)\<rparr>\<rparr>))) (
             bnd (deref32 (orig + (sp - spage))) (\<lambda>fn.
             seq (modify (upd_proc np (\<lambda>x. x\<lparr>tf := (tf x)\<lparr>tf_eip := fn\<rparr>\<rparr>))) (
             seq (modify (upd_proc np (\<lambda>x. x\<lparr>tf := (tf x)\<lparr>tf_esp := tf_esp (tf x) + 4\<rparr>\<rparr>))) (
             seq (share_files cp np)
               (launch np)))))))))))))"

text \<open>Where a new process starts to run.\<close>

definition forkret :: "('z fstate_scheme, unit) routine" where
  "forkret =
     seq (release PtableLock) (
     bnd (gets (\<lambda>s. forkret_first s)) (\<lambda>first.
     doif first (
       seq (modify (\<lambda>s. s\<lparr>forkret_first := False\<rparr>)) (
       seq (iinit ROOTDEV)
         (initlog ROOTDEV)))))"

section \<open>Exit\<close>

definition close_files :: "nat \<Rightarrow> ('z fstate_scheme, unit) routine" where
  "close_files cp =
     for_each [0..<NOFILE] (\<lambda>fd.
       bnd (gets (\<lambda>s. ofile (procs s ! cp) ! fd)) (\<lambda>f.
       (case f of
           None \<Rightarrow> ret ()
         | Some f \<Rightarrow>
             seq (fileclose f)
               (modify (upd_proc cp (\<lambda>x. x\<lparr>ofile := (ofile x)[fd := None]\<rparr>))))))"

text \<open>The scan over the table: children go to the first process, and the parent and the other threads
  are woken.\<close>

definition leave_family :: "nat \<Rightarrow> ('z fstate_scheme, unit) routine" where
  "leave_family cp =
     for_each [0..<NPROC] (\<lambda>p.
       bnd (gets (\<lambda>s. procs s ! p)) (\<lambda>x.
       bnd (gets (\<lambda>s. procs s ! cp)) (\<lambda>c.
       if pid x = 0 \<or> p = cp then
         ret ()
       else if parent x = Some cp then
         seq (modify (\<lambda>s. upd_proc p (\<lambda>x. x\<lparr>parent := initproc s\<rparr>) s)) (
         bnd (gets (\<lambda>s. initproc s)) (\<lambda>ip.
         (case ip of
             None \<Rightarrow> ret ()
           | Some i \<Rightarrow> doif (state x = ZOMBIE) (wakeup1 (ChanProc i)))))
       else if first_pid x = first_pid c \<or> parent c = Some p then
         wakeup1 (ChanProc p)
       else
         ret ())))"

definition exit :: "('z fstate_scheme, unit) routine" where
  "exit =
     bnd curproc (\<lambda>cp.
     bnd (gets (\<lambda>s. initproc s)) (\<lambda>ip.
     if ip = Some cp then panic ''init exiting''
     else
       seq (close_files cp) (
       seq begin_op (
       bnd (gets (\<lambda>s. cwd (procs s ! cp))) (\<lambda>d.
       seq (case d of
            None \<Rightarrow> stuck ''null pointer''
          | Some i \<Rightarrow> iput i) (
       seq end_op (
       seq (modify (upd_proc cp (\<lambda>x. x\<lparr>cwd := None\<rparr>))) (
       seq (acquire PtableLock) (
       seq (leave_family cp) (
       seq (modify (\<lambda>s. (upd_proc cp (\<lambda>x. x\<lparr>state := ZOMBIE\<rparr>) s)\<lparr>totalTicketCount := totalTicketCount s - ticketCount (procs s ! cp)\<rparr>)) (
       seq sched
         (panic ''zombie exit''))))))))))))"

end
