(* ===== verification/Exec.thy ===== *)
theory Exec
  imports Life
begin

text \<open>
  Loading a program (\<^verbatim>\<open>exec.c\<close> and \<^verbatim>\<open>loaduvm\<close> of \<^verbatim>\<open>vm.c\<close>). The arguments are
  the strings the system call has fetched. This theory holds the definitions.
\<close>

section \<open>Program files\<close>

definition MAXARG :: nat where "MAXARG = 32"
definition ELF_MAGIC :: u32 where "ELF_MAGIC = 0x464C457F"
definition ELF_PROG_LOAD :: u32 where "ELF_PROG_LOAD = 1"

record elfhdr =
  elf_magic :: u32
  elf_entry :: u32
  elf_phoff :: u32
  elf_phnum :: u16

record proghdr =
  ph_type :: u32
  ph_off :: u32
  ph_vaddr :: u32
  ph_filesz :: u32
  ph_memsz :: u32

text \<open>The little-endian word at offset \<open>k\<close> of a local variable.\<close>

definition le32 :: "byte list \<Rightarrow> nat \<Rightarrow> u32" where
  "le32 bs k = ld32 (put (\<lambda>_. 0) 0 bs) (of_nat k)"

definition le16 :: "byte list \<Rightarrow> nat \<Rightarrow> u16" where
  "le16 bs k = ld16 (put (\<lambda>_. 0) 0 bs) (of_nat k)"

definition get_elfhdr :: "byte list \<Rightarrow> elfhdr" where
  "get_elfhdr bs = \<lparr>elf_magic = le32 bs 0, elf_entry = le32 bs 24, elf_phoff = le32 bs 28, elf_phnum = le16 bs 44\<rparr>"

definition get_proghdr :: "byte list \<Rightarrow> proghdr" where
  "get_proghdr bs = \<lparr>ph_type = le32 bs 0, ph_off = le32 bs 4, ph_vaddr = le32 bs 8, ph_filesz = le32 bs 16, ph_memsz = le32 bs 20\<rparr>"

definition elfhdr_size :: u32 where "elfhdr_size = 52"
definition proghdr_size :: u32 where "proghdr_size = 32"

section \<open>Loading\<close>

definition loaduvm :: "u32 \<Rightarrow> u32 \<Rightarrow> nat \<Rightarrow> u32 \<Rightarrow> u32 \<Rightarrow> ('z fstate_scheme, int) routine" where
  "loaduvm pd addr ip offset len =
     (if addr mod PGSIZE \<noteq> 0 then panic ''loaduvm: addr must be page aligned''
     else
       loop (2 ^ 20 + 1) 0 (\<lambda>i.
         if \<not> i < len then ret (Inr 0)
         else
           bnd (walkpgdir pd (addr + i) False) (\<lambda>pte.
           if pte = 0 then panic ''loaduvm: address should exist''
           else
             bnd (rd32 pte) (\<lambda>e.
             let n = (if len - i < PGSIZE then len - i else PGSIZE) in
             bnd (readi ip (Some (P2V (PTE_ADDR e))) (offset + i) n) (\<lambda>r.
             ret (if fst r \<noteq> n then Inr (-1) else Inl (i + PGSIZE)))))))"

text \<open>The loop over the program headers. The result is the size of the image, or nothing when the
  code goes to its label \<^verbatim>\<open>bad\<close>.\<close>

definition load_segments :: "nat \<Rightarrow> elfhdr \<Rightarrow> u32 \<Rightarrow> ('z fstate_scheme, u32 option) routine" where
  "load_segments ip elf pd =
     loop (Suc (unat (elf_phnum elf))) (0, elf_phoff elf, 0) (\<lambda>(i, off, sz).
       if \<not> i < unat (elf_phnum elf) then ret (Inr (Some sz))
       else
         bnd (readi ip None off proghdr_size) (\<lambda>r.
         let ph = get_proghdr (snd r) in
         if fst r \<noteq> proghdr_size then
           ret (Inr None)
         else if ph_type ph \<noteq> ELF_PROG_LOAD then
           ret (Inl (i + 1, off + proghdr_size, sz))
         else if ph_memsz ph < ph_filesz ph \<or> ph_vaddr ph + ph_memsz ph < ph_vaddr ph then
           ret (Inr None)
         else
           bnd (allocuvm pd sz (ph_vaddr ph + ph_memsz ph)) (\<lambda>sz.
           if sz = 0 \<or> ph_vaddr ph mod PGSIZE \<noteq> 0 then ret (Inr None)
           else
             bnd (loaduvm pd (ph_vaddr ph) ip (ph_off ph) (ph_filesz ph)) (\<lambda>l.
             ret (if l < 0 then Inr None else Inl (i + 1, off + proghdr_size, sz))))))"

text \<open>The loop that pushes the argument strings. The result is the stack pointer and the addresses of
  the strings.\<close>

definition push_args :: "byte list list \<Rightarrow> u32 \<Rightarrow> u32 \<Rightarrow> ('z fstate_scheme, (u32 \<times> u32 list) option) routine" where
  "push_args argv pd sp =
     loop (Suc (length argv)) (0, sp, []) (\<lambda>(k, sp, ptrs).
       if length argv \<le> k then ret (Inr (Some (sp, ptrs)))
       else
         if MAXARG \<le> k then ret (Inr None)
         else
           let n = of_nat (length (argv ! k)) + 1; sp = (sp - n) AND NOT 3 in
           bnd (copyout pd sp (FromBytes (argv ! k @ [0])) n) (\<lambda>r.
           ret (if r < 0 then Inr None else Inl (k + 1, sp, ptrs @ [sp]))))"

text \<open>The words of \<^verbatim>\<open>ustack\<close> as bytes.\<close>

definition word_bytes :: "u32 \<Rightarrow> byte list" where
  "word_bytes w = [ucast w, ucast (drop_bit 8 w), ucast (drop_bit 16 w), ucast (drop_bit 24 w)]"

definition ustack :: "u32 \<Rightarrow> u32 list \<Rightarrow> u32 list" where
  "ustack sp ptrs = [0xffffffff, of_nat (length ptrs), sp - (of_nat (length ptrs) + 1) * 4] @ ptrs @ [0]"

text \<open>The last element of a path.\<close>

definition base_name :: "byte list \<Rightarrow> byte list" where
  "base_name path = rev (takeWhile (\<lambda>c. c \<noteq> slash) (rev path))"

text \<open>The label \<^verbatim>\<open>bad\<close>.\<close>

definition exec_bad :: "u32 \<Rightarrow> nat option \<Rightarrow> ('z fstate_scheme, u32) routine" where
  "exec_bad pd ip =
     seq (doif (pd \<noteq> 0) (freevm pd)) (
     seq (case ip of
          None \<Rightarrow> ret ()
        | Some i \<Rightarrow>
            seq (iunlockput i)
              end_op)
       (ret (-1)))"

text \<open>What follows the loading of the segments: the stack, the arguments and the switch to the new
  image.\<close>

definition exec_commit :: "nat \<Rightarrow> byte list \<Rightarrow> byte list list \<Rightarrow> elfhdr \<Rightarrow> u32 \<Rightarrow> u32 \<Rightarrow> ('z fstate_scheme, u32) routine" where
  "exec_commit cp path argv elf pd sz0 =
     bnd (allocuvm pd (PGROUNDUP sz0) (PGROUNDUP sz0 + 2 * PGSIZE)) (\<lambda>sz1.
     if sz1 = 0 then exec_bad pd None
     else
       seq (clearpteu pd (sz1 - 2 * PGSIZE)) (
       bnd (push_args argv pd sz1) (\<lambda>a.
       (case a of
           None \<Rightarrow> exec_bad pd None
         | Some (sp, ptrs) \<Rightarrow>
             let us = ustack sp ptrs; sp = sp - (3 + of_nat (length ptrs) + 1) * 4 in
             bnd (copyout pd sp (FromBytes (concat (map word_bytes us))) ((3 + of_nat (length ptrs) + 1) * 4)) (\<lambda>r.
             if r < 0 then
               exec_bad pd None
             else
               seq (modify (upd_proc cp (\<lambda>x. x\<lparr>pname := safestrcpy_s (pname x) (base_name path) 16\<rparr>))) (
               bnd (gets (\<lambda>s. pgdir (procs s ! cp))) (\<lambda>oldpd.
               seq (modify (upd_proc cp (\<lambda>x. x\<lparr>pgdir := pd, sz := sz1\<rparr>))) (
               seq (modify (upd_proc cp (\<lambda>x. x\<lparr>tf := (tf x)\<lparr>tf_eip := elf_entry elf, tf_esp := sp\<rparr>\<rparr>))) (
               seq (switchuvm (Some cp)) (
               seq (freevm oldpd)
                 (ret 0)))))))))))"

definition exec :: "byte list \<Rightarrow> byte list list \<Rightarrow> ('z fstate_scheme, u32) routine" where
  "exec path argv =
     bnd curproc (\<lambda>cp.
     seq begin_op (
     bnd (namei path) (\<lambda>ip.
     (case ip of
         None \<Rightarrow>
           seq end_op (
           seq (cprintf (''exec: fail'' @ [CHR 0x0A]) [])
             (ret (-1)))
       | Some i \<Rightarrow>
           seq (ilock i) (
           bnd (readi i None 0 elfhdr_size) (\<lambda>r.
           let elf = get_elfhdr (snd r) in
           if fst r \<noteq> elfhdr_size \<or> elf_magic elf \<noteq> ELF_MAGIC then
             exec_bad 0 (Some i)
           else
             bnd setupkvm (\<lambda>pd.
             if pd = 0 then exec_bad 0 (Some i)
             else
               bnd (load_segments i elf pd) (\<lambda>l.
               (case l of
                   None \<Rightarrow> exec_bad pd (Some i)
                 | Some sz0 \<Rightarrow>
                     seq (iunlockput i) (
                     seq end_op
                       (exec_commit cp path argv elf pd sz0)))))))))))"

end
