(* ===== verification/Sysfile.thy ===== *)
theory Sysfile
  imports Exec
begin

text \<open>
  Fetching system call arguments from the caller's memory (first half of \<^verbatim>\<open>syscall.c\<close>) and the
  file system calls (\<^verbatim>\<open>sysfile.c\<close>). A system call returns the word that goes to the
  caller's \<^verbatim>\<open>eax\<close>. This theory holds the definitions.
\<close>

section \<open>Arguments\<close>

text \<open>A failed fetch is \<open>None\<close>.\<close>

definition fetchint :: "u32 \<Rightarrow> ('z mstate_scheme, u32 option) routine" where
  "fetchint addr =
     bnd curproc (\<lambda>p.
     bnd (gets (\<lambda>s. sz (procs s ! p))) (\<lambda>n.
     if n \<le> addr \<or> n < addr + 4 then
       ret None
     else
       bnd (deref32 addr) (\<lambda>v.
       ret (Some v))))"

text \<open>The string is returned, where the code returns its length and leaves it in place.\<close>

definition fetchstr :: "u32 \<Rightarrow> ('z mstate_scheme, byte list option) routine" where
  "fetchstr addr =
     bnd curproc (\<lambda>p.
     bnd (gets (\<lambda>s. sz (procs s ! p))) (\<lambda>ep.
     if ep \<le> addr then ret None
     else
       loop (Suc (unat (ep - addr))) (addr, []) (\<lambda>(a, bs).
         if \<not> a < ep then ret (Inr None)
         else
           bnd (deref8 a) (\<lambda>c.
           ret (if c = 0 then Inr (Some bs) else Inl (a + 1, bs @ [c]))))))"

definition argint :: "nat \<Rightarrow> ('z mstate_scheme, u32 option) routine" where
  "argint n =
     bnd curproc (\<lambda>p.
     bnd (gets (\<lambda>s. tf_esp (tf (procs s ! p)))) (\<lambda>esp.
     fetchint (esp + 4 + 4 * of_nat n)))"

definition argptr :: "nat \<Rightarrow> u32 \<Rightarrow> ('z mstate_scheme, u32 option) routine" where
  "argptr n len =
     bnd curproc (\<lambda>p.
     bnd (argint n) (\<lambda>i.
     (case i of
         None \<Rightarrow> ret None
       | Some i \<Rightarrow>
           bnd (gets (\<lambda>s. sz (procs s ! p))) (\<lambda>top.
           ret (if sint len < 0 \<or> top \<le> i \<or> top < i + len then None else Some i)))))"

definition argstr :: "nat \<Rightarrow> ('z mstate_scheme, byte list option) routine" where
  "argstr n =
     bnd (argint n) (\<lambda>a.
     (case a of
         None \<Rightarrow> ret None
       | Some a \<Rightarrow> fetchstr a))"

text \<open>A descriptor with the file it stands for.\<close>

definition argfd :: "nat \<Rightarrow> ('z mstate_scheme, (nat \<times> nat) option) routine" where
  "argfd n =
     bnd (argint n) (\<lambda>a.
     (case a of
         None \<Rightarrow> ret None
       | Some fd \<Rightarrow>
           if sint fd < 0 \<or> int NOFILE \<le> sint fd then ret None
           else
             bnd curproc (\<lambda>p.
             bnd (gets (\<lambda>s. ofile (procs s ! p) ! unat fd)) (\<lambda>f.
             ret (map_option (\<lambda>f. (unat fd, f)) f)))))"

section \<open>Descriptors\<close>

definition fdalloc :: "nat \<Rightarrow> ('z kstate_scheme, nat option) routine" where
  "fdalloc f =
     bnd curproc (\<lambda>p.
     bnd (gets (\<lambda>s. find_idx (\<lambda>x. x = None) (take NOFILE (ofile (procs s ! p))))) (\<lambda>fd.
     (case fd of
         None \<Rightarrow> ret None
       | Some fd \<Rightarrow>
           seq (modify (upd_proc p (\<lambda>x. x\<lparr>ofile := (ofile x)[fd := Some f]\<rparr>)))
             (ret (Some fd)))))"

definition sys_dup :: "('z fstate_scheme, u32) routine" where
  "sys_dup =
     bnd (argfd 0) (\<lambda>a.
     (case a of
         None \<Rightarrow> ret (-1)
       | Some (_, f) \<Rightarrow>
           bnd (fdalloc f) (\<lambda>fd.
           (case fd of
               None \<Rightarrow> ret (-1)
             | Some fd \<Rightarrow>
                 seq (filedup f)
                   (ret (of_nat fd))))))"

text \<open>The arguments of \<^verbatim>\<open>read\<close> and \<^verbatim>\<open>write\<close>: the file, the buffer and its length.\<close>

definition rw_args :: "('z mstate_scheme, (nat \<times> u32 \<times> u32) option) routine" where
  "rw_args =
     bnd (argfd 0) (\<lambda>a.
     (case a of
         None \<Rightarrow> ret None
       | Some (_, f) \<Rightarrow>
           bnd (argint 2) (\<lambda>n.
           (case n of
               None \<Rightarrow> ret None
             | Some n \<Rightarrow>
                 bnd (argptr 1 n) (\<lambda>p.
                 ret (map_option (\<lambda>p. (f, p, n)) p))))))"

definition sys_read :: "('z fstate_scheme, u32) routine" where
  "sys_read =
     bnd rw_args (\<lambda>a.
     (case a of
         None \<Rightarrow> ret (-1)
       | Some (f, p, n) \<Rightarrow> fileread f p n))"

definition sys_write :: "('z fstate_scheme, u32) routine" where
  "sys_write =
     bnd rw_args (\<lambda>a.
     (case a of
         None \<Rightarrow> ret (-1)
       | Some (f, p, n) \<Rightarrow> filewrite f p n))"

definition sys_close :: "('z fstate_scheme, u32) routine" where
  "sys_close =
     bnd (argfd 0) (\<lambda>a.
     (case a of
         None \<Rightarrow> ret (-1)
       | Some (fd, f) \<Rightarrow>
           bnd curproc (\<lambda>p.
           seq (modify (upd_proc p (\<lambda>x. x\<lparr>ofile := (ofile x)[fd := None]\<rparr>))) (
           seq (fileclose f)
             (ret 0)))))"

definition sys_fstat :: "('z fstate_scheme, u32) routine" where
  "sys_fstat =
     bnd (argfd 0) (\<lambda>a.
     (case a of
         None \<Rightarrow> ret (-1)
       | Some (_, f) \<Rightarrow>
           bnd (argptr 1 20) (\<lambda>st.
           (case st of
               None \<Rightarrow> ret (-1)
             | Some st \<Rightarrow> filestat f st))))"

section \<open>Links\<close>

text \<open>The label \<^verbatim>\<open>bad\<close> of \<^verbatim>\<open>sys_link\<close>.\<close>

definition link_bad :: "nat \<Rightarrow> ('z fstate_scheme, u32) routine" where
  "link_bad ip =
     seq (ilock ip) (
     seq (modify (upd_di ip (\<lambda>x. x\<lparr>di_nlink := di_nlink x - 1\<rparr>))) (
     seq (iupdate ip) (
     seq (iunlockput ip) (
     seq end_op
       (ret (-1))))))"

definition do_link :: "byte list \<Rightarrow> byte list \<Rightarrow> ('z fstate_scheme, u32) routine" where
  "do_link old new =
     seq begin_op (
     bnd (namei old) (\<lambda>r.
     (case r of
         None \<Rightarrow>
           seq end_op
             (ret (-1))
       | Some ip \<Rightarrow>
           seq (ilock ip) (
           bnd (gets (\<lambda>s. di_type (i_di (icache s ! ip)))) (\<lambda>ty.
           if ty = T_DIR then
             seq (iunlockput ip) (
             seq end_op
               (ret (-1)))
           else
             seq (modify (upd_di ip (\<lambda>x. x\<lparr>di_nlink := di_nlink x + 1\<rparr>))) (
             seq (iupdate ip) (
             seq (iunlock ip) (
             bnd (nameiparent new) (\<lambda>d.
             (case d of
                 None \<Rightarrow> link_bad ip
               | Some (dp, nm) \<Rightarrow>
                   seq (ilock dp) (
                   bnd (gets (\<lambda>s. i_dev (icache s ! dp) = i_dev (icache s ! ip))) (\<lambda>same.
                   bnd (gets (\<lambda>s. i_inum (icache s ! ip))) (\<lambda>ino.
                   bnd (if same then
                      dirlink dp nm ino
                    else
                      ret (-1)) (\<lambda>r.
                   seq (iunlockput dp) (
                   if r < 0 then
                     link_bad ip
                   else
                     seq (iput ip) (
                     seq end_op
                       (ret 0)))))))))))))))))"

definition sys_link :: "('z fstate_scheme, u32) routine" where
  "sys_link =
     bnd (argstr 0) (\<lambda>a.
     (case a of
         None \<Rightarrow> ret (-1)
       | Some old \<Rightarrow>
           bnd (argstr 1) (\<lambda>b.
           (case b of
               None \<Rightarrow> ret (-1)
             | Some new \<Rightarrow> do_link old new))))"

definition isdirempty :: "nat \<Rightarrow> ('z fstate_scheme, bool) routine" where
  "isdirempty dp =
     bnd (gets (\<lambda>s. di_size (i_di (icache s ! dp)))) (\<lambda>n.
     loop (unat n div 16 + 2) (2 * dirent_size) (\<lambda>off.
       if \<not> off < n then ret (Inr True)
       else
         bnd (readi dp None off dirent_size) (\<lambda>r.
         if fst r \<noteq> dirent_size then panic ''isdirempty: readi''
         else
           ret (if de_inum (get_dirent (snd r)) \<noteq> 0 then Inr False else Inl (off + dirent_size)))))"

text \<open>The label \<^verbatim>\<open>bad\<close> of \<^verbatim>\<open>sys_unlink\<close>.\<close>

definition unlink_bad :: "nat \<Rightarrow> ('z fstate_scheme, u32) routine" where
  "unlink_bad dp =
     seq (iunlockput dp) (
     seq end_op
       (ret (-1)))"

definition do_unlink :: "byte list \<Rightarrow> ('z fstate_scheme, u32) routine" where
  "do_unlink path =
     seq begin_op (
     bnd (nameiparent path) (\<lambda>d.
     (case d of
         None \<Rightarrow>
           seq end_op
             (ret (-1))
       | Some (dp, nm) \<Rightarrow>
           seq (ilock dp) (
           if namecmp nm [46] = 0 \<or> namecmp nm [46, 46] = 0 then unlink_bad dp
           else
             bnd (dirlookup dp nm) (\<lambda>l.
             (case l of
                 None \<Rightarrow> unlink_bad dp
               | Some (ip, off) \<Rightarrow>
                   seq (ilock ip) (
                   bnd (gets (\<lambda>s. i_di (icache s ! ip))) (\<lambda>di.
                   if sint (di_nlink di) < 1 then panic ''unlink: nlink < 1''
                   else
                     bnd (if di_type di = T_DIR then
                        bnd (isdirempty ip) (\<lambda>e.
                        ret (\<not> e))
                      else
                        ret False) (\<lambda>full.
                     if full then
                       seq (iunlockput ip)
                         (unlink_bad dp)
                     else
                       bnd (writei dp (FromBytes (replicate 16 0)) off dirent_size) (\<lambda>w.
                       if w \<noteq> dirent_size then panic ''unlink: writei''
                       else
                         seq (doif (di_type di = T_DIR) (
                            seq (modify (upd_di dp (\<lambda>x. x\<lparr>di_nlink := di_nlink x - 1\<rparr>)))
                              (iupdate dp))) (
                         seq (iunlockput dp) (
                         seq (modify (upd_di ip (\<lambda>x. x\<lparr>di_nlink := di_nlink x - 1\<rparr>))) (
                         seq (iupdate ip) (
                         seq (iunlockput ip) (
                         seq end_op
                           (ret 0))))))))))))))))"

definition sys_unlink :: "('z fstate_scheme, u32) routine" where
  "sys_unlink =
     bnd (argstr 0) (\<lambda>a.
     (case a of
         None \<Rightarrow> ret (-1)
       | Some path \<Rightarrow> do_unlink path))"

section \<open>Creating and opening\<close>

text \<open>The result is a locked inode.\<close>

definition create :: "byte list \<Rightarrow> u16 \<Rightarrow> u16 \<Rightarrow> u16 \<Rightarrow> ('z fstate_scheme, nat option) routine" where
  "create path ty major minor =
     bnd (nameiparent path) (\<lambda>d.
     (case d of
         None \<Rightarrow> ret None
       | Some (dp, nm) \<Rightarrow>
           seq (ilock dp) (
           bnd (dirlookup dp nm) (\<lambda>l.
           (case l of
               Some (ip, _) \<Rightarrow>
                 seq (iunlockput dp) (
                 seq (ilock ip) (
                 bnd (gets (\<lambda>s. di_type (i_di (icache s ! ip)))) (\<lambda>t.
                 if ty = T_FILE \<and> t = T_FILE then
                   ret (Some ip)
                 else
                   seq (iunlockput ip)
                     (ret None))))
             | None \<Rightarrow>
                 bnd (gets (\<lambda>s. i_dev (icache s ! dp))) (\<lambda>dv.
                 bnd (ialloc dv ty) (\<lambda>ip.
                 seq (ilock ip) (
                 seq (modify (upd_di ip (\<lambda>x. x\<lparr>di_major := major, di_minor := minor, di_nlink := 1\<rparr>))) (
                 seq (iupdate ip) (
                 seq (doif (ty = T_DIR) (
                    seq (modify (upd_di dp (\<lambda>x. x\<lparr>di_nlink := di_nlink x + 1\<rparr>))) (
                    seq (iupdate dp) (
                    bnd (gets (\<lambda>s. i_inum (icache s ! ip))) (\<lambda>own.
                    bnd (gets (\<lambda>s. i_inum (icache s ! dp))) (\<lambda>up.
                    bnd (dirlink ip [46] own) (\<lambda>r.
                    if r < 0 then panic ''create dots''
                    else
                      bnd (dirlink ip [46, 46] up) (\<lambda>r2.
                      doif (r2 < 0) (
                        panic ''create dots''))))))))) (
                 bnd (gets (\<lambda>s. i_inum (icache s ! ip))) (\<lambda>own.
                 bnd (dirlink dp nm own) (\<lambda>r.
                 if r < 0 then panic ''create: dirlink''
                 else
                   seq (iunlockput dp)
                     (ret (Some ip)))))))))))))))"


text \<open>The inode to open, locked, or nothing.\<close>

definition open_inode :: "byte list \<Rightarrow> u32 \<Rightarrow> ('z fstate_scheme, nat option) routine" where
  "open_inode path omode =
     (if omode AND O_CREATE \<noteq> 0 then
       create path T_FILE 0 0
     else
       bnd (namei path) (\<lambda>r.
       (case r of
           None \<Rightarrow> ret None
         | Some ip \<Rightarrow>
             seq (ilock ip) (
             bnd (gets (\<lambda>s. di_type (i_di (icache s ! ip)))) (\<lambda>t.
             if t = T_DIR \<and> omode \<noteq> O_RDONLY then
               seq (iunlockput ip)
                 (ret None)
             else
               ret (Some ip))))))"

definition do_open :: "byte list \<Rightarrow> u32 \<Rightarrow> ('z fstate_scheme, u32) routine" where
  "do_open path omode =
     seq begin_op (
     bnd (open_inode path omode) (\<lambda>r.
     (case r of
         None \<Rightarrow>
           seq end_op
             (ret (-1))
       | Some ip \<Rightarrow>
           bnd filealloc (\<lambda>f0.
           bnd (case f0 of
                None \<Rightarrow> ret None
              | Some f \<Rightarrow>
                  bnd (fdalloc f) (\<lambda>fd.
                  ret (map_option (\<lambda>d. (f, d)) fd))) (\<lambda>fd0.
           (case fd0 of
               None \<Rightarrow>
                 seq (case f0 of
                      None \<Rightarrow> ret ()
                    | Some f \<Rightarrow> fileclose f) (
                 seq (iunlockput ip) (
                 seq end_op
                   (ret (-1))))
             | Some (f, fd) \<Rightarrow>
                 seq (iunlock ip) (
                 seq end_op (
                 seq (modify (upd_file f (\<lambda>x. x\<lparr>f_type := FD_INODE, f_ip := ip, f_off := 0, f_readable := (omode AND O_WRONLY = 0), f_writable := (omode AND O_WRONLY \<noteq> 0 \<or> omode AND O_RDWR \<noteq> 0)\<rparr>)))
                   (ret (of_nat fd))))))))))"

definition sys_open :: "('z fstate_scheme, u32) routine" where
  "sys_open =
     bnd (argstr 0) (\<lambda>a.
     (case a of
         None \<Rightarrow> ret (-1)
       | Some path \<Rightarrow>
           bnd (argint 1) (\<lambda>m.
           (case m of
               None \<Rightarrow> ret (-1)
             | Some omode \<Rightarrow> do_open path omode))))"

text \<open>How \<^verbatim>\<open>mkdir\<close> and \<^verbatim>\<open>mknod\<close> end.\<close>

definition made :: "nat option \<Rightarrow> ('z fstate_scheme, u32) routine" where
  "made ip0 =
     (case ip0 of
         None \<Rightarrow>
           seq end_op
             (ret (-1))
       | Some ip \<Rightarrow>
           seq (iunlockput ip) (
           seq end_op
             (ret 0)))"

definition sys_mkdir :: "('z fstate_scheme, u32) routine" where
  "sys_mkdir =
     seq begin_op (
     bnd (argstr 0) (\<lambda>a.
     bnd (case a of
          None \<Rightarrow> ret None
        | Some path \<Rightarrow> create path T_DIR 0 0) (\<lambda>ip.
     made ip)))"

definition sys_mknod :: "('z fstate_scheme, u32) routine" where
  "sys_mknod =
     seq begin_op (
     bnd (argstr 0) (\<lambda>a.
     bnd (case a of
          None \<Rightarrow> ret None
        | Some path \<Rightarrow>
            bnd (argint 1) (\<lambda>mj.
            (case mj of
                None \<Rightarrow> ret None
              | Some major \<Rightarrow>
                  bnd (argint 2) (\<lambda>mn.
                  (case mn of
                      None \<Rightarrow> ret None
                    | Some minor \<Rightarrow> create path T_DEV (ucast major) (ucast minor)))))) (\<lambda>ip.
     made ip)))"

definition sys_chdir :: "('z fstate_scheme, u32) routine" where
  "sys_chdir =
     bnd curproc (\<lambda>cp.
     seq begin_op (
     bnd (argstr 0) (\<lambda>a.
     bnd (case a of
          None \<Rightarrow> ret None
        | Some path \<Rightarrow> namei path) (\<lambda>r.
     (case r of
         None \<Rightarrow>
           seq end_op
             (ret (-1))
       | Some ip \<Rightarrow>
           seq (ilock ip) (
           bnd (gets (\<lambda>s. di_type (i_di (icache s ! ip)))) (\<lambda>t.
           if t \<noteq> T_DIR then
             seq (iunlockput ip) (
             seq end_op
               (ret (-1)))
           else
             seq (iunlock ip) (
             bnd (gets (\<lambda>s. cwd (procs s ! cp))) (\<lambda>d.
             seq (case d of
                  None \<Rightarrow> stuck ''null pointer''
                | Some i \<Rightarrow> iput i) (
             seq end_op (
             seq (modify (upd_proc cp (\<lambda>x. x\<lparr>cwd := Some ip\<rparr>)))
               (ret 0))))))))))))"

section \<open>Exec and pipe\<close>

definition fetch_argv :: "u32 \<Rightarrow> ('z mstate_scheme, byte list list option) routine" where
  "fetch_argv uargv =
     loop (MAXARG + 1) (0, []) (\<lambda>(i, argv).
       if MAXARG \<le> i then ret (Inr None)
       else
         bnd (fetchint (uargv + 4 * of_nat i)) (\<lambda>a.
         (case a of
             None \<Rightarrow> ret (Inr None)
           | Some uarg \<Rightarrow>
               if uarg = 0 then ret (Inr (Some argv))
               else
                 bnd (fetchstr uarg) (\<lambda>t.
                 (case t of
                     None \<Rightarrow> ret (Inr None)
                   | Some t \<Rightarrow> ret (Inl (i + 1, argv @ [t])))))))"

definition sys_exec :: "('z fstate_scheme, u32) routine" where
  "sys_exec =
     bnd (argstr 0) (\<lambda>a.
     (case a of
         None \<Rightarrow> ret (-1)
       | Some path \<Rightarrow>
           bnd (argint 1) (\<lambda>u.
           (case u of
               None \<Rightarrow> ret (-1)
             | Some uargv \<Rightarrow>
                 bnd (fetch_argv uargv) (\<lambda>argv.
                 (case argv of
                     None \<Rightarrow> ret (-1)
                   | Some argv \<Rightarrow> exec path argv))))))"

definition sys_pipe :: "('z fstate_scheme, u32) routine" where
  "sys_pipe =
     bnd (argptr 0 8) (\<lambda>a.
     (case a of
         None \<Rightarrow> ret (-1)
       | Some fd \<Rightarrow>
           bnd pipealloc (\<lambda>pp.
           (case pp of
               None \<Rightarrow> ret (-1)
             | Some (rd, wr) \<Rightarrow>
                 bnd (fdalloc rd) (\<lambda>fd0.
                 bnd (case fd0 of
                      None \<Rightarrow> ret None
                    | Some _ \<Rightarrow> fdalloc wr) (\<lambda>fd1.
                 (case fd1 of
                     None \<Rightarrow>
                       seq (case fd0 of
                            None \<Rightarrow> ret ()
                          | Some d \<Rightarrow>
                              bnd curproc (\<lambda>p.
                              modify (upd_proc p (\<lambda>x. x\<lparr>ofile := (ofile x)[d := None]\<rparr>)))) (
                       seq (fileclose rd) (
                       seq (fileclose wr)
                         (ret (-1))))
                   | Some d1 \<Rightarrow>
                       seq (store32 fd (of_nat (the fd0))) (
                       seq (store32 (fd + 4) (of_nat d1))
                         (ret 0)))))))))"

end
