(* ===== verification/Syscall.thy ===== *)
theory Syscall
  imports Sysfile
begin

text \<open>
  The process system calls (\<^verbatim>\<open>sysproc.c\<close>) and the dispatch of system calls (second half of
  \<^verbatim>\<open>syscall.c\<close>). This theory holds the definitions.
\<close>

section \<open>Process calls\<close>

definition sys_fork :: "('z fstate_scheme, u32) routine" where
  "sys_fork =
     fork"

definition sys_exit :: "('z fstate_scheme, u32) routine" where
  "sys_exit =
     seq exit
       (ret 0)"

text \<open>The code uses the pointer even when \<^verbatim>\<open>argptr\<close> fails and leaves it uninitialised.\<close>

definition sys_diagwait :: "('z fstate_scheme, u32) routine" where
  "sys_diagwait =
     bnd (argptr 0 12) (\<lambda>a.
     bnd (gets (\<lambda>s. wait_rounds s)) (\<lambda>n.
     (case a of
         None \<Rightarrow> stuck ''uninitialised''
       | Some a \<Rightarrow> diagwait n a)))"

definition sys_wait :: "('z fstate_scheme, u32) routine" where
  "sys_wait =
     bnd (gets (\<lambda>s. wait_rounds s)) (\<lambda>n.
     wait n)"

definition sys_kill :: "('z fstate_scheme, u32) routine" where
  "sys_kill =
     bnd (argint 0) (\<lambda>a.
     (case a of
         None \<Rightarrow> ret (-1)
       | Some k \<Rightarrow> kill k))"

definition sys_getpid :: "('z fstate_scheme, u32) routine" where
  "sys_getpid =
     bnd curproc (\<lambda>p.
     gets (\<lambda>s. pid (procs s ! p)))"

definition sys_sbrk :: "('z fstate_scheme, u32) routine" where
  "sys_sbrk =
     bnd (argint 0) (\<lambda>a.
     (case a of
         None \<Rightarrow> ret (-1)
       | Some n \<Rightarrow>
           bnd curproc (\<lambda>p.
           bnd (gets (\<lambda>s. sz (procs s ! p))) (\<lambda>addr.
           bnd (growproc n) (\<lambda>r.
           ret (if sint r < 0 then -1 else addr))))))"

definition sys_sleep :: "('z fstate_scheme, u32) routine" where
  "sys_sleep =
     bnd (argint 0) (\<lambda>a.
     (case a of
         None \<Rightarrow> ret (-1)
       | Some n \<Rightarrow>
           seq (acquire TicksLock) (
           bnd (gets (\<lambda>s. ticks s)) (\<lambda>ticks0.
           bnd (wait_loop (
              bnd (gets (\<lambda>s. ticks s - ticks0 < n)) (\<lambda>early.
              if \<not> early then ret (Inr True)
              else
                bnd curproc (\<lambda>p.
                bnd (gets (\<lambda>s. killed (procs s ! p))) (\<lambda>dead.
                if dead then
                  seq (release TicksLock)
                    (ret (Inr False))
                else
                  seq (sleep ChanTicks TicksLock)
                    (ret (Inl ()))))))) (\<lambda>ok.
           if \<not> ok then ret (-1)
           else
             seq (release TicksLock)
               (ret 0))))))"

definition sys_uptime :: "('z fstate_scheme, u32) routine" where
  "sys_uptime =
     seq (acquire TicksLock) (
     bnd (gets (\<lambda>s. ticks s)) (\<lambda>x.
     seq (release TicksLock)
       (ret x)))"

definition sys_getpage :: "('z fstate_scheme, u32) routine" where
  "sys_getpage =
     getpage"

definition sys_detachpage :: "('z fstate_scheme, u32) routine" where
  "sys_detachpage =
     bnd (argint 0) (\<lambda>a.
     (case a of
         None \<Rightarrow> ret (-1)
       | Some loc \<Rightarrow> detachpage loc))"

definition sys_thread_create :: "('z fstate_scheme, u32) routine" where
  "sys_thread_create =
     bnd (argint 0) (\<lambda>a.
     (case a of
         None \<Rightarrow> ret (-1)
       | Some stack \<Rightarrow> thread_create stack))"

definition sys_thread_id :: "('z fstate_scheme, u32) routine" where
  "sys_thread_id =
     bnd curproc (\<lambda>p.
     gets (\<lambda>s. pid (procs s ! p)))"

definition sys_thread_join :: "('z fstate_scheme, u32) routine" where
  "sys_thread_join =
     bnd (argint 0) (\<lambda>a.
     bnd (gets (\<lambda>s. wait_rounds s)) (\<lambda>n.
     (case a of
         None \<Rightarrow> ret (-1)
       | Some k \<Rightarrow> thread_join n k)))"

definition sys_change_policy :: "('z fstate_scheme, u32) routine" where
  "sys_change_policy =
     bnd (argint 0) (\<lambda>a.
     (case a of
         None \<Rightarrow> ret (-1)
       | Some pol \<Rightarrow> change_policy pol))"

definition sys_get_policy :: "('z fstate_scheme, u32) routine" where
  "sys_get_policy =
     get_policy"

definition sys_set_priority :: "('z fstate_scheme, u32) routine" where
  "sys_set_priority =
     bnd (argint 0) (\<lambda>a.
     (case a of
         None \<Rightarrow> ret (-1)
       | Some prio \<Rightarrow>
           seq (set_priority prio)
             (ret 1)))"

definition sys_get_proc_times :: "('z fstate_scheme, unit) routine" where
  "sys_get_proc_times =
     bnd (argptr 0 12) (\<lambda>a.
     (case a of
         None \<Rightarrow> stuck ''uninitialised''
       | Some a \<Rightarrow> get_proc_times a))"

definition sys_get_ticketCount :: "('z fstate_scheme, u32) routine" where
  "sys_get_ticketCount =
     get_ticketCount"

definition sys_set_ticketCount :: "('z fstate_scheme, u32) routine" where
  "sys_set_ticketCount =
     bnd (argint 0) (\<lambda>a.
     (case a of
         None \<Rightarrow> ret (-1)
       | Some n \<Rightarrow>
           if 0 < sint n then
             seq (set_ticketCount n)
               (ret 0)
           else
             ret (-1)))"

section \<open>Dispatch\<close>

text \<open>
  The table of system calls, by the numbers of \<^verbatim>\<open>syscall.h\<close>. \<open>junk\<close> is what the register
  holds after the call of \<^verbatim>\<open>sys_get_proc_times\<close>, which has no result although the table
  says it does.
\<close>

definition syscalls :: "u32 \<Rightarrow> ('z fstate_scheme, u32) routine list" where
  "syscalls junk =
     [sys_fork, sys_exit, sys_diagwait, sys_wait, sys_pipe, sys_read, sys_kill, sys_exec, sys_fstat,
      sys_chdir, sys_dup, sys_getpid, sys_sbrk, sys_sleep, sys_uptime, sys_open, sys_write, sys_mknod,
      sys_unlink, sys_link, sys_mkdir, sys_close, sys_getpage, sys_detachpage, sys_thread_create,
      sys_thread_id, sys_thread_join, sys_get_policy, sys_change_policy, sys_set_priority,
      seq sys_get_proc_times (ret junk), sys_get_ticketCount, sys_set_ticketCount]"

definition syscall :: "u32 \<Rightarrow> ('z fstate_scheme, unit) routine" where
  "syscall junk =
     bnd curproc (\<lambda>cp.
     bnd (gets (\<lambda>s. tf_eax (tf (procs s ! cp)))) (\<lambda>num.
     if 0 < sint num \<and> sint num \<le> int (length (syscalls junk :: ('z fstate_scheme, u32) routine list)) then
       bnd (syscalls junk ! (unat num - 1)) (\<lambda>r.
       modify (upd_proc cp (\<lambda>x. x\<lparr>tf := (tf x)\<lparr>tf_eax := r\<rparr>\<rparr>)))
     else
       bnd (gets (\<lambda>s. procs s ! cp)) (\<lambda>x.
       seq (cprintf (''%d %s: unknown sys call %d'' @ [CHR 0x0A]) [CInt (pid x), CStr (Some (name_of x)), CInt num])
         (modify (upd_proc cp (\<lambda>x. x\<lparr>tf := (tf x)\<lparr>tf_eax := -1\<rparr>\<rparr>))))))"

end
