(* ===== verification/Trap.thy ===== *)
theory Trap
  imports Syscall
begin

text \<open>
  Traps and interrupts (\<^verbatim>\<open>trap.c\<close>): the gate descriptors, the clock, the dispatch to the
  drivers, and the points where a process is made to exit or to give up the processor. The entry
  points of \<^verbatim>\<open>vectors.S\<close>, which the build generates, are a parameter. This theory holds the
  definitions.
\<close>

section \<open>State\<close>

definition T_SYSCALL :: u32 where "T_SYSCALL = 64"
definition T_IRQ0 :: u32 where "T_IRQ0 = 32"
definition IRQ_TIMER :: u32 where "IRQ_TIMER = 0"
definition IRQ_KBD :: u32 where "IRQ_KBD = 1"
definition IRQ_COM1 :: u32 where "IRQ_COM1 = 4"
definition IRQ_IDE :: u32 where "IRQ_IDE = 14"
definition IRQ_SPURIOUS :: u32 where "IRQ_SPURIOUS = 31"

record gatedesc =
  g_off_15_0 :: u16
  g_cs :: u16
  g_args :: "5 word"
  g_rsv1 :: "3 word"
  g_type :: "4 word"
  g_s :: "1 word"
  g_dpl :: "2 word"
  g_p :: "1 word"
  g_off_31_16 :: u16

definition SETGATE :: "bool \<Rightarrow> u16 \<Rightarrow> u32 \<Rightarrow> 2 word \<Rightarrow> gatedesc" where
  "SETGATE istrap sel off d = \<lparr>g_off_15_0 = ucast (off AND 0xffff), g_cs = sel, g_args = 0, g_rsv1 = 0,
     g_type = (if istrap then 0xF else 0xE), g_s = 0, g_dpl = d, g_p = 1, g_off_31_16 = ucast (drop_bit 16 off)\<rparr>"

text \<open>\<open>idt\<close> is the table, \<open>hw_idt\<close> tells which processors have loaded it, and
  \<open>hw_cr2\<close> is the fault address register.\<close>

record tstate = fstate +
  idt :: "nat \<Rightarrow> gatedesc"
  hw_idt :: "nat \<Rightarrow> bool"
  hw_cr2 :: "nat \<Rightarrow> u32"

definition rcr2 :: "'z tstate_scheme \<Rightarrow> u32" where
  "rcr2 s = hw_cr2 s (hw_cpu s)"

section \<open>Initialisation\<close>

definition tvinit :: "(nat \<Rightarrow> u32) \<Rightarrow> ('z tstate_scheme, unit) routine" where
  "tvinit vectors =
     seq (for_each [0..<256] (\<lambda>i.
        modify (\<lambda>s. s\<lparr>idt := (idt s)(i := SETGATE False (of_nat (8 * SEG_KCODE)) (vectors i) 0)\<rparr>))) (
     seq (modify (\<lambda>s. s\<lparr>idt := (idt s)(64 := SETGATE True (of_nat (8 * SEG_KCODE)) (vectors 64) (of_nat DPL_USER))\<rparr>))
       (initlock TicksLock ''time''))"

definition lidt :: "('z tstate_scheme, unit) routine" where
  "lidt =
     modify (\<lambda>s. s\<lparr>hw_idt := (hw_idt s)(hw_cpu s := True)\<rparr>)"

definition idtinit :: "('z tstate_scheme, unit) routine" where
  "idtinit =
     lidt"

section \<open>Handlers\<close>

definition kbdintr :: "('z cstate_scheme, unit) routine" where
  "kbdintr =
     consoleintr kbdgetc"

definition uartintr :: "('z cstate_scheme, unit) routine" where
  "uartintr =
     consoleintr uartgetc"

text \<open>The handler of the linked disk driver.\<close>

definition ideintr :: "('z bstate_scheme, unit) routine" where
  "ideintr =
     bnd (gets (\<lambda>s. memfs s)) (\<lambda>m.
     if m then
       memide_intr
     else
       ide_intr)"

text \<open>The clock ticks on the first processor.\<close>

definition timer_tick :: "('z kstate_scheme, unit) routine" where
  "timer_tick =
     bnd cpuid (\<lambda>c.
     doif (c = 0) (
       seq (acquire TicksLock) (
       seq (modify (\<lambda>s. s\<lparr>ticks := ticks s + 1\<rparr>)) (
       seq (wakeup ChanTicks)
         (release TicksLock)))))"

definition unexpected_trap :: "trapframe \<Rightarrow> ('z tstate_scheme, unit) routine" where
  "unexpected_trap f =
     bnd myproc (\<lambda>p0.
     bnd cpuid (\<lambda>c.
     bnd (gets (\<lambda>s. rcr2 s)) (\<lambda>a.
     (case p0 of
         None \<Rightarrow>
           seq (cprintf (''unexpected trap %d from cpu %d eip %x (cr2=0x%x)'' @ [CHR 0x0A]) [CInt (tf_trapno f), CInt (of_nat c), CInt (tf_eip f), CInt a])
             (panic ''trap'')
       | Some p \<Rightarrow>
           if tf_cs f AND 3 = 0 then
             seq (cprintf (''unexpected trap %d from cpu %d eip %x (cr2=0x%x)'' @ [CHR 0x0A]) [CInt (tf_trapno f), CInt (of_nat c), CInt (tf_eip f), CInt a])
               (panic ''trap'')
           else
             bnd (gets (\<lambda>s. procs s ! p)) (\<lambda>x.
             seq (cprintf (''pid %d %s: trap %d err %d on cpu %d eip 0x%x addr 0x%x--kill proc'' @ [CHR 0x0A]) [CInt (pid x), CStr (Some (name_of x)), CInt (tf_trapno f), CInt (tf_err f), CInt (of_nat c), CInt (tf_eip f), CInt a])
               (modify (upd_proc p (\<lambda>x. x\<lparr>killed := True\<rparr>))))))))"

text \<open>The \<^verbatim>\<open>switch\<close> over the trap number.\<close>

definition trap_dispatch :: "trapframe \<Rightarrow> ('z tstate_scheme, unit) routine" where
  "trap_dispatch f =
     (let no = tf_trapno f in
     if no = T_IRQ0 + IRQ_TIMER then
       seq timer_tick
         lapiceoi
     else if no = T_IRQ0 + IRQ_IDE then
       seq ideintr
         lapiceoi
     else if no = T_IRQ0 + IRQ_IDE + 1 then
       ret ()
     else if no = T_IRQ0 + IRQ_KBD then
       seq kbdintr
         lapiceoi
     else if no = T_IRQ0 + IRQ_COM1 then
       seq uartintr
         lapiceoi
     else if no = T_IRQ0 + 7 \<or> no = T_IRQ0 + IRQ_SPURIOUS then
       bnd cpuid (\<lambda>c.
       seq (cprintf (''cpu%d: spurious interrupt at %x:%x'' @ [CHR 0x0A]) [CInt (of_nat c), CInt (ucast (tf_cs f)), CInt (tf_eip f)])
         lapiceoi)
     else
       unexpected_trap f)"

text \<open>A killed process exits when it is about to return to user space.\<close>

definition exit_if_killed :: "trapframe \<Rightarrow> ('z fstate_scheme, unit) routine" where
  "exit_if_killed f =
     bnd myproc (\<lambda>p0.
     (case p0 of
         None \<Rightarrow> ret ()
       | Some p \<Rightarrow>
           bnd (gets (\<lambda>s. killed (procs s ! p))) (\<lambda>dead.
           doif (dead \<and> tf_cs f AND 3 = of_nat DPL_USER) exit)))"

text \<open>The tick that ends the quantum of the running process. The counter is unsigned.\<close>

definition tick_quantum :: "trapframe \<Rightarrow> ('z kstate_scheme, unit) routine" where
  "tick_quantum f =
     bnd myproc (\<lambda>p0.
     (case p0 of
         None \<Rightarrow> ret ()
       | Some p \<Rightarrow>
           bnd (gets (\<lambda>s. state (procs s ! p))) (\<lambda>st.
           doif (st = RUNNING \<and> tf_trapno f = T_IRQ0 + IRQ_TIMER) (
             bnd mycpu (\<lambda>c.
             seq (modify (upd_cpu c (\<lambda>k. k\<lparr>ctr := ctr k - 1\<rparr>))) (
             bnd (gets (\<lambda>s. ctr (cpus s ! c))) (\<lambda>k.
             doif (k \<le> 0) yield)))))))"

definition exit_killed :: "('z fstate_scheme, unit) routine" where
  "exit_killed =
     bnd curproc (\<lambda>p.
     bnd (gets (\<lambda>s. killed (procs s ! p))) (\<lambda>dead.
     doif dead exit))"

definition trap :: "u32 \<Rightarrow> trapframe \<Rightarrow> ('z tstate_scheme, unit) routine" where
  "trap junk f =
     (if tf_trapno f = T_SYSCALL then
       seq exit_killed (
       bnd curproc (\<lambda>p.
       seq (modify (upd_proc p (\<lambda>x. x\<lparr>tf := f\<rparr>))) (
       seq (syscall junk)
         exit_killed)))
     else
       seq (trap_dispatch f) (
       seq (exit_if_killed f) (
       seq (tick_quantum f)
         (exit_if_killed f))))"

end
