(* ===== verification/Boot.thy ===== *)
theory Boot
  imports Trap
begin

text \<open>
  Starting the machine: the boot loader (\<^verbatim>\<open>bootmain.c\<close>), the search for the multiprocessor
  tables (\<^verbatim>\<open>mp.c\<close>), starting the other processors (\<^verbatim>\<open>lapicstartap\<close> of
  \<^verbatim>\<open>lapic.c\<close>) and the initialisation of the kernel (\<^verbatim>\<open>main.c\<close>). Physical
  memory is seen through the kernel's direct map.
\<close>

section \<open>The boot loader\<close>

definition waitdisk :: "('z bstate_scheme, unit) routine" where
  "waitdisk =
     wait_loop (
       bnd (inb 0x1f7) (\<lambda>r.
       ret (if r AND 0xC0 \<noteq> 0x40 then Inl () else Inr ())))"

definition readsect :: "u32 \<Rightarrow> u32 \<Rightarrow> ('z bstate_scheme, unit) routine" where
  "readsect dst offset =
     seq waitdisk (
     seq (outb 0x1f2 1) (
     seq (outb 0x1f3 (ucast offset)) (
     seq (outb 0x1f4 (ucast (drop_bit 8 offset))) (
     seq (outb 0x1f5 (ucast (drop_bit 16 offset))) (
     seq (outb 0x1f6 (ucast (drop_bit 24 offset OR 0xE0))) (
     seq (outb 0x1f7 0x20) (
     seq waitdisk (
     bnd (gets (\<lambda>s. map (\<lambda>i. port32_in s (port32_reads s + i)) [0..<128])) (\<lambda>ws.
     modify (\<lambda>s. s\<lparr>ram := put_words ws (P2V dst) (ram s), port32_reads := port32_reads s + 128\<rparr>))))))))))"

text \<open>One round per sector.\<close>

definition readseg :: "u32 \<Rightarrow> u32 \<Rightarrow> u32 \<Rightarrow> ('z bstate_scheme, unit) routine" where
  "readseg pa count offset =
     (let epa = pa + count in
     loop (unat count div 512 + 3) (pa - offset mod 512, offset div 512 + 1) (\<lambda>(pa, offset).
       if \<not> pa < epa then ret (Inr ())
       else
         seq (readsect pa offset)
           (ret (Inl (pa + 512, offset + 1)))))"

text \<open>The result is the entry point, or nothing when the image is not an ELF file.\<close>

definition bootmain :: "('z bstate_scheme, u32 option) routine" where
  "bootmain =
     (let elf = 0x10000 in
     seq (readseg elf 4096 0) (
     bnd (gets (\<lambda>s. ld32 (ram s) (P2V elf))) (\<lambda>magic.
     if magic \<noteq> ELF_MAGIC then ret None
     else
       bnd (gets (\<lambda>s. ld32 (ram s) (P2V elf + 28))) (\<lambda>phoff.
       bnd (gets (\<lambda>s. ld16 (ram s) (P2V elf + 44))) (\<lambda>phnum.
       seq (for_each [0..<unat phnum] (\<lambda>i.
          let ph = P2V elf + phoff + 32 * of_nat i in
          bnd (gets (\<lambda>s. ld32 (ram s) (ph + 12))) (\<lambda>pa.
          bnd (gets (\<lambda>s. ld32 (ram s) (ph + 16))) (\<lambda>filesz.
          bnd (gets (\<lambda>s. ld32 (ram s) (ph + 20))) (\<lambda>memsz.
          bnd (gets (\<lambda>s. ld32 (ram s) (ph + 4))) (\<lambda>off.
          seq (readseg pa filesz off)
            (doif (filesz < memsz) (modify (\<lambda>s. s\<lparr>ram := stosb (ram s) (P2V (pa + filesz)) 0 (unat (memsz - filesz))\<rparr>))))))))) (
       bnd (gets (\<lambda>s. ld32 (ram s) (P2V elf + 24))) (\<lambda>entry.
       ret (Some entry))))))))"

section \<open>The multiprocessor tables\<close>

definition mem_bytes :: "mem \<Rightarrow> u32 \<Rightarrow> nat \<Rightarrow> byte list" where
  "mem_bytes m a n = map (\<lambda>i. m (a + of_nat i)) [0..<n]"

definition sum_bytes :: "mem \<Rightarrow> u32 \<Rightarrow> nat \<Rightarrow> byte" where
  "sum_bytes m addr len = sum_list (mem_bytes m addr len)"

definition mpsearch1 :: "mem \<Rightarrow> u32 \<Rightarrow> nat \<Rightarrow> u32 option" where
  "mpsearch1 m a len =
     List.find (\<lambda>p. mem_bytes m p 4 = map of_char ''_MP_'' \<and> sum_bytes m p 16 = 0)
       (map (\<lambda>i. P2V a + 16 * of_nat i) [0..<(len + 15) div 16])"

definition bda_word :: "mem \<Rightarrow> u32 \<Rightarrow> u32" where
  "bda_word m k = push_bit 8 (ucast (m (P2V 0x400 + k + 1))) OR ucast (m (P2V 0x400 + k))"

definition mpsearch :: "mem \<Rightarrow> u32 option" where
  "mpsearch m =
     (let p = push_bit 4 (bda_word m 0x0E);
          r = (if p \<noteq> 0 then mpsearch1 m p 1024 else mpsearch1 m (bda_word m 0x13 * 1024 - 1024) 1024)
      in case r of Some mp \<Rightarrow> Some mp | None \<Rightarrow> mpsearch1 m 0xF0000 0x10000)"

text \<open>The floating pointer and the configuration table.\<close>

definition mpconfig :: "mem \<Rightarrow> (u32 \<times> u32) option" where
  "mpconfig m =
     (case mpsearch m of
        None \<Rightarrow> None
      | Some mp \<Rightarrow>
          let physaddr = ld32 m (mp + 4); conf = P2V physaddr in
          if physaddr = 0 then None
          else if mem_bytes m conf 4 \<noteq> map of_char ''PCMP'' then None
          else if m (conf + 6) \<noteq> 1 \<and> m (conf + 6) \<noteq> 4 then None
          else if sum_bytes m conf (unat (ld16 m (conf + 4))) \<noteq> 0 then None
          else Some (mp, conf))"

text \<open>
  The walk over the table entries. An entry of unknown type ends the \<^verbatim>\<open>switch\<close> but not the
  loop, which then looks at the same entry again.
\<close>

definition mpinit :: "('z lstate_scheme, unit) routine" where
  "mpinit =
     bnd (gets (\<lambda>s. ram s)) (\<lambda>m.
     (case mpconfig m of
         None \<Rightarrow> panic ''Expect to run on an SMP''
       | Some (mp, conf) \<Rightarrow>
           seq (modify (\<lambda>s. s\<lparr>lapic_mapped := (ld32 m (conf + 36) \<noteq> 0)\<rparr>)) (
           bnd (gets (\<lambda>s. wait_rounds s)) (\<lambda>n.
           bnd (loop n (conf + 44, True) (\<lambda>(p, ismp).
              if \<not> p < conf + ucast (ld16 m (conf + 4)) then ret (Inr ismp)
              else
                let ty = m p in
                if ty = 0 then
                  bnd (gets (\<lambda>s. ncpu s)) (\<lambda>k.
                  seq (doif (k < NCPU) (
                     seq (modify (upd_cpu k (\<lambda>c. c\<lparr>apicid := m (p + 1)\<rparr>)))
                       (modify (\<lambda>s. s\<lparr>ncpu := ncpu s + 1\<rparr>))))
                    (ret (Inl (p + 20, ismp))))
                else if ty = 2 then
                  seq (modify (\<lambda>s. s\<lparr>ioapicid := ucast (m (p + 1))\<rparr>))
                    (ret (Inl (p + 8, ismp)))
                else if ty = 1 \<or> ty = 3 \<or> ty = 4 then
                  ret (Inl (p + 8, ismp))
                else
                  ret (Inl (p, False)))) (\<lambda>ismp.
           if \<not> ismp then panic (''Didn'' @ [CHR 0x27] @ ''t find a suitable machine'')
           else
             doif (m (mp + 12) \<noteq> 0) (
               seq (outb 0x22 0x70) (
               bnd (inb 0x23) (\<lambda>b.
               outb 0x23 (b OR 1)))))))))"

section \<open>Other processors\<close>

definition lapicstartap :: "byte \<Rightarrow> u32 \<Rightarrow> ('z mstate_scheme, unit) routine" where
  "lapicstartap apic addr =
     seq (outb 0x70 0xF) (
     seq (outb 0x71 0x0A) (
     seq (modify (\<lambda>s. s\<lparr>ram := st16 (ram s) (P2V (0x400 OR 0x67)) 0\<rparr>)) (
     seq (modify (\<lambda>s. s\<lparr>ram := st16 (ram s) (P2V (0x400 OR 0x67) + 2) (ucast (drop_bit 4 addr))\<rparr>)) (
     seq (lapicw (0x310 div 4) (push_bit 24 (ucast apic))) (
     seq (lapicw (0x300 div 4) (0x500 OR 0x8000 OR 0x4000)) (
     seq (microdelay 200) (
     seq (lapicw (0x300 div 4) (0x500 OR 0x8000)) (
     seq (microdelay 100) (
     for_each [0..<2] (\<lambda>i.
       seq (lapicw (0x310 div 4) (push_bit 24 (ucast apic))) (
       seq (lapicw (0x300 div 4) (0x600 OR drop_bit 12 addr))
         (microdelay 200))))))))))))"

definition PTE_PS :: u32 where "PTE_PS = 0x80"

definition entrypgdir :: "nat \<Rightarrow> u32" where
  "entrypgdir i = (if i = 0 \<or> i = unat (drop_bit 22 KERNBASE) then 0 OR PTE_P OR PTE_W OR PTE_PS else 0)"

text \<open>
  The linked entry code is at \<open>code\<close> with \<open>n\<close> bytes, the routine \<^verbatim>\<open>mpenter\<close> and the table
  \<open>entrypgdir\<close> at the addresses given. Waiting for a processor to start lets it run.
\<close>

definition startothers :: "u32 \<Rightarrow> u32 \<Rightarrow> u32 \<Rightarrow> u32 \<Rightarrow> ('z lstate_scheme, unit) routine" where
  "startothers code n mpenter_addr pgdir_addr =
     (let dst = P2V 0x7000 in
     seq (kmemmove dst code n) (
     bnd (gets (\<lambda>s. ncpu s)) (\<lambda>k.
     for_each [0..<k] (\<lambda>c.
       bnd mycpu (\<lambda>own.
       doif (c \<noteq> own) (
         bnd kalloc (\<lambda>stack.
         seq (wr32 (dst - 4) (stack + KSTACKSIZE)) (
         seq (wr32 (dst - 8) mpenter_addr) (
         seq (wr32 (dst - 12) (V2P pgdir_addr)) (
         bnd (gets (\<lambda>s. apicid (cpus s ! c))) (\<lambda>a.
         seq (lapicstartap a (V2P dst)) (
         wait_loop (
           bnd (gets (\<lambda>s. started (cpus s ! c))) (\<lambda>up.
           if up = 0 then
             seq switch
               (ret (Inl ()))
           else
             ret (Inr ())))))))))))))))"

section \<open>Initialisation\<close>

definition mpmain :: "('z tstate_scheme, unit) routine" where
  "mpmain =
     bnd cpuid (\<lambda>c.
     seq (cprintf (''cpu%d: starting %d'' @ [CHR 0x0A]) [CInt (of_nat c), CInt (of_nat c)]) (
     seq idtinit (
     bnd mycpu (\<lambda>c.
     seq (modify (upd_cpu c (\<lambda>k. k\<lparr>started := 1\<rparr>))) (
     bnd (gets (\<lambda>s. wait_rounds s)) (\<lambda>n.
     scheduler n))))))"

definition mpenter :: "('z tstate_scheme, unit) routine" where
  "mpenter =
     seq switchkvm (
     seq seginit (
     bnd (gets (\<lambda>s. wait_rounds s)) (\<lambda>n.
     seq (lapicinit n)
       mpmain)))"

text \<open>What the linker supplies: the entry points of the traps, the file system image with its size,
  the code for the other processors and the first program.\<close>

record linked =
  ln_vectors :: "nat \<Rightarrow> u32"
  ln_image :: "u32 \<Rightarrow> block"
  ln_imgsize :: u32
  ln_entryother :: u32
  ln_entryother_size :: u32
  ln_mpenter :: u32
  ln_entrypgdir :: u32
  ln_initcode :: u32
  ln_initcode_size :: u32

definition ideinit :: "linked \<Rightarrow> ('z bstate_scheme, unit) routine" where
  "ideinit ln =
     bnd (gets (\<lambda>s. memfs s)) (\<lambda>m.
     if m then
       memide_init (ln_image ln) (ln_imgsize ln)
     else
       ide_init)"

definition kmain :: "linked \<Rightarrow> ('z tstate_scheme, unit) routine" where
  "kmain ln =
     bnd (gets (\<lambda>s. kend s)) (\<lambda>e.
     bnd (gets (\<lambda>s. wait_rounds s)) (\<lambda>n.
     seq (kinit1 e (P2V (4 * 1024 * 1024))) (
     seq kvmalloc (
     seq mpinit (
     seq (lapicinit n) (
     seq seginit (
     seq picinit (
     seq ioapicinit (
     seq consoleinit (
     seq uartinit (
     seq pinit (
     seq (tvinit (ln_vectors ln)) (
     seq binit (
     seq fileinit (
     seq (ideinit ln) (
     seq (startothers (ln_entryother ln) (ln_entryother_size ln) (ln_mpenter ln) (ln_entrypgdir ln)) (
     seq (kinit2 (P2V (4 * 1024 * 1024)) (P2V PHYSTOP)) (
     seq (userinit (ln_initcode ln) (ln_initcode_size ln))
       mpmain))))))))))))))))))"

end
