(* ===== verification/Calls.thy ===== *)
theory Calls
  imports Tickets Boot
begin

text \<open>
  The ticket accounting across the whole kernel: every system call, every trap and the scheduler
  keep it. The rules of \<open>Frame\<close> and \<open>Tickets\<close> are extended to the file system, and each routine is
  then covered by backward chaining over its structure.
\<close>

section \<open>Frame rules for the file system\<close>

lemma pview_fs [simp]:
  "pview (upd_sl k f s1) = pview s1" "pview (upd_buf b g s2) = pview s2" "pview (upd_log h s3) = pview s3"
  "pview (upd_inode i u s4) = pview s4" "pview (upd_di i v s4) = pview s4"
  "pview (upd_file x y s5) = pview s5" "pview (upd_pipe a w s5) = pview s5"
  by (simp_all add: pview_def upd_sl_def upd_buf_def upd_log_def upd_inode_def upd_di_def upd_file_def upd_pipe_def)

lemma pview_link_first [simp]: "pview (link_first b s) = pview s"
  by (simp add: link_first_def Let_def)

lemma pview_fields [simp]:
  "pview (s2\<lparr>disk := a1\<rparr>) = pview s2" "pview (s2\<lparr>disk_writes := a2\<rparr>) = pview s2"
  "pview (s2\<lparr>disksize := a3\<rparr>) = pview s2"
  "pview (s2\<lparr>idequeue := a4\<rparr>) = pview s2" "pview (s2\<lparr>havedisk1 := a5\<rparr>) = pview s2"
  "pview (s2\<lparr>port32_reads := a6\<rparr>) = pview s2" "pview (s2\<lparr>port32_out := a7\<rparr>) = pview s2"
  "pview (s4\<lparr>sb := a8\<rparr>) = pview s4" "pview (s4\<lparr>devsw_tab := a9\<rparr>) = pview s4"
  "pview (s6\<lparr>inp_buf := b1\<rparr>) = pview s6" "pview (s6\<lparr>inp_r := b2\<rparr>) = pview s6"
  "pview (s6\<lparr>inp_w := b3\<rparr>) = pview s6" "pview (s6\<lparr>inp_e := b4\<rparr>) = pview s6"
  "pview (s7\<lparr>initproc := b5\<rparr>) = pview s7" "pview (s7\<lparr>forkret_first := b6\<rparr>) = pview s7"
  "pview (s8\<lparr>ram := b7\<rparr>) = pview s8"
  by (simp_all add: pview_def)

lemma quiet_mod: "(\<And>s. pview (f s) = pview s) \<Longrightarrow> quiet (modify f)"
  by (rule quiet_modify)

lemma quiet_curproc [quiet_rules]: "quiet curproc"
  unfolding curproc_def by (intro quiet_rules)

lemma quiet_holdingsleep [quiet_rules]: "quiet (holdingsleep k)"
  unfolding holdingsleep_def by (intro quiet_rules)

lemma quiet_initsleeplock [quiet_rules]: "quiet (initsleeplock k nm)"
  unfolding initsleeplock_def by (intro quiet_rules) simp

lemma quiet_log_write [quiet_rules]: "quiet (log_write b)"
  unfolding log_write_def by (intro quiet_rules) simp_all

lemma quiet_iget [quiet_rules]: "quiet (iget dv ino)"
  unfolding iget_def by (intro quiet_rules) simp_all

lemma quiet_idup [quiet_rules]: "quiet (idup i)"
  unfolding idup_def by (intro quiet_rules) simp_all

lemma quiet_filealloc [quiet_rules]: "quiet filealloc"
  unfolding filealloc_def by (intro quiet_rules) simp_all

lemma quiet_filedup [quiet_rules]: "quiet (filedup f)"
  unfolding filedup_def by (intro quiet_rules) simp_all

lemma quiet_fetchint [quiet_rules]: "quiet (fetchint a)"
  unfolding fetchint_def by (intro quiet_rules)

lemma quiet_fetchstr [quiet_rules]: "quiet (fetchstr a)"
  unfolding fetchstr_def by (intro quiet_rules)

lemma quiet_args [quiet_rules]: "quiet (argint n)" "quiet (argptr n len)" "quiet (argstr n)" "quiet (argfd n)"
  unfolding argptr_def argstr_def argfd_def argint_def by (intro quiet_rules)+

lemma quiet_rw_args [quiet_rules]: "quiet rw_args"
  unfolding rw_args_def by (intro quiet_rules)

lemma quiet_fetch_argv [quiet_rules]: "quiet (fetch_argv a)"
  unfolding fetch_argv_def by (intro quiet_rules)

lemma quiet_stati [quiet_rules]: "quiet (stati i)" and quiet_store_stat [quiet_rules]: "quiet (store_stat a st)"
  unfolding stati_def store_stat_def store16_def by (intro quiet_rules)+

lemma quiet_kill_line [quiet_rules]: "quiet kill_line"
  unfolding kill_line_def by (intro quiet_rules) simp_all

lemma quiet_pipe_ops [quiet_rules]: "quiet (pipe_put p b)" "quiet (pipe_take p)"
  unfolding pipe_put_def pipe_take_def by (intro quiet_rules; simp)+

lemma quiet_ide [quiet_rules]: "quiet (outsl d)" "quiet (insl b)" "quiet (idewait e)" "quiet (ide_append b)"
  unfolding outsl_def insl_def idewait_def wait_loop_def ide_append_def by (intro quiet_rules; simp)+

lemma quiet_idestart [quiet_rules]: "quiet (idestart b)"
  unfolding idestart_def Let_def by (intro quiet_rules)

lemma quiet_memide_rw [quiet_rules]: "quiet (memide_rw b)"
  unfolding memide_rw_def by (intro quiet_rules) simp_all

lemma quiet_bfind [quiet_rules]: "quiet (bfind link P)"
  unfolding bfind_def by (intro quiet_rules)

section \<open>The file system\<close>

lemma good_search [hoare_rules]:
  assumes "\<And>x. good p (f x)"
  shows "good p (search xs f)"
proof (induction xs)
  case (Cons x xs)
  with assms show ?case unfolding search.simps by (intro good_bnd good_option good_ret)
qed (simp only: search.simps good_ret)

lemma good_for_all [hoare_rules]: "(\<And>x. good p (f x)) \<Longrightarrow> good p (for_each xs f)"
  by (rule good_for_each)

lemma good_wait_loop [hoare_rules]: "good p m \<Longrightarrow> good p (wait_loop m)"
  unfolding wait_loop_def by (intro hoare_rules)

lemma good_prod [hoare_rules]: "(\<And>a b. good p (f a b)) \<Longrightarrow> good p (case x of (a, b) \<Rightarrow> f a b)"
  by (cases x) auto

lemma good_acquiresleep [hoare_rules]: "good p (acquiresleep k)"
  unfolding acquiresleep_def by (intro hoare_rules; rule good_quiet; intro quiet_rules; simp)

lemma good_releasesleep [hoare_rules]: "good p (releasesleep k)"
  unfolding releasesleep_def by (intro hoare_rules; rule good_quiet; intro quiet_rules; simp)

lemma good_ide_rw [hoare_rules]: "good p (ide_rw b)"
  unfolding ide_rw_def by (intro hoare_rules; rule good_quiet; intro quiet_rules; simp)

lemma good_iderw [hoare_rules]: "good p (iderw b)"
  unfolding iderw_def by (intro hoare_rules; rule good_quiet; intro quiet_rules; simp)

lemma good_ide_intr [hoare_rules]: "good p ide_intr"
  unfolding ide_intr_def by (intro hoare_rules; rule good_quiet; intro quiet_rules; simp)

lemma good_bget [hoare_rules]: "good p (bget dv bn)"
  unfolding bget_def by (intro hoare_rules; rule good_quiet; intro quiet_rules; simp)

lemma good_bread [hoare_rules]: "good p (bread dv bn)"
  unfolding bread_def by (intro hoare_rules; rule good_quiet; intro quiet_rules; simp)

lemma good_bwrite [hoare_rules]: "good p (bwrite b)"
  unfolding bwrite_def by (intro hoare_rules; rule good_quiet; intro quiet_rules; simp)

lemma good_brelse [hoare_rules]: "good p (brelse b)"
  unfolding brelse_def by (intro hoare_rules; rule good_quiet; intro quiet_rules; simp)

lemma good_readsb [hoare_rules]: "good p (readsb dv)"
  unfolding readsb_def by (intro hoare_rules; rule good_quiet; intro quiet_rules; simp)

lemma good_install_trans [hoare_rules]: "good p install_trans"
  unfolding install_trans_def by (intro hoare_rules; rule good_quiet; intro quiet_rules; simp)

lemma good_read_head [hoare_rules]: "good p read_head"
  unfolding read_head_def by (intro hoare_rules; rule good_quiet; intro quiet_rules; simp)

lemma good_write_head [hoare_rules]: "good p write_head"
  unfolding write_head_def by (intro hoare_rules; rule good_quiet; intro quiet_rules; simp)

lemma good_recover_from_log [hoare_rules]: "good p recover_from_log"
  unfolding recover_from_log_def by (intro hoare_rules; rule good_quiet; intro quiet_rules; simp)

lemma good_initlog [hoare_rules]: "good p (initlog dv)"
  unfolding initlog_def by (intro hoare_rules; rule good_quiet; intro quiet_rules; simp)

lemma good_write_log [hoare_rules]: "good p write_log"
  unfolding write_log_def by (intro hoare_rules; rule good_quiet; intro quiet_rules; simp)

lemma good_commit [hoare_rules]: "good p commit"
  unfolding commit_def by (intro hoare_rules; rule good_quiet; intro quiet_rules; simp)

lemma good_begin_op [hoare_rules]: "good p begin_op"
  unfolding begin_op_def by (intro hoare_rules; rule good_quiet; intro quiet_rules; simp)

lemma good_end_op [hoare_rules]: "good p end_op"
  unfolding end_op_def by (intro hoare_rules; rule good_quiet; intro quiet_rules; simp)

lemma good_bzero [hoare_rules]: "good p (bzero dv b)"
  unfolding bzero_def by (intro hoare_rules; rule good_quiet; intro quiet_rules; simp)

lemma good_balloc [hoare_rules]: "good p (balloc dv)"
  unfolding balloc_def by (intro hoare_rules; rule good_quiet; intro quiet_rules; simp)

lemma good_bfree [hoare_rules]: "good p (bfree dv b)"
  unfolding bfree_def Let_def by (intro hoare_rules; rule good_quiet; intro quiet_rules; simp)

lemma good_iinit [hoare_rules]: "good p (iinit dv)"
  unfolding iinit_def by (intro hoare_rules; rule good_quiet; intro quiet_rules; simp)

lemma good_ialloc [hoare_rules]: "good p (ialloc dv ty)"
  unfolding ialloc_def by (intro hoare_rules; rule good_quiet; intro quiet_rules; simp)

lemma good_iupdate [hoare_rules]: "good p (iupdate i)"
  unfolding iupdate_def by (intro hoare_rules; rule good_quiet; intro quiet_rules; simp)

lemma good_ilock [hoare_rules]: "good p (ilock i)"
  unfolding ilock_def by (intro hoare_rules; rule good_quiet; intro quiet_rules; simp)

lemma good_iunlock [hoare_rules]: "good p (iunlock i)"
  unfolding iunlock_def by (intro hoare_rules; rule good_quiet; intro quiet_rules; simp)

lemma good_bmap [hoare_rules]: "good p (bmap i bn)"
  unfolding bmap_def Let_def by (intro hoare_rules; rule good_quiet; intro quiet_rules; simp)

lemma good_itrunc [hoare_rules]: "good p (itrunc i)"
  unfolding itrunc_def by (intro hoare_rules; rule good_quiet; intro quiet_rules; simp)

lemma good_iput [hoare_rules]: "good p (iput i)"
  unfolding iput_def by (intro hoare_rules; rule good_quiet; intro quiet_rules; simp)

lemma good_iunlockput [hoare_rules]: "good p (iunlockput i)"
  unfolding iunlockput_def by (intro hoare_rules; rule good_quiet; intro quiet_rules; simp)

lemma good_input_char [hoare_rules]: "good p (input_char c)"
  unfolding input_char_def Let_def by (intro hoare_rules; rule good_quiet; intro quiet_rules; simp)

lemma good_wait_input [hoare_rules]: "good p (wait_input i)"
  unfolding wait_input_def by (intro hoare_rules; rule good_quiet; intro quiet_rules; simp)

lemma good_consoleread [hoare_rules]: "good p (consoleread i dst n)"
  unfolding consoleread_def by (intro hoare_rules; rule good_quiet; intro quiet_rules; simp)

lemma good_consolewrite [hoare_rules]: "good p (consolewrite i src n)"
  unfolding consolewrite_def by (intro hoare_rules; rule good_quiet; intro quiet_rules; simp)

lemma good_readi [hoare_rules]: "good p (readi i dst off n)"
  unfolding readi_def Let_def by (intro hoare_rules; rule good_quiet; intro quiet_rules; simp)

lemma good_writei [hoare_rules]: "good p (writei i src off n)"
  unfolding writei_def Let_def by (intro hoare_rules; rule good_quiet; intro quiet_rules; simp)

lemma good_dirlookup [hoare_rules]: "good p (dirlookup dp nm)"
  unfolding dirlookup_def Let_def by (intro hoare_rules; rule good_quiet; intro quiet_rules; simp)

lemma good_dirlink [hoare_rules]: "good p (dirlink dp nm ino)"
  unfolding dirlink_def Let_def by (intro hoare_rules; rule good_quiet; intro quiet_rules; simp)

lemma good_namex [hoare_rules]: "good p (namex path np)"
  unfolding namex_def by (intro hoare_rules; rule good_quiet; intro quiet_rules; simp)

lemma good_namei [hoare_rules]: "good p (namei path)"
  unfolding namei_def by (intro hoare_rules; rule good_quiet; intro quiet_rules; simp)

lemma good_nameiparent [hoare_rules]: "good p (nameiparent path)"
  unfolding nameiparent_def by (intro hoare_rules; rule good_quiet; intro quiet_rules; simp)

lemma good_pipeclose [hoare_rules]: "good p (pipeclose a w)"
  unfolding pipeclose_def by (intro hoare_rules; rule good_quiet; intro quiet_rules; simp)

lemma good_fileclose [hoare_rules]: "good p (fileclose f)"
  unfolding fileclose_def by (intro hoare_rules; rule good_quiet; intro quiet_rules; simp)

lemma good_pipe_bad [hoare_rules]: "good p (pipe_bad f0 f1)"
  unfolding pipe_bad_def by (intro hoare_rules; rule good_quiet; intro quiet_rules; simp)

lemma good_pipealloc [hoare_rules]: "good p pipealloc"
  unfolding pipealloc_def by (intro hoare_rules; rule good_quiet; intro quiet_rules; simp)

lemma good_pipe_room [hoare_rules]: "good p (pipe_room a)"
  unfolding pipe_room_def by (intro hoare_rules; rule good_quiet; intro quiet_rules; simp)

lemma good_pipewrite [hoare_rules]: "good p (pipewrite a addr n)"
  unfolding pipewrite_def by (intro hoare_rules; rule good_quiet; intro quiet_rules; simp)

lemma good_pipe_data [hoare_rules]: "good p (pipe_data a)"
  unfolding pipe_data_def by (intro hoare_rules; rule good_quiet; intro quiet_rules; simp)

lemma good_piperead [hoare_rules]: "good p (piperead a addr n)"
  unfolding piperead_def by (intro hoare_rules; rule good_quiet; intro quiet_rules; simp)

lemma good_filestat [hoare_rules]: "good p (filestat f st)"
  unfolding filestat_def by (intro hoare_rules; rule good_quiet; intro quiet_rules; simp)

lemma good_fileread [hoare_rules]: "good p (fileread f addr n)"
  unfolding fileread_def by (intro hoare_rules; rule good_quiet; intro quiet_rules; simp)

lemma good_filewrite [hoare_rules]: "good p (filewrite f addr n)"
  unfolding filewrite_def Let_def by (intro hoare_rules; rule good_quiet; intro quiet_rules; simp)


section \<open>The life of a process\<close>

lemma tickets_frame [simp]:
  "tickets_ok (s\<lparr>nextpid := v\<rparr>) = tickets_ok s" "tickets_ok (s\<lparr>ticks := v\<rparr>) = tickets_ok s"
  by (simp_all add: tickets_ok_def)

lemma running_frame [simp]:
  "running (s\<lparr>nextpid := v\<rparr>) p = running s p" "running (s\<lparr>ticks := v\<rparr>) p = running s p"
proof -
  have "this_cpu (s\<lparr>nextpid := v\<rparr>) = this_cpu s" "this_cpu (s\<lparr>ticks := v\<rparr>) = this_cpu s"
    by (rule this_cpu_frame; simp)+
  then show "running (s\<lparr>nextpid := v\<rparr>) p = running s p" "running (s\<lparr>ticks := v\<rparr>) p = running s p"
    by (simp_all add: running_def cur_def split: option.split)
qed

text \<open>A fresh slot stays in its state until its creator launches it.\<close>

abbreviation fresh :: "nat option \<Rightarrow> proc list \<Rightarrow> bool" where
  "fresh r ps \<equiv> (case r of None \<Rightarrow> True | Some q \<Rightarrow> slot q EMBRYO ps)"

lemma hoare_retQ: "(\<And>ps. P ps \<Longrightarrow> Q a ps) \<Longrightarrow> hoare p P (ret a) Q"
  by (simp add: hoare_def)

lemma hoare_ifQ: "hoare p P m Q \<Longrightarrow> hoare p P n Q \<Longrightarrow> hoare p P (if b then m else n) Q"
  by simp

lemma not_counted [simp]: "\<not> counted UNUSED" "\<not> counted EMBRYO" "\<not> counted SLEEPING" "\<not> counted ZOMBIE"
  by (simp_all add: counted_def)

lemma hoare_allocproc: "hoare p P allocproc fresh"
proof -
  have take: "hoare p (slot q EMBRYO) (bnd kalloc (\<lambda>ks. seq (modify (upd_proc q (\<lambda>x. x\<lparr>kstack := ks\<rparr>))) (
      if ks = 0 then seq (modify (upd_proc q (\<lambda>x. x\<lparr>state := UNUSED\<rparr>))) (ret None)
      else seq (modify (upd_proc q (\<lambda>x. x\<lparr>kret := Trapret, kctx := first_context\<rparr>))) (ret (Some q))))) fresh" for q
    by (rule hoare_quiet_bnd [OF quiet_kalloc], rule hoare_slot_seq, simp, simp, rule hoare_ifQ,
        rule hoare_seq, rule hoare_restate [where st' = UNUSED], simp, simp, simp, rule hoare_retQ, simp,
        rule hoare_slot_seq, simp, simp, rule hoare_retQ, simp)
  have pid: "hoare p (slot q EMBRYO) (modify (\<lambda>s. s\<lparr>nextpid := nextpid s + 1\<rparr>)) (\<lambda>_. slot q EMBRYO)" for q
    by (rule hoare_modify) simp
  show ?thesis unfolding allocproc_def
  proof (rule hoare_quiet_seq [OF quiet_acquire],
      rule hoare_getsR [where R = "\<lambda>sl ps. \<forall>q. sl = Some q \<longrightarrow> slot q UNUSED ps"], goal_cases)
    case (1 s)
    then show ?case by (auto simp: slot_def tickets_ok_def dest: find_idx_SomeD)
  next
    case (2 sl)
    show ?case
    proof (cases sl)
      case None
      show ?thesis unfolding None option.case
        by (rule hoare_quiet_seq [OF quiet_release], rule hoare_retQ) simp
    next
      case (Some q)
      have "hoare p (slot q UNUSED) (modify (\<lambda>s. upd_proc q (embryo (nextpid s) (ticks s)) s)) (\<lambda>_. slot q EMBRYO)"
        by (rule hoare_restate) (simp_all add: embryo_def)
      then have "hoare p (slot q UNUSED) (seq (modify (\<lambda>s. upd_proc q (embryo (nextpid s) (ticks s)) s)) (
          seq (modify (\<lambda>s. s\<lparr>nextpid := nextpid s + 1\<rparr>)) (seq (release PtableLock) (
          bnd kalloc (\<lambda>ks. seq (modify (upd_proc q (\<lambda>x. x\<lparr>kstack := ks\<rparr>))) (
          if ks = 0 then seq (modify (upd_proc q (\<lambda>x. x\<lparr>state := UNUSED\<rparr>))) (ret None)
          else seq (modify (upd_proc q (\<lambda>x. x\<lparr>kret := Trapret, kctx := first_context\<rparr>))) (ret (Some q)))))))) fresh"
        by (rule hoare_seq) (rule hoare_seq [OF pid], rule hoare_quiet_seq [OF quiet_release], rule take)
      then show ?thesis unfolding Some option.case by (rule hoare_conseq) simp_all
    qed
  qed
qed

lemma hoare_for_each:
  assumes "\<And>x. hoare p P (f x) (\<lambda>_. P)"
  shows "hoare p P (for_each xs f) (\<lambda>_. P)"
proof (induction xs)
  case (Cons x xs)
  then show ?case unfolding for_each.simps by (rule hoare_seq [OF assms])
qed (simp only: for_each.simps hoare_retQ)

lemma hoare_optionQ:
  "hoare p P m Q \<Longrightarrow> (\<And>y. hoare p P (n y) Q) \<Longrightarrow> hoare p P (case x of None \<Rightarrow> m | Some y \<Rightarrow> n y) Q"
  by (cases x) auto

lemma hoare_share_files: "hoare p (slot q st) (share_files cp np) (\<lambda>_. slot q st)"
  unfolding share_files_def
  by (rule hoare_seq, rule hoare_for_each, rule hoare_quiet_bnd [OF quiet_gets], rule hoare_optionQ, rule hoare_retQ, simp,
      rule hoare_quiet_bnd [OF quiet_filedup], rule hoare_upd_slot, simp, simp,
      rule hoare_quiet_bnd [OF quiet_gets], rule hoare_seq, rule hoare_optionQ, rule hoare_quiet [OF quiet_stuck],
      rule hoare_quiet_bnd [OF quiet_idup], rule hoare_upd_slot, simp, simp, rule hoare_upd_slot) simp_all

lemma hoare_launch: "hoare p (slot q EMBRYO) (launch q) (\<lambda>_ _. True)"
  unfolding launch_def
  by (rule hoare_quiet_bnd [OF quiet_gets], rule hoare_quiet_seq [OF quiet_acquire], rule hoare_seq,
      rule hoare_make_runnable, simp, intro hoare_rules)

lemma hoare_abandon: "hoare p (slot q EMBRYO) (abandon q) (\<lambda>_ _. True)"
  unfolding abandon_def
  by (rule hoare_quiet_bnd [OF quiet_gets], rule hoare_quiet_seq [OF quiet_kfree], rule hoare_weaken,
      rule hoare_restate [where st' = UNUSED]) simp_all

lemma hoare_fresh:
  "hoare p (\<lambda>_. True) m Q \<Longrightarrow> (\<And>q. hoare p (slot q EMBRYO) (n q) Q) \<Longrightarrow>
   hoare p (fresh r) (case r of None \<Rightarrow> m | Some q \<Rightarrow> n q) Q"
  by (cases r) auto

lemma good_fork [hoare_rules]: "good p fork"
  unfolding fork_def
  by (rule hoare_curproc, rule hoare_bnd [OF hoare_allocproc], rule hoare_fresh [OF good_ret],
      rule hoare_quiet_bnd [OF quiet_gets], rule hoare_quiet_bnd [OF quiet_copyuvm], rule hoare_slot_seq, simp, simp,
      rule hoare_ifQ, rule hoare_seq [OF hoare_abandon], rule good_ret,
      rule hoare_slot_seq, simp, simp, rule hoare_slot_seq, simp, simp,
      rule hoare_seq [OF hoare_share_files], rule hoare_launch)

lemma good_thread_create [hoare_rules]: "good p (thread_create sp)"
  unfolding thread_create_def Let_def
  by (rule hoare_curproc, rule hoare_quiet_bnd [OF quiet_gets], rule hoare_bnd [OF hoare_allocproc], rule hoare_fresh,
      rule good_seq, rule good_quiet, intro quiet_rules, rule good_ret,
      rule hoare_quiet_bnd [OF quiet_gets], rule hoare_quiet_bnd [OF quiet_linkuvm], rule hoare_slot_seq, simp, simp,
      rule hoare_ifQ, rule hoare_seq [OF hoare_abandon], rule good_seq, rule good_quiet, intro quiet_rules, rule good_ret,
      rule hoare_slot_seq, simp, simp, rule hoare_slot_seq, simp, simp, rule hoare_quiet_bnd, intro quiet_rules,
      rule hoare_slot_seq, simp, simp, rule hoare_slot_seq, simp, simp,
      rule hoare_seq [OF hoare_share_files], rule hoare_launch)

lemma good_forkret [hoare_rules]: "good p forkret"
  unfolding forkret_def by (intro hoare_rules; rule good_quiet; intro quiet_rules; simp)

lemma good_close_files [hoare_rules]: "good p (close_files cp)"
  unfolding close_files_def by (intro hoare_rules good_upd_proc) simp_all

lemma good_leave_family [hoare_rules]: "good p (leave_family cp)"
  unfolding leave_family_def by (intro hoare_rules good_gets_upd_proc) simp_all

lemma good_exit [hoare_rules]: "good p exit"
proof -
  have die: "good p (seq (modify (\<lambda>s. (upd_proc p (\<lambda>x. x\<lparr>state := ZOMBIE\<rparr>) s)\<lparr>totalTicketCount :=
      totalTicketCount s - ticketCount (procs s ! p)\<rparr>)) (seq sched (panic ''zombie exit'')))"
    by (subst seq_assoc [symmetric], intro good_seq good_enter_sched leave_enter good_panic) simp_all
  show ?thesis unfolding exit_def
    by (rule hoare_curproc, intro good_bnd good_if good_panic good_gets good_seq die good_upd_proc hoare_rules) simp_all
qed

lemma good_growproc [hoare_rules]: "good p (growproc n)"
  unfolding growproc_def Let_def
  by (rule hoare_curproc, intro good_bnd good_if good_seq good_ret good_gets good_upd_proc;
      (rule good_quiet, intro quiet_rules)?) simp_all

lemma set_ticketCount_ok:
  assumes "tickets_ok s" "running s p"
  shows "tickets_ok ((upd_proc p (\<lambda>x. x\<lparr>ticketCount := n\<rparr>) s)\<lparr>totalTicketCount :=
      totalTicketCount s + (n - ticketCount (procs s ! p))\<rparr>) \<and>
    running ((upd_proc p (\<lambda>x. x\<lparr>ticketCount := n\<rparr>) s)\<lparr>totalTicketCount :=
      totalTicketCount s + (n - ticketCount (procs s ! p))\<rparr>) p"
proof (intro conjI tickets_upd)
  show "totalTicketCount s + (n - ticketCount (procs s ! p)) = totalTicketCount s - weight (procs s ! p) +
      weight ((procs s ! p)\<lparr>ticketCount := n\<rparr>)"
    using running_weight [OF assms(2)] assms(2) by (simp add: weight_def running_def counted_def)
qed (use assms in \<open>auto simp: running_def tickets_ok_def\<close>)

lemma good_set_ticketCount [hoare_rules]: "good p (set_ticketCount n)"
  unfolding set_ticketCount_def
  by (intro good_if hoare_curproc good_ret hoare_modify) (simp add: set_ticketCount_ok)

lemma good_policies [hoare_rules]: "good p get_policy" "good p (change_policy n)"
  unfolding get_policy_def change_policy_def
  by (intro hoare_rules; rule good_quiet; intro quiet_rules; simp add: pview_upd_cpu)+

lemma good_proc_calls [hoare_rules]: "good p (set_priority n)" "good p (get_proc_times a)"
  unfolding set_priority_def get_proc_times_def Let_def
  by (rule hoare_curproc, (intro good_seq good_bnd good_gets good_upd_proc good_gets_upd_proc;
      (rule good_quiet, intro quiet_rules)?), simp_all)+

lemma good_proc_reads [hoare_rules]: "good p get_ticketCount" "good p getpage" "good p (detachpage a)"
  unfolding get_ticketCount_def getpage_def detachpage_def by (rule good_quiet, intro quiet_rules)+


section \<open>System calls\<close>

lemma good_loaduvm [hoare_rules]: "good p (loaduvm pd a ip off n)"
  unfolding loaduvm_def Let_def by (intro hoare_rules; (rule good_quiet; intro quiet_rules)?; simp)

lemma good_load_segments [hoare_rules]: "good p (load_segments ip elf pd)"
  unfolding load_segments_def Let_def by (intro hoare_rules; (rule good_quiet; intro quiet_rules)?; simp)

lemma quiet_push_args [quiet_rules]: "quiet (push_args argv pd sp)"
  unfolding push_args_def Let_def by (intro quiet_rules)

lemma quiet_clearpteu [quiet_rules]: "quiet (clearpteu pd a)"
  unfolding clearpteu_def by (intro quiet_rules)

lemma good_exec_bad [hoare_rules]: "good p (exec_bad pd ip)"
  unfolding exec_bad_def by (intro hoare_rules; (rule good_quiet; intro quiet_rules)?; simp)

lemma good_exec_commit [hoare_rules]: "good p (exec_commit cp path argv elf pd n)"
  unfolding exec_commit_def Let_def
  by (intro hoare_rules good_upd_proc; (rule good_quiet; intro quiet_rules)?; simp)

lemma good_exec [hoare_rules]: "good p (exec path argv)"
  unfolding exec_def Let_def
  by (rule hoare_curproc, intro hoare_rules; rule good_quiet; intro quiet_rules)

lemma good_fdalloc [hoare_rules]: "good p (fdalloc f)"
  unfolding fdalloc_def by (rule hoare_curproc, intro hoare_rules good_upd_proc) simp_all

lemma good_sys_dup [hoare_rules]: "good p sys_dup"
  unfolding sys_dup_def by (intro hoare_rules; (rule good_quiet; intro quiet_rules)?; simp)

lemma good_sys_read [hoare_rules]: "good p sys_read"
  unfolding sys_read_def by (intro hoare_rules; (rule good_quiet; intro quiet_rules)?; simp)

lemma good_sys_write [hoare_rules]: "good p sys_write"
  unfolding sys_write_def by (intro hoare_rules; (rule good_quiet; intro quiet_rules)?; simp)

lemma good_sys_close [hoare_rules]: "good p sys_close"
  unfolding sys_close_def
  by (rule good_bnd, rule good_quiet, intro quiet_rules, intro good_option good_ret good_prod hoare_curproc good_seq good_upd_proc hoare_rules)
    simp_all

lemma good_sys_fstat [hoare_rules]: "good p sys_fstat"
  unfolding sys_fstat_def by (intro hoare_rules; (rule good_quiet; intro quiet_rules)?; simp)

lemma good_link_bad [hoare_rules]: "good p (link_bad ip)"
  unfolding link_bad_def by (intro hoare_rules; (rule good_quiet; intro quiet_rules)?; simp)

lemma good_do_link [hoare_rules]: "good p (do_link old new)"
  unfolding do_link_def by (intro hoare_rules; (rule good_quiet; intro quiet_rules)?; simp)

lemma good_sys_link [hoare_rules]: "good p sys_link"
  unfolding sys_link_def by (intro hoare_rules; (rule good_quiet; intro quiet_rules)?; simp)

lemma good_isdirempty [hoare_rules]: "good p (isdirempty dp)"
  unfolding isdirempty_def by (intro hoare_rules; (rule good_quiet; intro quiet_rules)?; simp)

lemma good_unlink_bad [hoare_rules]: "good p (unlink_bad dp)"
  unfolding unlink_bad_def by (intro hoare_rules; (rule good_quiet; intro quiet_rules)?; simp)

lemma good_do_unlink [hoare_rules]: "good p (do_unlink path)"
  unfolding do_unlink_def by (intro hoare_rules; (rule good_quiet; intro quiet_rules)?; simp)

lemma good_sys_unlink [hoare_rules]: "good p sys_unlink"
  unfolding sys_unlink_def by (intro hoare_rules; (rule good_quiet; intro quiet_rules)?; simp)

lemma good_create [hoare_rules]: "good p (create path ty mj mn)"
  unfolding create_def by (intro hoare_rules; (rule good_quiet; intro quiet_rules)?; simp)

lemma good_open_inode [hoare_rules]: "good p (open_inode path m)"
  unfolding open_inode_def by (intro hoare_rules; (rule good_quiet; intro quiet_rules)?; simp)

lemma good_do_open [hoare_rules]: "good p (do_open path m)"
  unfolding do_open_def by (intro hoare_rules; (rule good_quiet; intro quiet_rules)?; simp)

lemma good_sys_open [hoare_rules]: "good p sys_open"
  unfolding sys_open_def by (intro hoare_rules; (rule good_quiet; intro quiet_rules)?; simp)

lemma good_made [hoare_rules]: "good p (made ip)"
  unfolding made_def by (intro hoare_rules; (rule good_quiet; intro quiet_rules)?; simp)

lemma good_sys_mkdir [hoare_rules]: "good p sys_mkdir"
  unfolding sys_mkdir_def by (intro hoare_rules; (rule good_quiet; intro quiet_rules)?; simp)

lemma good_sys_mknod [hoare_rules]: "good p sys_mknod"
  unfolding sys_mknod_def by (intro hoare_rules; (rule good_quiet; intro quiet_rules)?; simp)

lemma good_sys_chdir [hoare_rules]: "good p sys_chdir"
  unfolding sys_chdir_def
  by (rule hoare_curproc, intro hoare_rules good_upd_proc; (rule good_quiet; intro quiet_rules)?; simp)

lemma good_sys_exec [hoare_rules]: "good p sys_exec"
  unfolding sys_exec_def by (intro hoare_rules; (rule good_quiet; intro quiet_rules)?; simp)

lemma good_sys_pipe [hoare_rules]: "good p sys_pipe"
  unfolding sys_pipe_def
  by (intro hoare_rules good_upd_proc; (rule good_quiet; intro quiet_rules)?; simp)


lemma good_sysproc [hoare_rules]:
  "good p sys_fork" "good p sys_exit" "good p sys_diagwait" "good p sys_wait" "good p sys_kill"
  "good p sys_getpid" "good p sys_sbrk" "good p sys_sleep" "good p sys_uptime" "good p sys_getpage"
  "good p sys_detachpage" "good p sys_thread_create" "good p sys_thread_id" "good p sys_thread_join"
  "good p sys_change_policy" "good p sys_get_policy" "good p sys_set_priority"
  "good p sys_get_proc_times" "good p sys_get_ticketCount" "good p sys_set_ticketCount"
  unfolding sys_fork_def sys_exit_def sys_diagwait_def sys_wait_def sys_kill_def sys_getpid_def
    sys_sbrk_def sys_sleep_def sys_uptime_def sys_getpage_def sys_detachpage_def
    sys_thread_create_def sys_thread_id_def sys_thread_join_def sys_change_policy_def
    sys_get_policy_def sys_set_priority_def sys_get_proc_times_def sys_get_ticketCount_def
    sys_set_ticketCount_def
  by (intro hoare_rules; (rule good_quiet; intro quiet_rules)?)+

lemma good_syscalls:
  assumes "f \<in> set (syscalls junk)"
  shows "good p f"
  using assms unfolding syscalls_def by (auto intro!: hoare_rules simp: hoare_rules)

lemma good_ifc: "(b \<Longrightarrow> good p m) \<Longrightarrow> (\<not> b \<Longrightarrow> good p n) \<Longrightarrow> good p (if b then m else n)"
  by simp

lemma good_syscall [hoare_rules]: "good p (syscall junk)"
  unfolding syscall_def
proof (rule hoare_curproc, intro good_bnd good_gets good_ifc, goal_cases)
  case (1 num)
  then show ?case
    using uint_nonneg [of num]
    by (intro good_syscalls [of _ junk] nth_mem) (simp add: unat_eq_nat_uint, arith)
qed (intro hoare_rules good_upd_proc; (rule good_quiet; intro quiet_rules)?; simp)+

section \<open>Traps\<close>

lemma quiet_procdump [quiet_rules]: "quiet procdump"
  unfolding procdump_def by (intro quiet_rules)

lemma quiet_cpuid [quiet_rules]: "quiet cpuid"
  unfolding cpuid_def by (intro quiet_rules)

lemma quiet_lapiceoi [quiet_rules]: "quiet lapiceoi"
  unfolding lapiceoi_def lapicw_def by (intro quiet_rules) (simp add: pview_def)

lemma quiet_memide_intr [quiet_rules]: "quiet memide_intr"
  unfolding memide_intr_def by (intro quiet_rules)

lemma good_consoleintr [hoare_rules]:
  assumes "quiet getc"
  shows "good p (consoleintr getc)"
  unfolding consoleintr_def Let_def
  by (intro hoare_rules; (rule good_quiet; intro quiet_rules assms)?; simp)

lemma good_timer_tick [hoare_rules]: "good p timer_tick"
proof -
  have "good p (modify (\<lambda>s. s\<lparr>ticks := ticks s + 1\<rparr>))"
    by (rule hoare_modify) simp
  then show ?thesis
    unfolding timer_tick_def
    by (intro good_bnd good_doif good_seq good_wakeup good_locks) (rule good_quiet, intro quiet_rules)
qed

lemma good_unexpected_trap [hoare_rules]: "good p (unexpected_trap f)"
  unfolding unexpected_trap_def
  by (intro hoare_rules good_upd_proc; (rule good_quiet; intro quiet_rules)?; simp)

lemma good_trap_dispatch [hoare_rules]: "good p (trap_dispatch f)"
  unfolding trap_dispatch_def Let_def kbdintr_def uartintr_def ideintr_def
  by (intro hoare_rules; (rule good_quiet)?; (intro quiet_rules)?)

lemma good_exit_if_killed [hoare_rules]: "good p (exit_if_killed f)" "good p exit_killed"
  unfolding exit_if_killed_def exit_killed_def by (intro hoare_rules)+

lemma good_tick_quantum [hoare_rules]: "good p (tick_quantum f)"
  unfolding tick_quantum_def
  by (intro hoare_rules; rule good_quiet; intro quiet_rules pview_upd_cpu; simp)

lemma good_trap: "good p (trap junk f)"
  unfolding trap_def
  by (intro hoare_rules good_upd_proc) simp_all

end
