(* ===== verification/Background.thy ===== *)
theory Background
  imports Calls
begin

text \<open>
  Invariants over the kernel's tables. Most routines only write to the background: locks, devices,
  memory, buffers, the log, cached inodes, and fields of a process that no table refers through.
  The locale \<open>background\<close> says what it means for an invariant not to depend on the background; inside
  it every such routine is shown to keep the invariant, once for all invariants, by backward
  chaining over its structure. It is interpreted for the shape of the tables, for the console's
  input ring and for the reference counts of open files.
\<close>

section \<open>More structural rules\<close>

lemma keeps_prod [keeps_rules]: "(\<And>a b. x = (a, b) \<Longrightarrow> keeps I (f a b)) \<Longrightarrow> keeps I (case x of (a, b) \<Rightarrow> f a b)"
  by (cases x) auto

lemma keeps_list:
  "(xs = [] \<Longrightarrow> keeps I m) \<Longrightarrow> (\<And>y ys. xs = y # ys \<Longrightarrow> keeps I (n y ys)) \<Longrightarrow>
   keeps I (case xs of [] \<Rightarrow> m | y # ys \<Rightarrow> n y ys)"
  by (cases xs) auto

lemma keeps_carg:
  "(\<And>v. keeps I (m v)) \<Longrightarrow> (\<And>v. keeps I (n v)) \<Longrightarrow> keeps I (case x of CInt v \<Rightarrow> m v | CStr v \<Rightarrow> n v)"
  by (cases x) auto

lemma keeps_search [keeps_rules]: "(\<And>x. keeps I (f x)) \<Longrightarrow> keeps I (search xs f)"
  by (induction xs) (auto intro!: keeps_bnd split: option.split)

lemma keeps_wait_loop [keeps_rules]: "keeps I m \<Longrightarrow> keeps I (wait_loop m)"
  unfolding wait_loop_def by (intro keeps_rules)

lemma syscall_number:
  "0 < sint num \<and> sint num \<le> int (length fs) \<Longrightarrow> fs ! (unat num - 1) \<in> set fs" for num :: u32
  using uint_nonneg [of num] by (intro nth_mem) (simp add: unat_eq_nat_uint, arith)

lemma keeps_for_each_in: "(\<And>x. x \<in> set xs \<Longrightarrow> keeps I (f x)) \<Longrightarrow> keeps I (for_each xs f)"
  by (induction xs) (auto intro: keeps_seq)

section \<open>Results with a property\<close>

text \<open>\<open>gives I m Q\<close>: the routine keeps \<open>I\<close>, and a result it returns satisfies \<open>Q\<close>.\<close>

definition gives :: "('s \<Rightarrow> bool) \<Rightarrow> ('s, 'a) routine \<Rightarrow> ('a \<Rightarrow> bool) \<Rightarrow> bool" where
  "gives I m Q \<longleftrightarrow> (\<forall>s. I s \<longrightarrow> post I (\<lambda>_. I) (m s) (\<lambda>a t. I t \<and> Q a))"

named_theorems gives_rules \<open>rules for results with a property\<close>

lemma gives_keeps: "keeps I m \<Longrightarrow> gives I m (\<lambda>_. True)"
  by (simp add: gives_def keeps_def)

lemma keeps_gives: "gives I m Q \<Longrightarrow> keeps I m"
  unfolding gives_def keeps_def by (blast intro: post_mono)

lemma gives_mono: "gives I m Q \<Longrightarrow> (\<And>a. Q a \<Longrightarrow> R a) \<Longrightarrow> gives I m R"
  unfolding gives_def by (blast intro: post_mono)

lemma givesD: "gives I m Q \<Longrightarrow> I s \<Longrightarrow> post I (\<lambda>_. I) (m s) (\<lambda>a t. I t \<and> Q a)"
  by (simp add: gives_def)

lemma gives_bnd:
  assumes "gives I m Q" "\<And>a. Q a \<Longrightarrow> gives I (f a) R"
  shows "gives I (bnd m f) R"
  unfolding gives_def bnd_apply post_andthen
proof (intro allI impI)
  fix s assume "I s"
  with assms(1) have "post I (\<lambda>_. I) (m s) (\<lambda>a t. I t \<and> Q a)" by (simp add: gives_def)
  then show "post I (\<lambda>_. I) (m s) (\<lambda>a t. post I (\<lambda>_. I) (f a t) (\<lambda>a t. I t \<and> R a))"
    by (rule post_mono) (use assms(2) in \<open>auto simp: gives_def\<close>)
qed

lemma gives_bnd_keeps [gives_rules]: "keeps I m \<Longrightarrow> (\<And>a. gives I (f a) R) \<Longrightarrow> gives I (bnd m f) R"
  by (rule gives_bnd [OF gives_keeps])

lemma gives_seq [gives_rules]: "keeps I m \<Longrightarrow> gives I n R \<Longrightarrow> gives I (seq m n) R"
  unfolding seq_def by (rule gives_bnd_keeps)

lemma keeps_bnd_gives: "gives I m Q \<Longrightarrow> (\<And>a. Q a \<Longrightarrow> keeps I (f a)) \<Longrightarrow> keeps I (bnd m f)"
  by (rule keeps_gives [OF gives_bnd [of _ _ Q _ "\<lambda>_. True"]]) (auto intro: gives_keeps)

lemma gives_ret [gives_rules]: "Q a \<Longrightarrow> gives I (ret a) Q"
  and gives_panic [gives_rules]: "gives I (panic e) Q"
  and gives_stuck [gives_rules]: "gives I (stuck e) Q"
  and gives_gets: "(\<And>s. I s \<Longrightarrow> Q (g s)) \<Longrightarrow> gives I (gets g) Q"
  by (simp_all add: gives_def)

lemma gives_if [gives_rules]:
  "(b \<Longrightarrow> gives I m Q) \<Longrightarrow> (\<not> b \<Longrightarrow> gives I n Q) \<Longrightarrow> gives I (if b then m else n) Q"
  by simp

lemma gives_option [gives_rules]:
  "(x = None \<Longrightarrow> gives I m Q) \<Longrightarrow> (\<And>y. x = Some y \<Longrightarrow> gives I (n y) Q) \<Longrightarrow>
   gives I (case x of None \<Rightarrow> m | Some y \<Rightarrow> n y) Q"
  by (cases x) auto

lemma gives_prod [gives_rules]: "(\<And>a b. x = (a, b) \<Longrightarrow> gives I (f a b) Q) \<Longrightarrow> gives I (case x of (a, b) \<Rightarrow> f a b) Q"
  by (cases x) auto

lemma gives_loop:
  assumes "J x" "\<And>x. J x \<Longrightarrow> gives I (body x) (\<lambda>r. case r of Inl y \<Rightarrow> J y | Inr a \<Rightarrow> Q a)"
  shows "gives I (loop n x body) Q"
  unfolding gives_def
proof (intro allI impI, rule post_loop [where I = "\<lambda>x s. J x \<and> I s"])
  fix s assume "I s"
  then show "J x \<and> I s" using assms(1) by simp
next
  fix y t assume "J y \<and> I t"
  then show "post I (\<lambda>_. I) (body y t) (\<lambda>r u. case r of Inl z \<Rightarrow> J z \<and> I u | Inr a \<Rightarrow> I u \<and> Q a)"
    using assms(2) [of y, unfolded gives_def, rule_format, of t] by (auto elim!: post_mono split: sum.splits)
qed

lemma gives_search:
  assumes "\<And>x. gives I (f x) (\<lambda>r. \<forall>a. r = Some a \<longrightarrow> Q a)"
  shows "gives I (search xs f) (\<lambda>r. \<forall>a. r = Some a \<longrightarrow> Q a)"
proof (induction xs)
  case (Cons x xs)
  then show ?case unfolding search.simps by (intro gives_bnd [OF assms] gives_option gives_ret) auto
qed (simp only: search.simps gives_ret option.distinct simp_thms)

section \<open>The interface\<close>

text \<open>A change of a process that no other table sees: descriptors, current directory and parent stay,
  and the slot is not given up.\<close>

definition harmless :: "(proc \<Rightarrow> proc) \<Rightarrow> bool" where
  "harmless h \<longleftrightarrow> (\<forall>x. ofile (h x) = ofile x \<and> parent (h x) = parent x \<and> cwd (h x) = cwd x \<and>
     (state (h x) = state x \<or> state (h x) \<noteq> UNUSED \<and> state (h x) \<noteq> ZOMBIE))"

locale background =
  fixes I :: "'z tstate_scheme \<Rightarrow> bool"
  assumes bg_lock: "I s \<Longrightarrow> I (upd_lock l f1 s)"
    and bg_cpu: "I s \<Longrightarrow> (\<And>k. cproc (f2 k) = cproc k) \<Longrightarrow> I (upd_cpu c f2 s)"
    and bg_proc: "I s \<Longrightarrow> harmless h \<Longrightarrow> I (upd_proc p h s)"
    and bg_sl: "I s \<Longrightarrow> I (upd_sl k f3 s)"
    and bg_buf: "I s \<Longrightarrow> I (upd_buf b f4 s)"
    and bg_log: "I s \<Longrightarrow> I (upd_log f5 s)"
    and bg_inode: "I s \<Longrightarrow> I (upd_inode i f6 s)"
    and bg_pipe: "I s \<Longrightarrow> I (upd_pipe a f7 s)"
    and bg_file: "I s \<Longrightarrow> (\<And>x. f_ref (f8 x) = f_ref x \<and> f_type (f8 x) = f_type x \<and> f_ip (f8 x) = f_ip x) \<Longrightarrow> I (upd_file n f8 s)"
    and bg_kernel: "I s \<Longrightarrow> I (s\<lparr>hw_IF := v1\<rparr>)" "I s \<Longrightarrow> I (s\<lparr>hw_cr3 := v2\<rparr>)" "I s \<Longrightarrow> I (s\<lparr>hw_tr := v3\<rparr>)"
      "I s \<Longrightarrow> I (s\<lparr>totalTicketCount := v4\<rparr>)" "I s \<Longrightarrow> I (s\<lparr>nextpid := v5\<rparr>)" "I s \<Longrightarrow> I (s\<lparr>ticks := v6\<rparr>)"
      "I s \<Longrightarrow> I (s\<lparr>g_seed := v7\<rparr>)" "I s \<Longrightarrow> I (s\<lparr>forkret_first := v8\<rparr>)"
    and bg_device: "I s \<Longrightarrow> I (s\<lparr>port_reads := w1\<rparr>)" "I s \<Longrightarrow> I (s\<lparr>port_out := w2\<rparr>)" "I s \<Longrightarrow> I (s\<lparr>lapic_out := w3\<rparr>)"
      "I s \<Longrightarrow> I (s\<lparr>kbd_shift := w4\<rparr>)" "I s \<Longrightarrow> I (s\<lparr>crt := w5\<rparr>)"
    and bg_memory: "I s \<Longrightarrow> I (s\<lparr>ram := m1\<rparr>)" "I s \<Longrightarrow> I (s\<lparr>freelist := m2\<rparr>)"
    and bg_disk: "I s \<Longrightarrow> I (s\<lparr>disk := d1\<rparr>)" "I s \<Longrightarrow> I (s\<lparr>disk_writes := d2\<rparr>)" "I s \<Longrightarrow> I (s\<lparr>idequeue := d3\<rparr>)"
      "I s \<Longrightarrow> I (s\<lparr>port32_reads := d4\<rparr>)" "I s \<Longrightarrow> I (s\<lparr>port32_out := d5\<rparr>)" "I s \<Longrightarrow> I (s\<lparr>sb := d6\<rparr>)"
begin

lemmas bg = bg_lock bg_cpu bg_proc bg_sl bg_buf bg_log bg_inode bg_pipe bg_file bg_kernel bg_device bg_memory bg_disk

lemma bg_di: "I s \<Longrightarrow> I (upd_di i f s)"
  unfolding upd_di_def by (rule bg_inode)

lemma bg_make_runnable: "I s \<Longrightarrow> I (make_runnable p s)"
  unfolding make_runnable_def by (intro bg) (simp_all add: harmless_def)

lemma bg_link_first: "I s \<Longrightarrow> I (link_first b s)"
  unfolding link_first_def Let_def by (intro bg)

lemmas bgs = bg bg_di bg_make_runnable bg_link_first

subsection \<open>Locks and devices\<close>

lemma keeps_cpu_flags [keeps_rules]: "keeps I cli" "keeps I sti" "keeps I mycpu"
  unfolding cli_def sti_def mycpu_def
  by (intro keeps_rules bgs; simp add: harmless_def)+

lemma keeps_cli [keeps_rules]: "keeps I pushcli" "keeps I popcli"
  unfolding pushcli_def popcli_def
  by (intro keeps_rules bgs; simp add: harmless_def)+

lemma keeps_spin [keeps_rules]: "keeps I myproc" "keeps I (holding l)" "keeps I (acquire l)" "keeps I (release l)"
  "keeps I (initlock l nm)"
  unfolding myproc_def holding_def acquire_def release_def initlock_def
  by (intro keeps_rules bgs; simp add: harmless_def)+

lemma keeps_curproc [keeps_rules]: "keeps I curproc" "keeps I cpuid"
  unfolding curproc_def cpuid_def
  by (intro keeps_rules bgs; simp add: harmless_def)+

lemma keeps_ports [keeps_rules]: "keeps I (inb pt)" "keeps I (outb pt v)" "keeps I lapiceoi"
  unfolding inb_def outb_def lapiceoi_def lapicw_def
  by (intro keeps_rules bgs; simp add: harmless_def)+

lemma keeps_uart_wait [keeps_rules]: "keeps I (uart_wait n)"
proof (induction n)
  case (Suc n)
  then show ?case unfolding uart_wait.simps microdelay_def by (intro keeps_rules)
qed (simp only: uart_wait.simps keeps_ret)

lemma keeps_serial [keeps_rules]: "keeps I (uartputc ch)" "keeps I uartgetc" "keeps I kbdgetc"
  unfolding uartputc_def uartgetc_def kbdgetc_def
  by (intro keeps_rules bgs; simp add: harmless_def)+

lemma keeps_cga [keeps_rules]: "keeps I cga_cursor" "keeps I (cga_write ch pos)" "keeps I (cga_scroll pos)"
  "keeps I (cga_set pos)"
  unfolding cga_cursor_def cga_write_def cga_scroll_def cga_set_def
  by (intro keeps_rules bgs; simp add: harmless_def)+

lemma keeps_putc [keeps_rules]: "keeps I (cgaputc ch)" "keeps I (consputc ch)" "keeps I (printint x bs sg)"
  unfolding cgaputc_def consputc_def printint_def
  by (intro keeps_rules bgs; simp add: harmless_def)+

lemma keeps_cprintf_loop [keeps_rules]: "keeps I (cprintf_loop fmt args)"
proof (induction fmt arbitrary: args rule: length_induct)
  case (1 fmt)
  show ?case
  proof (cases fmt)
    case (Cons ch rest)
    have IH: "keeps I (cprintf_loop rest as)" for as using 1 Cons by simp
    have IH2: "rest = f # fs \<Longrightarrow> keeps I (cprintf_loop fs as)" for f fs as using 1 Cons by simp
    show ?thesis unfolding Cons cprintf_loop.simps Let_def
      by (intro keeps_if keeps_seq keeps_list keeps_carg IH keeps_rules) (erule IH2)+
  qed (simp only: cprintf_loop.simps keeps_ret)
qed

lemma keeps_cprintf [keeps_rules]: "keeps I (cprintf fmt args)" "keeps I procdump"
  unfolding cprintf_def procdump_def
  by (intro keeps_rules bgs; simp add: harmless_def)+

subsection \<open>Memory\<close>

lemma keeps_pages [keeps_rules]: "keeps I kalloc" "keeps I (kfree v)"
  unfolding kalloc_def kfree_def
  by (intro keeps_rules bgs; simp add: harmless_def)+

lemma keeps_words [keeps_rules]: "keeps I (rd32 a)" "keeps I (wr32 a v)" "keeps I (kmemset a v n)"
  "keeps I (kmemmove d a n)"
  unfolding rd32_def wr32_def kmemset_def kmemmove_def
  by (intro keeps_rules bgs; simp add: harmless_def)+

lemma keeps_deref [keeps_rules]: "keeps I (deref32 a)" "keeps I (deref8 a)" "keeps I (store32 a v)"
  "keeps I (store8 a u)"
  unfolding deref32_def deref8_def store32_def store8_def
  by (intro keeps_rules bgs; simp add: harmless_def)+

lemma keeps_walk [keeps_rules]: "keeps I (walkpgdir pd va al)"
  unfolding walkpgdir_def
  by (intro keeps_rules bgs; simp add: harmless_def)

lemma keeps_map [keeps_rules]: "keeps I (mappages pd va n pa perm)" "keeps I (unmappages pd va n)"
  "keeps I (deallocuvm pd a e)"
  unfolding mappages_def unmappages_def deallocuvm_def Let_def
  by (intro keeps_rules bgs; simp add: harmless_def)+

lemma keeps_free [keeps_rules]: "keeps I (free_tables pd i)" "keeps I (freevm pd)" "keeps I (freethread pd a)"
  unfolding free_tables_def freevm_def freethread_def
  by (intro keeps_rules bgs; simp add: harmless_def)+

lemma keeps_map_kernel [keeps_rules]: "keeps I (map_kernel ks pd)"
proof (induction ks)
  case (Cons k ks)
  then show ?case unfolding map_kernel.simps by (intro keeps_rules)
qed (simp only: map_kernel.simps keeps_ret)

lemma keeps_spaces [keeps_rules]: "keeps I setupkvm" "keeps I (allocuvm pd a e)" "keeps I (palloc pd loc)"
  "keeps I (bad_vm d)"
  unfolding setupkvm_def allocuvm_def palloc_def bad_vm_def
  by (intro keeps_rules bgs; simp add: harmless_def)+

lemma keeps_store_bytes [keeps_rules]: "keeps I (store_bytes a bs)"
proof (induction bs arbitrary: a)
  case (Cons b bs)
  then show ?case unfolding store_bytes.simps by (intro keeps_rules)
qed (simp only: store_bytes.simps keeps_ret)

lemma keeps_src_byte [keeps_rules]: "keeps I (src_byte src i)"
  unfolding src_byte_def by (cases src) (simp_all only: src.case keeps_rules)

lemma keeps_src_bytes [keeps_rules]: "keeps I (src_bytes src i n)"
proof (induction n arbitrary: i)
  case (Suc n)
  then show ?case unfolding src_bytes.simps by (intro keeps_rules)
qed (simp only: src_bytes.simps keeps_ret)

lemma keeps_copies [keeps_rules]: "keeps I (copyuvm pd n)" "keeps I (linkuvm pd n a e)" "keeps I (copyout pd va q n)"
  "keeps I (clearpteu pd a)"
  unfolding copyuvm_def linkuvm_def copyout_def clearpteu_def copy_stack_def uva2ka_def Let_def
  by (intro keeps_rules bgs; simp add: harmless_def)+

lemma keeps_put_dst [keeps_rules]: "keeps I (put_dst dst i bs)"
  unfolding put_dst_def
  by (intro keeps_rules bgs; simp add: harmless_def)

lemma keeps_switching [keeps_rules]: "keeps I (lcr3 v)" "keeps I (ltr w)" "keeps I switchkvm" "keeps I (switchuvm q)"
  unfolding lcr3_def ltr_def switchkvm_def switchuvm_def
  by (intro keeps_rules bgs; simp add: harmless_def)+

subsection \<open>Processes\<close>

lemma keeps_sched [keeps_rules]: "keeps I sched"
  unfolding sched_def sched_switch_def
  by (intro keeps_rules bgs; simp add: harmless_def)

lemma keeps_yield [keeps_rules]: "keeps I yield" "keeps I maybe_yield"
  unfolding yield_def maybe_yield_def
  by (intro keeps_rules bgs; simp add: harmless_def)+

lemma keeps_sleep [keeps_rules]: "keeps I (sleep ch lk)"
  unfolding sleep_def
  by (intro keeps_rules bgs; simp add: harmless_def)

lemma keeps_wakeup1 [keeps_rules]: "keeps I (wakeup1 ch)"
  unfolding wakeup1_def by (intro keeps_rules) (simp add: bg_make_runnable)

lemma keeps_wakeup [keeps_rules]: "keeps I (wakeup ch)" "keeps I (kill n)"
  unfolding wakeup_def kill_def
  by (intro keeps_rules bgs; simp add: harmless_def)+

lemma keeps_proc_calls [keeps_rules]: "keeps I (growproc n)" "keeps I (set_ticketCount n)" "keeps I get_policy"
  "keeps I (change_policy n)" "keeps I (set_priority n)" "keeps I (get_proc_times a)"
  unfolding growproc_def set_ticketCount_def get_policy_def change_policy_def set_priority_def get_proc_times_def
    Let_def
  by (intro keeps_rules bgs; simp add: harmless_def)+

lemma keeps_proc_reads [keeps_rules]: "keeps I get_ticketCount" "keeps I getpage" "keeps I (detachpage a)"
  unfolding get_ticketCount_def getpage_def detachpage_def
  by (intro keeps_rules bgs; simp add: harmless_def)+

subsection \<open>The buffer cache and the log\<close>

lemma keeps_sleeplocks [keeps_rules]: "keeps I (holdingsleep k)" "keeps I (initsleeplock k nm)"
  "keeps I (acquiresleep k)" "keeps I (releasesleep k)"
  unfolding holdingsleep_def initsleeplock_def acquiresleep_def releasesleep_def
  by (intro keeps_rules bgs; simp add: harmless_def)+

lemma keeps_ide [keeps_rules]: "keeps I (outsl d)" "keeps I (insl b)" "keeps I (idewait e)" "keeps I (ide_append b)"
  "keeps I (idestart x)" "keeps I (memide_rw b)"
  unfolding outsl_def insl_def idewait_def ide_append_def idestart_def memide_rw_def Let_def
  by (intro keeps_rules bgs; simp add: harmless_def)+

lemma keeps_disk [keeps_rules]: "keeps I (ide_rw b)" "keeps I (iderw b)" "keeps I ide_intr" "keeps I memide_intr"
  "keeps I (bfind lnk P)"
  unfolding ide_rw_def iderw_def ide_intr_def memide_intr_def bfind_def
  by (intro keeps_rules bgs; simp add: harmless_def)+

lemma keeps_buffers [keeps_rules]: "keeps I (bget dv bn)" "keeps I (bread dv bn)" "keeps I (bwrite b)"
  "keeps I (brelse b)" "keeps I (readsb dv)"
  unfolding bget_def bread_def bwrite_def brelse_def readsb_def
  by (intro keeps_rules bgs; simp add: harmless_def)+

lemma keeps_log_parts [keeps_rules]: "keeps I install_trans" "keeps I read_head" "keeps I write_head"
  "keeps I write_log" "keeps I recover_from_log"
  unfolding install_trans_def read_head_def write_head_def write_log_def recover_from_log_def
  by (intro keeps_rules bgs; simp add: harmless_def)+

lemma keeps_log [keeps_rules]: "keeps I (initlog dv)" "keeps I commit" "keeps I begin_op" "keeps I end_op"
  "keeps I (log_write b)"
  unfolding initlog_def commit_def begin_op_def end_op_def log_write_def
  by (intro keeps_rules bgs; simp add: harmless_def)+

subsection \<open>Blocks and inodes\<close>

lemma keeps_blocks [keeps_rules]: "keeps I (bzero dv b)" "keeps I (balloc dv)" "keeps I (bfree dv b)"
  unfolding bzero_def balloc_def bfree_def Let_def
  by (intro keeps_rules bgs; simp add: harmless_def)+

lemma keeps_inodes [keeps_rules]: "keeps I (iget dv ino)" "keeps I (idup i)" "keeps I (iinit dv)"
  "keeps I (ialloc dv ty)" "keeps I (iupdate i)" "keeps I (ilock i)" "keeps I (iunlock i)"
  unfolding iget_def idup_def iinit_def ialloc_def iupdate_def ilock_def iunlock_def
  by (intro keeps_rules bgs; simp add: harmless_def)+

lemma keeps_inode_blocks [keeps_rules]: "keeps I (bmap i bn)" "keeps I (itrunc i)" "keeps I (iput i)"
  "keeps I (iunlockput i)" "keeps I (stati i)"
  unfolding bmap_def itrunc_def iput_def iunlockput_def stati_def Let_def
  by (intro keeps_rules bgs; simp add: harmless_def)+

end

section \<open>Routines that may read the console\<close>

text \<open>Reading and writing an inode dispatch to the console device, so everything above them relies on the
  console keeping the invariant.\<close>

locale background_io = background +
  assumes keeps_consoleread [keeps_rules]: "keeps I (consoleread i dst n)"
    and keeps_kbdintr [keeps_rules]: "keeps I kbdintr" and keeps_uartintr [keeps_rules]: "keeps I uartintr"
begin

lemma keeps_consolewrite [keeps_rules]: "keeps I (consolewrite i src n)"
  unfolding consolewrite_def
  by (intro keeps_rules bgs; simp add: harmless_def)

lemma keeps_inode_io [keeps_rules]: "keeps I (readi i dst off n)" "keeps I (writei i src off n)"
  unfolding readi_def writei_def Let_def
  by (intro keeps_rules bgs; simp add: harmless_def)+

lemma keeps_directories [keeps_rules]: "keeps I (dirlookup dp nm)" "keeps I (dirlink dp nm ino)"
  "keeps I (isdirempty dp)"
  unfolding dirlookup_def dirlink_def isdirempty_def Let_def
  by (intro keeps_rules bgs; simp add: harmless_def)+

lemma keeps_paths [keeps_rules]: "keeps I (namex path np)" "keeps I (namei path)" "keeps I (nameiparent path)"
  unfolding namex_def namei_def nameiparent_def
  by (intro keeps_rules bgs; simp add: harmless_def)+

subsection \<open>Files and pipes\<close>

lemma keeps_pipe_parts [keeps_rules]: "keeps I (pipe_put a u)" "keeps I (pipe_take a)" "keeps I (pipe_room a)"
  "keeps I (pipe_data a)"
  unfolding pipe_put_def pipe_take_def pipe_room_def pipe_data_def
  by (intro keeps_rules bgs; simp add: harmless_def)+

lemma keeps_pipes [keeps_rules]: "keeps I (pipeclose a w)" "keeps I (pipewrite a addr n)"
  "keeps I (piperead a addr n)"
  unfolding pipeclose_def pipewrite_def piperead_def
  by (intro keeps_rules bgs; simp add: harmless_def)+

lemma keeps_file_io [keeps_rules]: "keeps I (filestat f st)" "keeps I (fileread f addr n)"
  "keeps I (filewrite f addr n)"
  unfolding filestat_def fileread_def filewrite_def Let_def store_stat_def store16_def
  by (intro keeps_rules bgs; simp add: harmless_def)+

subsection \<open>Program loading and arguments\<close>

lemma keeps_loading [keeps_rules]: "keeps I (loaduvm pd a ip off n)" "keeps I (load_segments ip elf pd)"
  "keeps I (push_args argv pd sp)" "keeps I (exec_bad pd x)"
  unfolding loaduvm_def load_segments_def push_args_def exec_bad_def Let_def
  by (intro keeps_rules bgs; simp add: harmless_def)+

lemma keeps_exec [keeps_rules]: "keeps I (exec_commit cp path argv elf pd n)" "keeps I (exec path argv)"
  unfolding exec_commit_def exec_def Let_def
  by (intro keeps_rules bgs; simp add: harmless_def)+

lemma keeps_args [keeps_rules]: "keeps I (fetchint a)" "keeps I (fetchstr a)" "keeps I (argint i)"
  "keeps I (argptr i len)" "keeps I (argstr i)" "keeps I (argfd i)" "keeps I rw_args" "keeps I (fetch_argv a)"
  unfolding fetchint_def fetchstr_def argint_def argptr_def argstr_def argfd_def rw_args_def fetch_argv_def
  by (intro keeps_rules bgs; simp add: harmless_def)+

subsection \<open>System calls that leave the tables alone\<close>

lemma keeps_sys_io [keeps_rules]: "keeps I sys_read" "keeps I sys_write" "keeps I sys_fstat" "keeps I sys_exec"
  unfolding sys_read_def sys_write_def sys_fstat_def sys_exec_def
  by (intro keeps_rules bgs; simp add: harmless_def)+

lemma keeps_links [keeps_rules]: "keeps I (link_bad ip)" "keeps I (do_link old new)" "keeps I sys_link"
  "keeps I (unlink_bad dp)" "keeps I (do_unlink path)" "keeps I sys_unlink"
  unfolding link_bad_def do_link_def sys_link_def unlink_bad_def do_unlink_def sys_unlink_def
  by (intro keeps_rules bgs; simp add: harmless_def)+

lemma keeps_creation [keeps_rules]: "keeps I (create path ty mj mn)" "keeps I (open_inode path mode)"
  "keeps I (made x)" "keeps I sys_mkdir" "keeps I sys_mknod"
  unfolding create_def open_inode_def made_def sys_mkdir_def sys_mknod_def
  by (intro keeps_rules bgs; simp add: harmless_def)+

lemma keeps_sysproc [keeps_rules]: "keeps I sys_kill" "keeps I sys_getpid" "keeps I sys_sbrk" "keeps I sys_sleep"
  "keeps I sys_uptime" "keeps I sys_getpage" "keeps I sys_detachpage" "keeps I sys_thread_id"
  "keeps I sys_change_policy" "keeps I sys_get_policy" "keeps I sys_set_priority" "keeps I sys_get_proc_times"
  "keeps I sys_get_ticketCount" "keeps I sys_set_ticketCount"
  unfolding sys_kill_def sys_getpid_def sys_sbrk_def sys_sleep_def sys_uptime_def sys_getpage_def
    sys_detachpage_def sys_thread_id_def sys_change_policy_def sys_get_policy_def sys_set_priority_def
    sys_get_proc_times_def sys_get_ticketCount_def sys_set_ticketCount_def
  by (intro keeps_rules bgs; simp add: harmless_def)+

lemma keeps_traps [keeps_rules]: "keeps I timer_tick" "keeps I (unexpected_trap fr)" "keeps I (tick_quantum fr)"
  "keeps I ideintr" "keeps I (trap_dispatch fr)" "keeps I forkret"
  unfolding timer_tick_def unexpected_trap_def tick_quantum_def ideintr_def trap_dispatch_def forkret_def Let_def
  by (intro keeps_rules bgs; simp add: harmless_def)+

end

section \<open>Invariants that do not read the input ring\<close>

locale input_free = background +
  assumes bg_input: "I s \<Longrightarrow> I (s\<lparr>inp_buf := v1\<rparr>)" "I s \<Longrightarrow> I (s\<lparr>inp_r := v2\<rparr>)" "I s \<Longrightarrow> I (s\<lparr>inp_w := v3\<rparr>)"
    "I s \<Longrightarrow> I (s\<lparr>inp_e := v4\<rparr>)"
begin

lemma keeps_input_parts [keeps_rules]: "keeps I kill_line" "keeps I (input_char ch)" "keeps I (wait_input i)"
  unfolding kill_line_def input_char_def wait_input_def Let_def by (intro keeps_rules bgs bg_input; simp)+

lemma keeps_console_input: "keeps I (consoleread i dst n)"
  unfolding consoleread_def by (intro keeps_rules bg_input; simp)

lemma keeps_consoleintr: "keeps I getc \<Longrightarrow> keeps I (consoleintr getc)"
  unfolding consoleintr_def by (intro keeps_rules bg_input; simp)

end

sublocale input_free \<subseteq> background_io
  by unfold_locales (auto simp: kbdintr_def uartintr_def intro: keeps_console_input keeps_consoleintr keeps_serial)

section \<open>Invariants that do not read the tables\<close>

locale carefree = background_io +
  assumes any_proc: "I s \<Longrightarrow> I (upd_proc p g1 s)" and any_file: "I s \<Longrightarrow> I (upd_file f g2 s)"
    and any_cpu: "I s \<Longrightarrow> I (upd_cpu c g3 s)"
begin

lemma keeps_files_any [keeps_rules]: "keeps I filealloc" "keeps I (filedup f)" "keeps I (fileclose f)" "keeps I (fdalloc f)"
  unfolding filealloc_def filedup_def fileclose_def fdalloc_def by (intro keeps_rules any_file any_proc; assumption?)+

lemma keeps_pipealloc_any [keeps_rules]: "keeps I (pipe_bad f0 f1)" "keeps I pipealloc"
  unfolding pipealloc_def pipe_bad_def by (intro keeps_rules any_file bg_pipe; assumption?)+

lemma keeps_fd_calls_any [keeps_rules]:
  "keeps I sys_dup" "keeps I sys_close" "keeps I (do_open path mode)" "keeps I sys_open" "keeps I sys_pipe" "keeps I sys_chdir"
  unfolding sys_dup_def sys_close_def do_open_def sys_open_def sys_pipe_def sys_chdir_def
  by (intro keeps_rules any_file any_proc; assumption?)+

lemma keeps_life_any [keeps_rules]: "keeps I allocproc" "keeps I (share_files cp np)" "keeps I (launch np)" "keeps I (abandon np)"
  "keeps I (close_files cp)" "keeps I (leave_family cp)" "keeps I (reap_child arg p)" "keeps I (reap_thread cp p)"
  unfolding allocproc_def share_files_def launch_def abandon_def close_files_def leave_family_def reap_child_def reap_thread_def
  by (intro keeps_rules any_proc bg_kernel bg_make_runnable; assumption?)+

lemma keeps_family_any [keeps_rules]: "keeps I fork" "keeps I (thread_create sp)" "keeps I exit"
  "keeps I (diagwait n arg)" "keeps I (wait n)" "keeps I (thread_join n tid)"
  unfolding fork_def thread_create_def exit_def wait_def diagwait_def thread_join_def Let_def
  by (intro keeps_rules any_proc bg_kernel; assumption?)+

lemma keeps_proc_syscalls_any [keeps_rules]:
  "keeps I sys_fork" "keeps I sys_exit" "keeps I sys_diagwait" "keeps I sys_wait" "keeps I sys_thread_create" "keeps I sys_thread_join"
  unfolding sys_fork_def sys_exit_def sys_diagwait_def sys_wait_def sys_thread_create_def sys_thread_join_def
  by (intro keeps_rules)+

lemma keeps_syscalls_any: "f \<in> set (syscalls junk) \<Longrightarrow> keeps I f"
  unfolding syscalls_def by (auto intro!: keeps_rules simp: keeps_rules)

lemma keeps_syscall_any [keeps_rules]: "keeps I (syscall junk)"
  unfolding syscall_def
  by (intro keeps_rules keeps_syscalls_any [of _ junk] syscall_number any_proc; assumption?)

lemma keeps_trap_any: "keeps I (trap junk f)"
  unfolding trap_def exit_killed_def exit_if_killed_def by (intro keeps_rules any_proc; assumption?)

lemma keeps_scheduler_any: "keeps I (scheduler n)"
  unfolding scheduler_def sched_choose_def sched_run_def fastrand_def fastrandSlated_def Let_def
  by (intro keeps_rules any_cpu any_proc bg_kernel; assumption?)

end

end
