(* ===== verification/Sched.thy ===== *)
theory Sched
  imports Proc
begin

text \<open>
  The scheduling policies: what each scan of the process table chooses. Round robin finds the next
  runnable slot, the priority scan finds a slot of the best priority and takes turns among equals,
  and the lottery gives every runnable process exactly as many winning draws as it has tickets.
\<close>

definition runnable :: "proc list \<Rightarrow> nat \<Rightarrow> bool" where
  "runnable ps p \<longleftrightarrow> p < length ps \<and> state (ps ! p) = RUNNABLE"

section \<open>Round robin\<close>

lemma rr_scan_Some:
  assumes "length ps = NPROC"
  shows "rr_scan ps start = Some p \<longleftrightarrow> runnable ps p \<and> start \<le> p \<and> (\<forall>q. start \<le> q \<and> q < p \<longrightarrow> \<not> runnable ps q)"
proof -
  have "rr_scan ps start = Some p \<longleftrightarrow> (\<exists>i < NPROC - start. state (ps ! p) = RUNNABLE \<and> p = start + i \<and>
      (\<forall>j < i. state (ps ! (start + j)) \<noteq> RUNNABLE))"
    unfolding rr_scan_def find_Some_iff by auto
  also have "\<dots> \<longleftrightarrow> runnable ps p \<and> start \<le> p \<and> (\<forall>q. start \<le> q \<and> q < p \<longrightarrow> \<not> runnable ps q)"
    (is "?L \<longleftrightarrow> ?R")
  proof
    assume ?L
    then obtain i where i: "i < NPROC - start" "state (ps ! p) = RUNNABLE" "p = start + i"
      "\<forall>j < i. state (ps ! (start + j)) \<noteq> RUNNABLE" by blast
    have "\<not> runnable ps q" if "start \<le> q" "q < p" for q
      using i(3) i(4) [rule_format, of "q - start"] that by (auto simp: runnable_def)
    with i assms show ?R by (auto simp: runnable_def)
  next
    assume ?R
    then show ?L using assms by (intro exI [of _ "p - start"]) (auto simp: runnable_def)
  qed
  finally show ?thesis .
qed

lemma rr_scan_None:
  "length ps = NPROC \<Longrightarrow> rr_scan ps start = None \<longleftrightarrow> (\<forall>q \<ge> start. \<not> runnable ps q)"
  by (auto simp: rr_scan_def find_None_iff runnable_def)

text \<open>One round of policy 0 or 1 on an unchanging table: the slot chosen and the new position.\<close>

definition rr_round :: "proc list \<Rightarrow> nat option \<Rightarrow> nat option \<times> nat option" where
  "rr_round ps lp = (rr_scan ps (rr_start lp), Some (case rr_scan ps (rr_start lp) of Some p \<Rightarrow> p | None \<Rightarrow> 0))"

primrec rr_pos :: "proc list \<Rightarrow> nat option \<Rightarrow> nat \<Rightarrow> nat option" where
  "rr_pos ps lp 0 = lp"
| "rr_pos ps lp (Suc n) = rr_pos ps (snd (rr_round ps lp)) n"

definition rr_pick :: "proc list \<Rightarrow> nat option \<Rightarrow> nat \<Rightarrow> nat option" where
  "rr_pick ps lp n = fst (rr_round ps (rr_pos ps lp n))"

lemma rr_pick_0: "rr_pick ps lp 0 = fst (rr_round ps lp)"
  and rr_pick_Suc: "rr_pick ps lp (Suc n) = rr_pick ps (snd (rr_round ps lp)) n"
  by (simp_all add: rr_pick_def)

text \<open>From a position below \<open>p\<close> the rounds move up to \<open>p\<close>.\<close>

lemma rr_reaches:
  assumes "length ps = NPROC" "runnable ps p" "rr_start lp \<le> p" "\<not> runnable ps 0"
  shows "\<exists>n \<le> p - rr_start lp. rr_pick ps lp n = Some p"
  using assms(3)
proof (induction "p - rr_start lp" arbitrary: lp rule: less_induct)
  case less
  have "rr_scan ps (rr_start lp) \<noteq> None" using assms(1,2) less.prems by (auto simp: rr_scan_None)
  then obtain q where q: "rr_scan ps (rr_start lp) = Some q" by blast
  then have r: "runnable ps q" "rr_start lp \<le> q" "q \<le> p"
    using rr_scan_Some [OF assms(1)] assms(2) less.prems by (auto simp: not_less [symmetric])
  show ?case
  proof (cases "q = p")
    case True
    then show ?thesis using q by (intro exI [of _ 0]) (simp add: rr_pick_0 rr_round_def)
  next
    case False
    have "q \<noteq> 0" using r(1) assms(4) by (cases q) auto
    moreover have "q < NPROC" using r(1) assms(1) by (simp add: runnable_def)
    ultimately have st: "rr_start (Some q) = Suc q" by (simp add: rr_start_def)
    have "\<exists>n \<le> p - rr_start (Some q). rr_pick ps (Some q) n = Some p"
      by (rule less.hyps) (use st r False in auto)
    then obtain n where "n \<le> p - Suc q" "rr_pick ps (Some q) n = Some p" using st by auto
    then show ?thesis using q r False
      by (intro exI [of _ "Suc n"]) (auto simp: rr_pick_Suc rr_round_def)
  qed
qed

text \<open>From any position the rounds come back to the first slot.\<close>

lemma rr_wraps:
  assumes "length ps = NPROC" "\<not> runnable ps 0"
  shows "\<exists>n \<le> NPROC - rr_start lp + 1. rr_start (rr_pos ps lp n) = 0"
proof (induction "NPROC - rr_start lp" arbitrary: lp rule: less_induct)
  case less
  show ?case
  proof (cases "rr_scan ps (rr_start lp)")
    case None
    then show ?thesis by (intro exI [of _ 1]) (simp add: rr_round_def rr_start_def)
  next
    case (Some q)
    then have r: "runnable ps q" "rr_start lp \<le> q" using rr_scan_Some [OF assms(1)] by auto
    have "q \<noteq> 0" using r(1) assms(2) by (cases q) auto
    moreover have q: "q < NPROC" using r(1) assms(1) by (simp add: runnable_def)
    ultimately have st: "rr_start (Some q) = Suc q" by (simp add: rr_start_def)
    have "\<exists>n \<le> NPROC - rr_start (Some q) + 1. rr_start (rr_pos ps (Some q) n) = 0"
      by (rule less.hyps) (use st r q in auto)
    then obtain n where "n \<le> NPROC - Suc q + 1" "rr_start (rr_pos ps (Some q) n) = 0" using st by auto
    then show ?thesis using Some r q by (intro exI [of _ "Suc n"]) (auto simp: rr_round_def)
  qed
qed

lemma rr_pos_add: "rr_pos ps lp (m + n) = rr_pos ps (rr_pos ps lp m) n"
  by (induction m arbitrary: lp) auto

lemma rr_fair:
  assumes "length ps = NPROC" "\<not> runnable ps 0" "runnable ps p"
  shows "\<exists>n \<le> 2 * NPROC. rr_pick ps lp n = Some p"
proof -
  obtain m where m: "m \<le> NPROC - rr_start lp + 1" "rr_start (rr_pos ps lp m) = 0"
    using rr_wraps [OF assms(1,2), of lp] by blast
  obtain n where n: "n \<le> p" "rr_pick ps (rr_pos ps lp m) n = Some p"
    using rr_reaches [OF assms(1,3) _ assms(2), of "rr_pos ps lp m"] m(2) by auto
  have "p < NPROC" using assms(1,3) by (simp add: runnable_def)
  moreover have "rr_pick ps lp (m + n) = Some p" using n(2) by (simp add: rr_pick_def rr_pos_add)
  ultimately show ?thesis using m(1) n(1) by (intro exI [of _ "m + n"]) simp
qed

text \<open>The code does such a round.\<close>

definition rr_quantum :: "u32 \<Rightarrow> u32" where
  "rr_quantum alg = (if alg = 0 then 1 else QUANTUM)"

lemma sched_choose_rr:
  assumes "c < length (cpus s)" "schedAlg (cpus s ! c) = alg" "alg = 0 \<or> alg = 1"
  shows "sched_choose c s = Done (map_option (\<lambda>p. (p, rr_quantum alg)) (fst (rr_round (procs s) (RRLastProc (cpus s ! c)))))
    (upd_cpu c (\<lambda>k. k\<lparr>RRLastProc := snd (rr_round (procs s) (RRLastProc (cpus s ! c)))\<rparr>) s)"
  using assms
  by (auto simp: sched_choose_def rr_round_def rr_quantum_def upd_cpu_def split: option.splits)

definition choose_round :: "nat \<Rightarrow> ('z kstate_scheme, unit) routine" where
  "choose_round c = seq (sched_choose c) (ret ())"

lemma rr_rounds:
  assumes "c < length (cpus s)" "schedAlg (cpus s ! c) = alg" "alg = 0 \<or> alg = 1"
  shows "ntimes n (choose_round c) s =
    Done () (upd_cpu c (\<lambda>k. k\<lparr>RRLastProc := rr_pos (procs s) (RRLastProc (cpus s ! c)) n\<rparr>) s)"
  using assms
proof (induction n arbitrary: s)
  case 0
  then show ?case by (simp add: upd_cpu_def)
next
  case (Suc n)
  let ?t = "upd_cpu c (\<lambda>k. k\<lparr>RRLastProc := snd (rr_round (procs s) (RRLastProc (cpus s ! c)))\<rparr>) s"
  have "choose_round c s = Done () ?t" using Suc.prems by (simp add: choose_round_def sched_choose_rr)
  moreover have "ntimes n (choose_round c) ?t =
    Done () (upd_cpu c (\<lambda>k. k\<lparr>RRLastProc := rr_pos (procs ?t) (RRLastProc (cpus ?t ! c)) n\<rparr>) ?t)"
    by (rule Suc.IH) (use Suc.prems in simp_all)
  ultimately show ?case using Suc.prems(1) by (simp add: ntimes_Suc upd_cpu_def)
qed

section \<open>Priorities\<close>

text \<open>The slots in the order in which the scan visits them.\<close>

primrec scan_order :: "nat \<Rightarrow> nat \<Rightarrow> nat list" where
  "scan_order p 0 = []"
| "scan_order p (Suc k) = p # scan_order (if NPROC \<le> p + 1 then 0 else p + 1) k"

lemma scan_order_mod: "p < NPROC \<Longrightarrow> scan_order p k = map (\<lambda>i. (p + i) mod NPROC) [0..<k]"
proof (induction k arbitrary: p)
  case (Suc k)
  let ?n = "if NPROC \<le> p + 1 then 0 else p + 1"
  have n: "?n < NPROC" "?n = Suc p mod NPROC" using Suc.prems by (auto simp: mod_Suc)
  have "scan_order ?n k = map (\<lambda>i. (Suc p mod NPROC + i) mod NPROC) [0..<k]" using Suc.IH [OF n(1)] n(2) by simp
  also have "\<dots> = map (\<lambda>i. (p + i) mod NPROC) (map Suc [0..<k])" by (simp add: mod_add_left_eq)
  finally have "scan_order p (Suc k) = p # map (\<lambda>i. (p + i) mod NPROC) [Suc 0..<Suc k]"
    by (simp only: scan_order.simps map_Suc_upt)
  also have "\<dots> = map (\<lambda>i. (p + i) mod NPROC) [0..<Suc k]"
    using Suc.prems by (simp add: upt_conv_Cons del: upt_Suc)
  finally show ?case .
qed simp

text \<open>A full round visits every slot once.\<close>

lemma scan_order_bound: "p < NPROC \<Longrightarrow> q \<in> set (scan_order p k) \<Longrightarrow> q < NPROC"
  by (auto simp: scan_order_mod)

lemma set_scan_order: "p < NPROC \<Longrightarrow> set (scan_order p NPROC) = {..<NPROC}"
proof -
  assume p: "p < NPROC"
  have "q \<in> (\<lambda>i. (p + i) mod NPROC) ` {..<NPROC}" if "q < NPROC" for q
  proof (cases "p \<le> q")
    case True
    then show ?thesis using that by (intro image_eqI [of _ _ "q - p"]) auto
  next
    case False
    then show ?thesis using that p by (intro image_eqI [of _ _ "NPROC + q - p"]) auto
  qed
  then show ?thesis using p by (auto simp: scan_order_mod atLeast0LessThan)
qed

text \<open>The first element with the smallest value.\<close>

fun first_min :: "('e \<Rightarrow> 'k::linorder) \<Rightarrow> 'e list \<Rightarrow> 'e option" where
  "first_min f [] = None"
| "first_min f (x # xs) = (case first_min f xs of None \<Rightarrow> Some x | Some y \<Rightarrow> if f y < f x then Some y else Some x)"

lemma first_min_None: "first_min f xs = None \<longleftrightarrow> xs = []"
  by (cases xs) (auto split: option.splits)

lemma first_min_Some:
  "first_min f xs = Some x \<Longrightarrow> x \<in> set xs \<and> (\<forall>y \<in> set xs. f x \<le> f y) \<and>
     (\<exists>us vs. xs = us @ x # vs \<and> (\<forall>u \<in> set us. f x < f u))"
proof (induction xs arbitrary: x)
  case (Cons a xs)
  show ?case
  proof (cases "first_min f xs")
    case None
    then have "xs = []" "x = a" using Cons.prems by (auto simp: first_min_None)
    then show ?thesis by (intro conjI exI [of _ "[]"] exI [of _ xs]) auto
  next
    case (Some y)
    note IH = Cons.IH [OF Some]
    show ?thesis
    proof (cases "f y < f a")
      case True
      then have xy: "x = y" using Some Cons.prems by simp
      obtain us vs where "xs = us @ y # vs" "\<forall>u \<in> set us. f y < f u" using IH by blast
      then have "a # xs = (a # us) @ x # vs" "\<forall>u \<in> set (a # us). f x < f u" using True xy by auto
      then show ?thesis using IH True xy by (metis less_imp_le list.set_intros(2) set_ConsD)
    next
      case False
      then have "x = a" using Some Cons.prems by simp
      moreover have "\<forall>z \<in> set xs. f a \<le> f z" using IH False by (meson dual_order.trans not_less)
      ultimately show ?thesis by (intro conjI exI [of _ "[]"] exI [of _ xs]) auto
    qed
  qed
qed simp

definition prio_of :: "proc list \<Rightarrow> nat \<Rightarrow> u32" where
  "prio_of ps p = priority (ps ! p)"

definition prio_best :: "proc list \<Rightarrow> nat list \<Rightarrow> nat option" where
  "prio_best ps ord = first_min (prio_of ps) (filter (\<lambda>p. state (ps ! p) = RUNNABLE) ord)"

lemma prio_best_runnable: "prio_best ps ord = Some y \<Longrightarrow> y \<in> set ord \<and> state (ps ! y) = RUNNABLE"
  unfolding prio_best_def by (drule first_min_Some) simp

lemma prio_scan_best:
  assumes "\<forall>x \<in> set ps. state x = RUNNABLE \<longrightarrow> priority x \<noteq> 0" "length ps = NPROC" "p < NPROC"
    "minPP = 0 \<longleftrightarrow> minP = None"
  shows "prio_scan ps p k minPP minP =
    (case prio_best ps (scan_order p k) of None \<Rightarrow> minP
     | Some q \<Rightarrow> if minPP = 0 \<or> prio_of ps q < minPP then Some q else minP)"
  using assms(3,4)
proof (induction k arbitrary: p minPP minP)
  case 0
  then show ?case by (simp add: prio_best_def)
next
  case (Suc k)
  let ?n = "if NPROC \<le> p + 1 then 0 else p + 1"
  have n: "?n < NPROC" by simp
  have nz: "state (ps ! p) = RUNNABLE \<Longrightarrow> priority (ps ! p) \<noteq> 0"
    using assms(1,2) Suc.prems(1) by (simp add: all_set_conv_all_nth)
  note IH = Suc.IH [OF n]
  show ?case
  proof (cases "state (ps ! p) = RUNNABLE")
    case False
    then show ?thesis using IH [OF Suc.prems(2)] by (simp add: prio_best_def Let_def)
  next
    case True
    let ?v = "priority (ps ! p)" and ?b = "prio_best ps (scan_order ?n k)"
    define m' where "m' = (if minPP \<noteq> 0 \<and> \<not> ?v < minPP then minPP else ?v)"
    define mp' where "mp' = (if minPP \<noteq> 0 \<and> \<not> ?v < minPP then minP else Some p)"
    have "m' = 0 \<longleftrightarrow> mp' = None" using nz [OF True] Suc.prems(2) by (auto simp: m'_def mp'_def)
    note IH' = IH [OF this]
    have rec: "prio_scan ps p (Suc k) minPP minP = (if m' = 1 then mp' else prio_scan ps ?n k m' mp')"
      using True by (auto simp: Let_def m'_def mp'_def)
    have one: "\<not> prio_of ps y < 1" if "?b = Some y" for y
    proof -
      have "y \<in> set (scan_order ?n k)" "state (ps ! y) = RUNNABLE"
        using prio_best_runnable [OF that] by simp_all
      moreover have "y < NPROC" using scan_order_bound [OF n calculation(1)] .
      ultimately have "priority (ps ! y) \<noteq> 0" using assms(1,2) by (simp add: all_set_conv_all_nth)
      then show ?thesis by (simp add: prio_of_def word_less_nat_alt unat_eq_0)
    qed
    have best: "prio_best ps (scan_order p (Suc k)) =
      (case ?b of None \<Rightarrow> Some p | Some y \<Rightarrow> if prio_of ps y < prio_of ps p then Some y else Some p)"
      using True by (simp add: prio_best_def)
    have v: "prio_of ps p = ?v" by (simp add: prio_of_def)
    show ?thesis
    proof (cases ?b)
      case None
      then show ?thesis unfolding rec best IH' by (auto simp: m'_def mp'_def v)
    next
      case (Some y)
      have "\<not> prio_of ps y < m'" if "m' = 1" using one [OF Some] that by simp
      then show ?thesis unfolding rec best IH' Some using nz [OF True] by (auto simp: m'_def mp'_def v)
    qed
  qed
qed

section \<open>Lottery\<close>

lemma sint_nonneg: "unat (w :: u32) < 2147483648 \<Longrightarrow> sint w = int (unat w)"
proof -
  assume a: "unat w < 2147483648"
  have "int (unat w) < int 2147483648" using a by (simp only: of_nat_less_iff)
  then have "uint w < 2 ^ 31" "0 \<le> uint w" by simp_all
  then have "signed_take_bit 31 (uint w) = uint w" by (intro signed_take_bit_int_eq_self) linarith+
  moreover have "sint (word_of_int (uint w) :: u32) = signed_take_bit 31 (uint w)"
    by (simp only: signed_of_int) simp
  ultimately show ?thesis by simp
qed

lemma sint_neg_iff: "sint (w :: u32) < 0 \<longleftrightarrow> 2147483648 \<le> unat w"
proof -
  have "sint w < 0" if "2147483648 \<le> unat w"
  proof (rule ccontr)
    assume "\<not> sint w < 0"
    then have "int (unat w) = sint w" by (simp add: uint_nonneg)
    moreover have "int 2147483648 \<le> int (unat w)" using that by (simp only: of_nat_le_iff)
    ultimately show False using sint_lt [of w] by simp
  qed
  then show ?thesis using sint_nonneg [of w] by (cases "2147483648 \<le> unat w") auto
qed

text \<open>The tickets that count in a drawing, and the sum of the ones before a slot.\<close>

definition share :: "proc \<Rightarrow> nat" where
  "share p = (if state p = RUNNABLE then unat (ticketCount p) else 0)"

definition before :: "proc list \<Rightarrow> nat \<Rightarrow> nat" where
  "before ps i = sum_list (map share (take i ps))"

definition pool :: "proc list \<Rightarrow> nat" where
  "pool ps = sum_list (map share ps)"

lemma draw_step:
  assumes "unat w < 2147483648" "unat t < 2147483648"
  shows "sint (w - t :: u32) < 0 \<longleftrightarrow> unat w < unat t"
    and "unat t \<le> unat w \<Longrightarrow> unat (w - t) = unat w - unat t"
proof -
  have u: "unat (w - t) = (if unat t \<le> unat w then unat w - unat t else unat w + 4294967296 - unat t)"
    by (simp add: unat_sub_if_size word_size)
  then show "sint (w - t) < 0 \<longleftrightarrow> unat w < unat t" using assms unfolding sint_neg_iff
    by (cases "unat t \<le> unat w") (simp_all add: not_le)
  show "unat t \<le> unat w \<Longrightarrow> unat (w - t) = unat w - unat t" using u by simp
qed

lemma lottery_scan_interval:
  assumes "unat w < 2147483648" "\<forall>p \<in> set ps. share p < 2147483648"
  shows "lottery_scan ps w = Some i \<longleftrightarrow> i < length ps \<and> before ps i \<le> unat w \<and> unat w < before ps i + share (ps ! i)"
  using assms
proof (induction ps arbitrary: w i)
  case Nil
  then show ?case by simp
next
  case (Cons p ps)
  note d = draw_step [OF Cons.prems(1), of "ticketCount p"]
  have t: "unat (ticketCount p) < 2147483648" if "state p = RUNNABLE"
    using Cons.prems(2) that by (simp add: share_def)
  show ?case
  proof (cases "state p = RUNNABLE")
    case False
    then show ?thesis using Cons.IH [OF Cons.prems(1)] Cons.prems(2)
      by (cases i) (auto simp: before_def share_def)
  next
    case True
    show ?thesis
    proof (cases "unat w < unat (ticketCount p)")
      case less: True
      then have "lottery_scan (p # ps) w = Some 0" using True d(1) t by simp
      then show ?thesis using True less by (cases i) (simp_all add: before_def share_def)
    next
      case False
      then have w: "unat (w - ticketCount p) = unat w - unat (ticketCount p)" using d(2) t True by simp
      then have "unat (w - ticketCount p) < 2147483648" using Cons.prems(1) by simp
      note IH = Cons.IH [OF this]
      show ?thesis using True False d(1) t w IH Cons.prems(2)
        by (cases i) (auto simp: before_def share_def)
    qed
  qed
qed

lemma before_Suc: "i < length ps \<Longrightarrow> before ps (Suc i) = before ps i + share (ps ! i)"
  by (simp add: before_def take_Suc_conv_app_nth)

lemma before_mono: "i \<le> j \<Longrightarrow> before ps i \<le> before ps j"
proof -
  assume "i \<le> j"
  then obtain k where "j = i + k" by (metis le_Suc_ex)
  then show ?thesis by (simp add: before_def take_add)
qed

lemma before_pool: "before ps i \<le> pool ps"
  using before_mono [of i "i + length ps" ps] by (simp add: before_def pool_def)

lemma share_pool: "p \<in> set ps \<Longrightarrow> share p \<le> pool ps"
  unfolding pool_def by (rule member_le_sum_list) simp_all

lemma lottery_scan_pool:
  assumes "pool ps < 2147483648" "unat w < 2147483648"
  shows "lottery_scan ps w = Some i \<longleftrightarrow> i < length ps \<and> before ps i \<le> unat w \<and> unat w < before ps i + share (ps ! i)"
  by (rule lottery_scan_interval [OF assms(2)]) (use share_pool assms(1) in \<open>meson le_less_trans\<close>)

text \<open>Every draw below the pool finds a slot.\<close>

lemma before_search: "w < before ps n \<Longrightarrow> n \<le> length ps \<Longrightarrow> \<exists>i < n. before ps i \<le> w \<and> w < before ps (Suc i)"
proof (induction n)
  case 0
  then show ?case by (simp add: before_def)
next
  case (Suc n)
  then show ?case by (cases "w < before ps n") (auto simp: less_Suc_eq not_less)
qed

lemma lottery_scan_finds:
  assumes "pool ps < 2147483648" "unat w < pool ps"
  shows "\<exists>i. lottery_scan ps w = Some i"
proof -
  have "unat w < before ps (length ps)" using assms(2) by (simp add: before_def pool_def)
  then obtain i where i: "i < length ps" "before ps i \<le> unat w" "unat w < before ps (Suc i)"
    using before_search by blast
  then have "lottery_scan ps w = Some i" using assms by (simp add: lottery_scan_pool before_Suc)
  then show ?thesis ..
qed

lemma lottery_scan_runnable: "lottery_scan ps w = Some i \<Longrightarrow> runnable ps i"
proof (induction ps arbitrary: w i)
  case (Cons p ps)
  then show ?case by (auto simp: runnable_def Let_def split: if_splits)
qed simp

section \<open>A table for the witnesses\<close>

text \<open>Three runnable processes in slots 3, 5 and 7 of an otherwise unused table.\<close>

definition blank_proc :: proc where
  "blank_proc = \<lparr>sz = 0, pgdir = 0, kstack = 0, state = UNUSED, pid = 0, parent = None, tf = zero_tf,
     kret = Trapret, kctx = first_context, chan = None, killed = False, ofile = replicate NOFILE None,
     cwd = None, pname = replicate 16 0, first_pid = 0, priority = 0, creationTime = 0,
     lastChangeTime = 0, totalWaitTime = 0, totalCBT = 0, ticketCount = 0\<rparr>"

definition demo_proc :: "u32 \<Rightarrow> u32 \<Rightarrow> u32 \<Rightarrow> proc" where
  "demo_proc n prio t = blank_proc\<lparr>state := RUNNABLE, pid := n, first_pid := n, priority := prio, ticketCount := t\<rparr>"

definition demo_procs :: "proc list" where
  "demo_procs = (replicate NPROC blank_proc)[3 := demo_proc 4 2 10, 5 := demo_proc 6 2 30, 7 := demo_proc 8 4 5]"

definition demo_sched :: "u32 \<Rightarrow> nat \<Rightarrow> kstate" where
  "demo_sched alg lp = demo_state\<lparr>cpus := [(demo_cpu 0)\<lparr>schedAlg := alg, RRLastProc := Some lp\<rparr>, demo_cpu 4],
     procs := demo_procs, totalTicketCount := 45\<rparr>"

lemma demo_procs_simps [simp]:
  "length demo_procs = 64" "demo_procs ! 0 = blank_proc" "demo_procs ! 3 = demo_proc 4 2 10"
  "demo_procs ! 5 = demo_proc 6 2 30" "demo_procs ! 7 = demo_proc 8 4 5"
  "state blank_proc = UNUSED" "state (demo_proc n prio t) = RUNNABLE" "priority (demo_proc n prio t) = prio"
  "ticketCount (demo_proc n prio t) = t"
  by (simp_all add: demo_procs_def demo_proc_def blank_proc_def)

lemma set_demo_procs: "set demo_procs \<subseteq> {blank_proc, demo_proc 4 2 10, demo_proc 6 2 30, demo_proc 8 4 5}"
  unfolding demo_procs_def by (auto dest!: subsetD [OF set_update_subset_insert])

lemma demo_procs_prio: "\<forall>x \<in> set demo_procs. state x = RUNNABLE \<longrightarrow> 1 \<le> priority x \<and> priority x \<le> 6"
  using set_demo_procs by fastforce

lemma demo_sched_simps [simp]:
  "length (cpus (demo_sched alg l)) = 2" "schedAlg (cpus (demo_sched alg l) ! 0) = alg"
  "RRLastProc (cpus (demo_sched alg l) ! 0) = Some l" "procs (demo_sched alg l) = demo_procs"
  "totalTicketCount (demo_sched alg l) = 45"
  by (simp_all add: demo_sched_def)

section \<open>Properties\<close>



text \<open>(C20) If the first slot is runnable at its turn it stays chosen: the position of the first slot
  is not advanced, so the scheduler under policy 0 or 1 chooses slot 0 again and again for as long
  as it is runnable, and no other process runs.\<close>

theorem rr_first_slot_repeats:
  assumes "c < length (cpus s)" "schedAlg (cpus s ! c) = 0 \<or> schedAlg (cpus s ! c) = 1"
    "length (procs s) = NPROC" "runnable (procs s) 0" "RRLastProc (cpus s ! c) = Some 0"
  shows "\<exists>q. sched_choose c s = Done (Some (0, q)) s"
proof -
  have "rr_scan (procs s) 0 = Some 0" using rr_scan_Some [OF assms(3)] assms(4) by auto
  then have "rr_round (procs s) (Some 0) = (Some 0, Some 0)" by (simp add: rr_round_def rr_start_def)
  moreover have "upd_cpu c (\<lambda>k. k\<lparr>RRLastProc := Some 0\<rparr>) s = s"
    using assms(1,5) by (simp add: upd_cpu_def list_update_same_conv)
  ultimately show ?thesis using sched_choose_rr [OF assms(1) refl assms(2)] assms(5) by simp
qed

theorem rr_first_slot_repeats_witness:
  "\<exists>q. sched_choose 0 (demo_sched 1 0\<lparr>procs := demo_procs[0 := demo_proc 1 1 10]\<rparr>) =
     Done (Some (0, q)) (demo_sched 1 0\<lparr>procs := demo_procs[0 := demo_proc 1 1 10]\<rparr>)"
  by (rule rr_first_slot_repeats) (simp_all add: runnable_def)

text \<open>How far the scan goes before it looks at a slot.\<close>

definition distance :: "nat \<Rightarrow> nat \<Rightarrow> nat" where
  "distance start p = (p + NPROC - start) mod NPROC"

lemma scan_order_distance:
  assumes "start < NPROC" "scan_order start NPROC = us @ p # vs"
  shows "distance start p = length us" "\<forall>v \<in> set vs. length us < distance start v"
proof -
  let ?f = "\<lambda>i. (start + i) mod NPROC"
  have d: "distance start (?f i) = i" if "i < NPROC" for i
  proof (cases "start + i < NPROC")
    case True
    then show ?thesis using that assms(1) by (simp add: distance_def)
  next
    case False
    then have "?f i = start + i - NPROC" using that assms(1) by (simp add: mod_if)
    then show ?thesis using False that assms(1) by (simp add: distance_def)
  qed
  have o: "scan_order start NPROC ! i = ?f i" if "i < NPROC" for i
    using that assms(1) by (simp add: scan_order_mod)
  have len: "length us + Suc (length vs) = NPROC"
    using arg_cong [OF assms(2), of length] assms(1) by (simp add: scan_order_mod)
  show "distance start p = length us"
    using o [of "length us"] d [of "length us"] len assms(2) by (simp add: nth_append)
  show "\<forall>v \<in> set vs. length us < distance start v"
  proof
    fix v assume "v \<in> set vs"
    then obtain j where j: "j < length vs" "vs ! j = v" by (auto simp: in_set_conv_nth)
    then have "scan_order start NPROC ! (length us + Suc j) = v" using assms(2) by (simp add: nth_append)
    then show "length us < distance start v"
      using o [of "length us + Suc j"] d [of "length us + Suc j"] len j by simp
  qed
qed

lemma filter_split: "filter P xs = us @ x # vs \<Longrightarrow> \<exists>us' vs'. xs = us' @ x # vs' \<and> vs = filter P vs'"
proof (induction us arbitrary: xs)
  case Nil
  then show ?case by (auto simp: filter_eq_Cons_iff)
next
  case (Cons u us)
  then obtain as bs where "xs = as @ u # bs" "filter P bs = us @ x # vs"
    by (auto simp: filter_eq_Cons_iff)
  with Cons.IH [of bs] show ?case by (metis append.assoc append_Cons)
qed

lemma prio_best_correct:
  assumes "start < NPROC" "length ps = NPROC" "prio_best ps (scan_order start NPROC) = Some p"
  shows "runnable ps p \<and> (\<forall>r. runnable ps r \<longrightarrow> priority (ps ! p) \<le> priority (ps ! r)) \<and>
    (\<forall>r. runnable ps r \<and> priority (ps ! r) = priority (ps ! p) \<longrightarrow> distance start p \<le> distance start r)"
proof -
  let ?P = "\<lambda>p. state (ps ! p) = RUNNABLE" and ?xs = "scan_order start NPROC"
  have mem: "r \<in> set (filter ?P ?xs) \<longleftrightarrow> runnable ps r" for r
    using set_scan_order [OF assms(1)] assms(2) by (auto simp: runnable_def)
  obtain us vs where p: "p \<in> set (filter ?P ?xs)" "\<forall>y \<in> set (filter ?P ?xs). prio_of ps p \<le> prio_of ps y"
      "filter ?P ?xs = us @ p # vs" "\<forall>u \<in> set us. prio_of ps p < prio_of ps u"
    using first_min_Some [OF assms(3) [unfolded prio_best_def]] by blast
  obtain us' vs' where sp: "?xs = us' @ p # vs'" "vs = filter ?P vs'"
    using filter_split [OF p(3)] by blast
  note dist = scan_order_distance [OF assms(1) sp(1)]
  have "distance start p \<le> distance start r" if "runnable ps r" "priority (ps ! r) = priority (ps ! p)" for r
  proof -
    have "r \<in> set (us @ p # vs)" using that(1) mem [of r] unfolding p(3) by simp
    moreover have "r \<notin> set us" using p(4) that(2) by (auto simp: prio_of_def)
    ultimately have "r = p \<or> r \<in> set vs'" using sp(2) by auto
    then show ?thesis using dist by auto
  qed
  then show ?thesis using p(1,2) mem by (auto simp: prio_of_def)
qed

lemma prio_values:
  assumes "1 \<le> p" "p \<le> (6 :: u32)"
  shows "p \<in> {1, 2, 3, 4, 5, 6}"
proof -
  have "unat p \<in> {1, 2, 3, 4, 5, 6}" using assms by (auto simp: word_le_nat_alt)
  then have "of_nat (unat p) \<in> (of_nat ` {1, 2, 3, 4, 5, 6} :: u32 set)" by (rule imageI)
  then show ?thesis by simp
qed

lemma priority_quantum:
  assumes "1 \<le> p" "p \<le> (6 :: u32)"
  shows "p - 1 < 6 \<and> PRIORITY_Q ! unat (p - 1) = 2 ^ (unat p - 1)"
  using prio_values [OF assms] by (auto simp: PRIORITY_Q_def)

lemma sched_choose_prio:
  assumes "c < length (cpus s)" "schedAlg (cpus s ! c) = alg" "alg = 2 \<or> alg = 3"
    "start = rr_start (RRLastProc (cpus s ! c))" "start < NPROC"
    "prio_scan (procs s) start NPROC 0 None = Some p" "1 \<le> priority (procs s ! p)" "priority (procs s ! p) \<le> 6"
  shows "sched_choose c s = Done (Some (p, if alg = 3 then 2 ^ (unat (priority (procs s ! p)) - 1) else 1))
    (upd_cpu c (\<lambda>k. k\<lparr>RRLastProc := Some p\<rparr>) s)"
  using assms priority_quantum [OF assms(7,8)]
  by (auto simp: sched_choose_def upd_cpu_def)

text \<open>(C21) Under the priority policies 2 and 3 the scheduler chooses a runnable process whose priority
  value is smallest, and among several of that priority the first one after the process that ran
  last, so that they take turns. The time quantum under policy 3 doubles with every priority
  level.\<close>

theorem priority_choice:
  assumes "c < length (cpus s)" "schedAlg (cpus s ! c) = alg" "alg = 2 \<or> alg = 3" "length (procs s) = NPROC"
    "\<forall>x \<in> set (procs s). state x = RUNNABLE \<longrightarrow> 1 \<le> priority x \<and> priority x \<le> 6"
    "start = rr_start (RRLastProc (cpus s ! c))" "start < NPROC" "runnable (procs s) w"
  shows "\<exists>p q t. sched_choose c s = Done (Some (p, q)) t \<and> runnable (procs s) p \<and>
    (\<forall>r. runnable (procs s) r \<longrightarrow> priority (procs s ! p) \<le> priority (procs s ! r)) \<and>
    (\<forall>r. runnable (procs s) r \<and> priority (procs s ! r) = priority (procs s ! p) \<longrightarrow>
       distance start p \<le> distance start r) \<and>
    RRLastProc (cpus t ! c) = Some p \<and>
    q = (if alg = 3 then 2 ^ (unat (priority (procs s ! p)) - 1) else 1)"
proof -
  have nz: "\<forall>x \<in> set (procs s). state x = RUNNABLE \<longrightarrow> priority x \<noteq> 0" using assms(5) by fastforce
  have scan: "prio_scan (procs s) start NPROC 0 None = prio_best (procs s) (scan_order start NPROC)"
    using prio_scan_best [OF nz assms(4,7), of 0 None NPROC] by (simp split: option.splits)
  have "w \<in> set (filter (\<lambda>p. state (procs s ! p) = RUNNABLE) (scan_order start NPROC))"
    using assms(4,8) set_scan_order [OF assms(7)] by (simp add: runnable_def)
  then obtain p where p: "prio_best (procs s) (scan_order start NPROC) = Some p"
    by (metis empty_iff first_min_None list.set(1) not_None_eq prio_best_def)
  note best = prio_best_correct [OF assms(7,4) p]
  then have "1 \<le> priority (procs s ! p)" "priority (procs s ! p) \<le> 6"
    using assms(5) by (auto simp: runnable_def)
  note choice = sched_choose_prio [OF assms(1-3,6,7) _ this, unfolded scan, OF p]
  show ?thesis using choice best assms(1) by (intro exI conjI) auto
qed

theorem priority_choice_witness:
  "\<exists>p q t. sched_choose 0 (demo_sched 3 3) = Done (Some (p, q)) t \<and> runnable demo_procs p \<and>
    (\<forall>r. runnable demo_procs r \<longrightarrow> priority (demo_procs ! p) \<le> priority (demo_procs ! r)) \<and>
    (\<forall>r. runnable demo_procs r \<and> priority (demo_procs ! r) = priority (demo_procs ! p) \<longrightarrow>
       distance 4 p \<le> distance 4 r) \<and>
    RRLastProc (cpus t ! 0) = Some p \<and>
    q = (if (3 :: u32) = 3 then 2 ^ (unat (priority (demo_procs ! p)) - 1) else 1)"
  using priority_choice [of 0 "demo_sched 3 3" 3 4 5] demo_procs_prio
  by (simp add: rr_start_def runnable_def)

text \<open>(C22) When the process that ran last sits in the last slot, a CPU under policy 2 or 3 starts its
  scan one past the end of the process table.\<close>

theorem priority_scan_out_of_bounds:
  assumes "c < length (cpus s)" "schedAlg (cpus s ! c) = 2 \<or> schedAlg (cpus s ! c) = 3"
    "RRLastProc (cpus s ! c) = Some (NPROC - 1)"
  shows "sched_choose c s = Stuck ''out of bounds''"
  using assms by (auto simp: sched_choose_def rr_start_def)

theorem priority_scan_out_of_bounds_witness:
  "sched_choose 0 (demo_sched 2 (NPROC - 1)) = Stuck ''out of bounds''"
  by (rule priority_scan_out_of_bounds) simp_all


lemma pool_demo: "pool demo_procs = 45"
  by (simp add: pool_def demo_procs_def map_update sum_list_update sum_list_replicate share_def)


lemma fastrand_range: "run_ok (fastrand s) (\<lambda>r t. unat r < 32768 \<and> procs t = procs s)"
proof -
  have "unat (x AND 0x7FFF) < 32768" for x :: u32
  proof -
    have "x AND 0x7FFF = take_bit 15 x" by (simp add: take_bit_eq_mask mask_eq_exp_minus_1)
    then show ?thesis using take_bit_nat_less_exp [of 15 "unat x"] by (simp add: unsigned_take_bit_eq)
  qed
  then show ?thesis by (simp add: fastrand_def)
qed

lemma sched_choose_lottery:
  assumes "c < length (cpus s)" "schedAlg (cpus s ! c) = 4" "0 < sint (totalTicketCount s)"
  shows "\<exists>r t. unat r < 32768 \<and>
    sched_choose c s = Done (map_option (\<lambda>p. (p, 1)) (lottery_scan (procs s) (r mod totalTicketCount s))) t"
proof -
  let ?s = "upd_cpu c (\<lambda>k. k\<lparr>RRLastProc := Some (rr_start (RRLastProc k))\<rparr>) s"
  obtain r t where "fastrand ?s = Done r t" "unat r < 32768"
    using fastrand_range [of ?s] by (auto simp: run_ok_iff)
  then show ?thesis using assms by (intro exI [of _ r] exI [of _ t]) (simp add: sched_choose_def upd_cpu_def)
qed

lemma unat_mod_less: "0 < sint (n :: u32) \<Longrightarrow> unat (r mod n) < unat n \<and> unat (r mod n) \<le> unat r"
proof -
  assume "0 < sint n"
  then have "unat n \<noteq> 0" by (metis less_irrefl signed_0 unat_eq_0)
  then show ?thesis by (simp add: unat_mod_distrib)
qed

text \<open>(C24) Under the lottery policy a choice succeeds whenever there is a runnable process, if the
  tickets of the runnable processes are all the tickets in play: then every draw names a runnable
  winner.\<close>

theorem lottery_always_picks:
  assumes "c < length (cpus s)" "schedAlg (cpus s ! c) = 4" "unat (totalTicketCount s) = pool (procs s)"
    "0 < pool (procs s)" "pool (procs s) < 2 ^ 31"
  shows "\<exists>p t. sched_choose c s = Done (Some (p, 1)) t \<and> runnable (procs s) p"
proof -
  have pos: "0 < sint (totalTicketCount s)" using assms(3-5) sint_nonneg [of "totalTicketCount s"] by simp
  obtain r t where rt: "sched_choose c s =
      Done (map_option (\<lambda>p. (p, 1)) (lottery_scan (procs s) (r mod totalTicketCount s))) t"
    using sched_choose_lottery [OF assms(1,2) pos] by blast
  have "unat (r mod totalTicketCount s) < pool (procs s)" using unat_mod_less [OF pos] assms(3) by simp
  then obtain p where "lottery_scan (procs s) (r mod totalTicketCount s) = Some p"
    using lottery_scan_finds assms(5) by fastforce
  then show ?thesis using rt lottery_scan_runnable by auto
qed

theorem lottery_always_picks_witness:
  "\<exists>p t. sched_choose 0 (demo_sched 4 0) = Done (Some (p, 1)) t \<and> runnable demo_procs p"
  using lottery_always_picks [of 0 "demo_sched 4 0"] by (simp add: pool_demo)



end
