(* ===== verification/Calm.thy ===== *)
theory Calm
  imports File Tickets
begin

text \<open>
  Runs that are not interrupted. In a \<open>calm\<close> state one process executes kernel code, every spin
  lock is free and nobody sleeps on a channel of the file system. There a critical section of a
  spin lock has a closed form: taking the lock, changing other parts of the state and releasing it
  changes those parts only. The sleep locks are then equations on their table.
\<close>

section \<open>Calm states\<close>

definition fs_chan :: "chan \<Rightarrow> bool" where
  "fs_chan ch \<longleftrightarrow> ch = ChanLog \<or> (\<exists>b. ch = ChanBufLock b \<or> ch = ChanInodeLock b)"

definition nobody_waits :: "(chan \<Rightarrow> bool) \<Rightarrow> proc list \<Rightarrow> bool" where
  "nobody_waits C ps \<longleftrightarrow> (\<forall>x \<in> set ps. \<forall>ch. state x = SLEEPING \<longrightarrow> chan x = Some ch \<longrightarrow> \<not> C ch)"

text \<open>The executing CPU, the process it executes, and the state with a lock taken.\<close>

definition mine :: "'z kstate_scheme \<Rightarrow> nat" where
  "mine s = the (this_cpu s)"

definition me :: "'z kstate_scheme \<Rightarrow> nat" where
  "me s = the (cproc (cpus s ! mine s))"

definition mypid :: "'z kstate_scheme \<Rightarrow> u32" where
  "mypid s = pid (procs s ! me s)"

definition grab :: "lock_id \<Rightarrow> 'z kstate_scheme \<Rightarrow> 'z kstate_scheme" where
  "grab l s = grabbed l (mine s) s"

definition calm :: "'z lstate_scheme \<Rightarrow> bool" where
  "calm s \<longleftrightarrow> cpu_ok s (mine s) \<and> touched (mine s) s = s \<and> (\<forall>l. lock_free s l) \<and>
     cproc (cpus s ! mine s) = Some (me s) \<and> length (procs s) = NPROC \<and> me s < NPROC \<and>
     nobody_waits fs_chan (procs s) \<and> 0 < wait_rounds s"

named_theorems calm_simps \<open>critical sections of calm states\<close>

lemmas lock_frame_defs = grab_def grabbed_def pushed_def upd_lock_def upd_cpu_def readeflags_IF_def

lemma grab_reads [simp]:
  "ram (grab l s_ram) = ram s_ram"
  "slocks (grab l s_slocks) = slocks s_slocks"
  "bufs (grab l s_bufs) = bufs s_bufs"
  "disk (grab l s_disk) = disk s_disk"
  "disk_writes (grab l s_disk_writes) = disk_writes s_disk_writes"
  "klog (grab l s_klog) = klog s_klog"
  "icache (grab l s_icache) = icache s_icache"
  "inp_buf (grab l s_inp_buf) = inp_buf s_inp_buf"
  "inp_r (grab l s_inp_r) = inp_r s_inp_r"
  "inp_w (grab l s_inp_w) = inp_w s_inp_w"
  "inp_e (grab l s_inp_e) = inp_e s_inp_e"
  "ftable (grab l s_ftable) = ftable s_ftable"
  "pipes (grab l s_pipes) = pipes s_pipes"
  "wait_rounds (grab l s_wait_rounds) = wait_rounds s_wait_rounds"
  "memfs (grab l s_memfs) = memfs s_memfs"
  "disksize (grab l s_disksize) = disksize s_disksize"
  "sb (grab l s_sb) = sb s_sb"
  "devsw_tab (grab l s_devsw_tab) = devsw_tab s_devsw_tab"
  "procs (grab l s_procs) = procs s_procs"
  "ticks (grab l s_ticks) = ticks s_ticks"
  "nextpid (grab l s_nextpid) = nextpid s_nextpid"
  "totalTicketCount (grab l s_totalTicketCount) = totalTicketCount s_totalTicketCount"
  "initproc (grab l s_initproc) = initproc s_initproc"
  "freelist (grab l s_freelist) = freelist s_freelist"
  "use_lock (grab l s_use_lock) = use_lock s_use_lock"
  "kend (grab l s_kend) = kend s_kend"
  "kdata (grab l s_kdata) = kdata s_kdata"
  "kpgdir (grab l s_kpgdir) = kpgdir s_kpgdir"
  "g_seed (grab l s_g_seed) = g_seed s_g_seed"
  "uart (grab l s_uart) = uart s_uart"
  "cons_locking (grab l s_cons_locking) = cons_locking s_cons_locking"
  "panicked (grab l s_panicked) = panicked s_panicked"
  "idequeue (grab l s_idequeue) = idequeue s_idequeue"
  "havedisk1 (grab l s_havedisk1) = havedisk1 s_havedisk1"
  by (simp_all add: lock_frame_defs)

lemma mine_writes [simp]:
  "mine (s_ram\<lparr>ram := v_ram\<rparr>) = mine s_ram"
  "mine (s_slocks\<lparr>slocks := v_slocks\<rparr>) = mine s_slocks"
  "mine (s_bufs\<lparr>bufs := v_bufs\<rparr>) = mine s_bufs"
  "mine (s_disk\<lparr>disk := v_disk\<rparr>) = mine s_disk"
  "mine (s_disk_writes\<lparr>disk_writes := v_disk_writes\<rparr>) = mine s_disk_writes"
  "mine (s_klog\<lparr>klog := v_klog\<rparr>) = mine s_klog"
  "mine (s_icache\<lparr>icache := v_icache\<rparr>) = mine s_icache"
  "mine (s_inp_buf\<lparr>inp_buf := v_inp_buf\<rparr>) = mine s_inp_buf"
  "mine (s_inp_r\<lparr>inp_r := v_inp_r\<rparr>) = mine s_inp_r"
  "mine (s_inp_w\<lparr>inp_w := v_inp_w\<rparr>) = mine s_inp_w"
  "mine (s_inp_e\<lparr>inp_e := v_inp_e\<rparr>) = mine s_inp_e"
  "mine (s_ftable\<lparr>ftable := v_ftable\<rparr>) = mine s_ftable"
  "mine (s_pipes\<lparr>pipes := v_pipes\<rparr>) = mine s_pipes"
  by (simp_all add: mine_def this_cpu_def lapicid_def)

lemma me_writes [simp]:
  "me (s_ram\<lparr>ram := v_ram\<rparr>) = me s_ram"
  "me (s_slocks\<lparr>slocks := v_slocks\<rparr>) = me s_slocks"
  "me (s_bufs\<lparr>bufs := v_bufs\<rparr>) = me s_bufs"
  "me (s_disk\<lparr>disk := v_disk\<rparr>) = me s_disk"
  "me (s_disk_writes\<lparr>disk_writes := v_disk_writes\<rparr>) = me s_disk_writes"
  "me (s_klog\<lparr>klog := v_klog\<rparr>) = me s_klog"
  "me (s_icache\<lparr>icache := v_icache\<rparr>) = me s_icache"
  "me (s_inp_buf\<lparr>inp_buf := v_inp_buf\<rparr>) = me s_inp_buf"
  "me (s_inp_r\<lparr>inp_r := v_inp_r\<rparr>) = me s_inp_r"
  "me (s_inp_w\<lparr>inp_w := v_inp_w\<rparr>) = me s_inp_w"
  "me (s_inp_e\<lparr>inp_e := v_inp_e\<rparr>) = me s_inp_e"
  "me (s_ftable\<lparr>ftable := v_ftable\<rparr>) = me s_ftable"
  "me (s_pipes\<lparr>pipes := v_pipes\<rparr>) = me s_pipes"
  by (simp_all add: me_def)

lemma mypid_writes [simp]:
  "mypid (s_ram\<lparr>ram := v_ram\<rparr>) = mypid s_ram"
  "mypid (s_slocks\<lparr>slocks := v_slocks\<rparr>) = mypid s_slocks"
  "mypid (s_bufs\<lparr>bufs := v_bufs\<rparr>) = mypid s_bufs"
  "mypid (s_disk\<lparr>disk := v_disk\<rparr>) = mypid s_disk"
  "mypid (s_disk_writes\<lparr>disk_writes := v_disk_writes\<rparr>) = mypid s_disk_writes"
  "mypid (s_klog\<lparr>klog := v_klog\<rparr>) = mypid s_klog"
  "mypid (s_icache\<lparr>icache := v_icache\<rparr>) = mypid s_icache"
  "mypid (s_inp_buf\<lparr>inp_buf := v_inp_buf\<rparr>) = mypid s_inp_buf"
  "mypid (s_inp_r\<lparr>inp_r := v_inp_r\<rparr>) = mypid s_inp_r"
  "mypid (s_inp_w\<lparr>inp_w := v_inp_w\<rparr>) = mypid s_inp_w"
  "mypid (s_inp_e\<lparr>inp_e := v_inp_e\<rparr>) = mypid s_inp_e"
  "mypid (s_ftable\<lparr>ftable := v_ftable\<rparr>) = mypid s_ftable"
  "mypid (s_pipes\<lparr>pipes := v_pipes\<rparr>) = mypid s_pipes"
  by (simp_all add: mypid_def)

lemma grab_writes [simp]:
  "(grab l s_ram)\<lparr>ram := v_ram\<rparr> = grab l (s_ram\<lparr>ram := v_ram\<rparr>)"
  "(grab l s_slocks)\<lparr>slocks := v_slocks\<rparr> = grab l (s_slocks\<lparr>slocks := v_slocks\<rparr>)"
  "(grab l s_bufs)\<lparr>bufs := v_bufs\<rparr> = grab l (s_bufs\<lparr>bufs := v_bufs\<rparr>)"
  "(grab l s_disk)\<lparr>disk := v_disk\<rparr> = grab l (s_disk\<lparr>disk := v_disk\<rparr>)"
  "(grab l s_disk_writes)\<lparr>disk_writes := v_disk_writes\<rparr> = grab l (s_disk_writes\<lparr>disk_writes := v_disk_writes\<rparr>)"
  "(grab l s_klog)\<lparr>klog := v_klog\<rparr> = grab l (s_klog\<lparr>klog := v_klog\<rparr>)"
  "(grab l s_icache)\<lparr>icache := v_icache\<rparr> = grab l (s_icache\<lparr>icache := v_icache\<rparr>)"
  "(grab l s_inp_buf)\<lparr>inp_buf := v_inp_buf\<rparr> = grab l (s_inp_buf\<lparr>inp_buf := v_inp_buf\<rparr>)"
  "(grab l s_inp_r)\<lparr>inp_r := v_inp_r\<rparr> = grab l (s_inp_r\<lparr>inp_r := v_inp_r\<rparr>)"
  "(grab l s_inp_w)\<lparr>inp_w := v_inp_w\<rparr> = grab l (s_inp_w\<lparr>inp_w := v_inp_w\<rparr>)"
  "(grab l s_inp_e)\<lparr>inp_e := v_inp_e\<rparr> = grab l (s_inp_e\<lparr>inp_e := v_inp_e\<rparr>)"
  "(grab l s_ftable)\<lparr>ftable := v_ftable\<rparr> = grab l (s_ftable\<lparr>ftable := v_ftable\<rparr>)"
  "(grab l s_pipes)\<lparr>pipes := v_pipes\<rparr> = grab l (s_pipes\<lparr>pipes := v_pipes\<rparr>)"
  by (simp_all add: lock_frame_defs)

text \<open>Updates of different fields are kept in the order of the fields.\<close>

lemma field_order_b [simp]:
  "s\<lparr>bufs := b_bufs, slocks := a_slocks\<rparr> = s\<lparr>slocks := a_slocks, bufs := b_bufs\<rparr>"
  "s\<lparr>disk := b_disk, slocks := a_slocks\<rparr> = s\<lparr>slocks := a_slocks, disk := b_disk\<rparr>"
  "s\<lparr>disk := b_disk, bufs := a_bufs\<rparr> = s\<lparr>bufs := a_bufs, disk := b_disk\<rparr>"
  "s\<lparr>disk_writes := b_disk_writes, slocks := a_slocks\<rparr> = s\<lparr>slocks := a_slocks, disk_writes := b_disk_writes\<rparr>"
  "s\<lparr>disk_writes := b_disk_writes, bufs := a_bufs\<rparr> = s\<lparr>bufs := a_bufs, disk_writes := b_disk_writes\<rparr>"
  "s\<lparr>disk_writes := b_disk_writes, disk := a_disk\<rparr> = s\<lparr>disk := a_disk, disk_writes := b_disk_writes\<rparr>"
  by (cases s, simp)+

lemma field_order_g [simp]:
  "s\<lparr>klog := b_klog, slocks := a_slocks\<rparr> = s\<lparr>slocks := a_slocks, klog := b_klog\<rparr>"
  "s\<lparr>klog := b_klog, bufs := a_bufs\<rparr> = s\<lparr>bufs := a_bufs, klog := b_klog\<rparr>"
  "s\<lparr>klog := b_klog, disk := a_disk\<rparr> = s\<lparr>disk := a_disk, klog := b_klog\<rparr>"
  "s\<lparr>klog := b_klog, disk_writes := a_disk_writes\<rparr> = s\<lparr>disk_writes := a_disk_writes, klog := b_klog\<rparr>"
  by (cases s, simp)+

lemma field_order_i [simp]:
  "s\<lparr>icache := b_icache, slocks := a_slocks\<rparr> = s\<lparr>slocks := a_slocks, icache := b_icache\<rparr>"
  "s\<lparr>icache := b_icache, bufs := a_bufs\<rparr> = s\<lparr>bufs := a_bufs, icache := b_icache\<rparr>"
  "s\<lparr>icache := b_icache, disk := a_disk\<rparr> = s\<lparr>disk := a_disk, icache := b_icache\<rparr>"
  "s\<lparr>icache := b_icache, disk_writes := a_disk_writes\<rparr> = s\<lparr>disk_writes := a_disk_writes, icache := b_icache\<rparr>"
  "s\<lparr>icache := b_icache, klog := a_klog\<rparr> = s\<lparr>klog := a_klog, icache := b_icache\<rparr>"
  by (cases s, simp)+

lemma field_order_buf [simp]:
  "x\<lparr>bdev := b_bdev, bflags := a_bflags\<rparr> = x\<lparr>bflags := a_bflags, bdev := b_bdev\<rparr>"
  "x\<lparr>blockno := b_blockno, bflags := a_bflags\<rparr> = x\<lparr>bflags := a_bflags, blockno := b_blockno\<rparr>"
  "x\<lparr>blockno := b_blockno, bdev := a_bdev\<rparr> = x\<lparr>bdev := a_bdev, blockno := b_blockno\<rparr>"
  "x\<lparr>refcnt := b_refcnt, bflags := a_bflags\<rparr> = x\<lparr>bflags := a_bflags, refcnt := b_refcnt\<rparr>"
  "x\<lparr>refcnt := b_refcnt, bdev := a_bdev\<rparr> = x\<lparr>bdev := a_bdev, refcnt := b_refcnt\<rparr>"
  "x\<lparr>refcnt := b_refcnt, blockno := a_blockno\<rparr> = x\<lparr>blockno := a_blockno, refcnt := b_refcnt\<rparr>"
  "x\<lparr>bdata := b_bdata, bflags := a_bflags\<rparr> = x\<lparr>bflags := a_bflags, bdata := b_bdata\<rparr>"
  "x\<lparr>bdata := b_bdata, bdev := a_bdev\<rparr> = x\<lparr>bdev := a_bdev, bdata := b_bdata\<rparr>"
  "x\<lparr>bdata := b_bdata, blockno := a_blockno\<rparr> = x\<lparr>blockno := a_blockno, bdata := b_bdata\<rparr>"
  "x\<lparr>bdata := b_bdata, refcnt := a_refcnt\<rparr> = x\<lparr>refcnt := a_refcnt, bdata := b_bdata\<rparr>"
  for x :: "'z buf_scheme"
  by (cases x, simp)+

lemma touched_iff: "touched c s = s \<longleftrightarrow> (ncli (cpus s ! c) = 0 \<longrightarrow> (cpus s)[c := (cpus s ! c)\<lparr>intena := readeflags_IF s\<rparr>] = cpus s)"
proof -
  have "s\<lparr>cpus := x\<rparr> = s \<longleftrightarrow> x = cpus s" for x by (cases s) auto
  then show ?thesis by (simp add: touched_def upd_cpu_def)
qed

lemma calm_writes [simp]:
  "calm (s_ram\<lparr>ram := v_ram\<rparr>) = calm s_ram"
  "calm (s_slocks\<lparr>slocks := v_slocks\<rparr>) = calm s_slocks"
  "calm (s_bufs\<lparr>bufs := v_bufs\<rparr>) = calm s_bufs"
  "calm (s_disk\<lparr>disk := v_disk\<rparr>) = calm s_disk"
  "calm (s_disk_writes\<lparr>disk_writes := v_disk_writes\<rparr>) = calm s_disk_writes"
  "calm (s_klog\<lparr>klog := v_klog\<rparr>) = calm s_klog"
  "calm (s_icache\<lparr>icache := v_icache\<rparr>) = calm s_icache"
  "calm (s_inp_buf\<lparr>inp_buf := v_inp_buf\<rparr>) = calm s_inp_buf"
  "calm (s_inp_r\<lparr>inp_r := v_inp_r\<rparr>) = calm s_inp_r"
  "calm (s_inp_w\<lparr>inp_w := v_inp_w\<rparr>) = calm s_inp_w"
  "calm (s_inp_e\<lparr>inp_e := v_inp_e\<rparr>) = calm s_inp_e"
  "calm (s_ftable\<lparr>ftable := v_ftable\<rparr>) = calm s_ftable"
  "calm (s_pipes\<lparr>pipes := v_pipes\<rparr>) = calm s_pipes"
  by (simp_all add: calm_def touched_iff readeflags_IF_def cpu_ok_def this_cpu_def lapicid_def lock_free_def)


lemma calmD:
  assumes "calm s"
  shows "cpu_ok s (mine s)" "touched (mine s) s = s" "lock_free s l" "cproc (cpus s ! mine s) = Some (me s)"
    "0 < wait_rounds s" "length (procs s) = NPROC" "me s < NPROC" "nobody_waits fs_chan (procs s)"
  using assms by (simp_all add: calm_def)

lemma this_cpu_grab [simp]: "this_cpu (grab l s) = this_cpu s"
  by (simp add: grab_def grabbed_def)

lemma mine_grab [simp]: "mine (grab l s) = mine s"
  by (simp add: mine_def)

lemma cproc_grabbed: "cproc (cpus (grabbed l c s) ! d) = cproc (cpus s ! d)"
  by (cases "c < length (cpus s)"; cases "d = c") (simp_all add: cpus_grabbed nest_def list_update_beyond)

lemma me_grab [simp]: "me (grab l s) = me s"
  by (simp add: me_def cproc_grabbed) (simp add: grab_def cproc_grabbed)

lemma mypid_grab [simp]: "mypid (grab l s) = mypid s"
  by (simp add: mypid_def)

lemma calm_acquire [calm_simps]: "calm s \<Longrightarrow> acquire l s = Done () (grab l s)"
  unfolding grab_def by (rule acquire_lock_free) (simp_all add: calmD)

lemma calm_release [calm_simps]: "calm s \<Longrightarrow> release l (grab l s) = Done () s"
  using calmD [of s] by (simp add: grab_def release_grabbed dropped_grabbed_free)

lemma lock_free_grab [simp]: "m \<noteq> l \<Longrightarrow> lock_free (grab l s) m = lock_free s m"
  by (simp add: lock_free_def lock_frame_defs)

lemma grab2: "grab m (grab l s) = grabbed m (mine s) (grab l s)"
  by (simp add: grab_def [of m])

lemma calm_grab:
  assumes "calm s"
  shows "cpu_ok (grab l s) (mine s)" "1 \<le> ncli (cpus (grab l s) ! mine s)"
  using cpu_ok_grabbed [OF calmD(1) [OF assms]] ncli_grabbed [OF calmD(1) [OF assms]] by (simp_all add: grab_def)

lemma calm_acquire2 [calm_simps]:
  "calm s \<Longrightarrow> m \<noteq> l \<Longrightarrow> acquire m (grab l s) = Done () (grab m (grab l s))"
  unfolding grab2 by (rule acquire_lock_free) (simp_all add: calmD calm_grab)

lemma calm_release2 [calm_simps]:
  "calm s \<Longrightarrow> m \<noteq> l \<Longrightarrow> release m (grab m (grab l s)) = Done () (grab l s)"
  using calm_grab [of s l] by (simp add: grab2 release_grabbed dropped_grabbed_free calmD)

lemma calm_curproc [calm_simps]: "calm s \<Longrightarrow> curproc s = Done (me s) s"
  using calmD [of s] by (simp add: curproc_def myproc_eq)

lemma calm_curproc_grab [calm_simps]:
  assumes "calm s"
  shows "curproc (grab l s) = Done (me s) (grab l s)"
proof -
  have "cproc (cpus (grab l s) ! mine s) = Some (me s)" using calmD [OF assms] by (simp add: grab_def cproc_grabbed)
  then show ?thesis using calm_grab [OF assms, of l] by (simp add: curproc_def myproc_eq [of "grab l s" "mine s"])
qed

lemma wakeup1_none:
  assumes "nobody_waits C (procs s)" "C ch" "length (procs s) = NPROC"
  shows "wakeup1 ch s = Done () s"
proof -
  have "for_each xs (\<lambda>p. modify (\<lambda>s. if state (procs s ! p) = SLEEPING \<and> chan (procs s ! p) = Some ch
      then make_runnable p s else s)) s = Done () s" if "set xs \<subseteq> {..<NPROC}" for xs
    using that assms by (induction xs) (auto simp: nobody_waits_def dest!: nth_mem)
  from this [of "[0..<NPROC]"] show ?thesis by (simp add: wakeup1_def atLeast0LessThan)
qed

lemma calm_wakeup_grab [calm_simps]:
  assumes "calm s" "fs_chan ch" "l \<noteq> PtableLock"
  shows "wakeup ch (grab l s) = Done () (grab l s)"
proof -
  have "wakeup1 ch (grab PtableLock (grab l s)) = Done () (grab PtableLock (grab l s))"
    using calmD [OF assms(1)] assms(2) by (intro wakeup1_none [of fs_chan]) simp_all
  then show ?thesis using assms by (simp add: wakeup_def calm_simps)
qed

section \<open>Sleep locks\<close>

definition taken :: "u32 \<Rightarrow> sleeplock \<Rightarrow> sleeplock" where
  "taken k x = x\<lparr>sl_locked := True, sl_pid := k\<rparr>"

definition untaken :: "sleeplock \<Rightarrow> sleeplock" where
  "untaken x = x\<lparr>sl_locked := False, sl_pid := 0\<rparr>"

lemma sl_id [simp]: "sl_lk k \<noteq> PtableLock" "fs_chan (sl_chan k)"
  by (cases k; simp add: fs_chan_def)+

lemma calm_holdingsleep [calm_simps]:
  "calm s \<Longrightarrow> holdingsleep k s = Done (sl_locked (slocks s k) \<and> sl_pid (slocks s k) = mypid s) s"
  by (simp add: holdingsleep_def calm_simps mypid_def)

lemma calm_acquiresleep [calm_simps]:
  assumes "calm s" "\<not> sl_locked (slocks s k)"
  shows "acquiresleep k s = Done () (s\<lparr>slocks := (slocks s)(k := taken (mypid s) (slocks s k))\<rparr>)"
proof -
  obtain n where n: "wait_rounds s = Suc n" using calmD(5) [OF assms(1)] by (cases "wait_rounds s") auto
  show ?thesis
    using assms by (simp add: acquiresleep_def wait_loop_def n upd_sl_def taken_def calm_simps mypid_def)
qed

lemma calm_releasesleep [calm_simps]:
  "calm s \<Longrightarrow> releasesleep k s = Done () (s\<lparr>slocks := (slocks s)(k := untaken (slocks s k))\<rparr>)"
  by (simp add: releasesleep_def upd_sl_def untaken_def calm_simps)

end
