(* ===== verification/Demo.thy ===== *)
theory Demo
  imports Boot Sched Calm
begin

text \<open>
  A small running system for the witnesses: the first CPU executes the process in slot 3 with
  interrupts on and every lock free, the buffer cache is as \<^verbatim>\<open>binit\<close> leaves it except that
  one buffer holds a changed block, and the log lists that block.
\<close>

definition demo_table :: "proc list" where
  "demo_table = demo_procs[3 := (demo_proc 4 2 10)\<lparr>state := RUNNING, pgdir := 0x80210000, kstack := 0x80211000, sz := 0x3000\<rparr>]"

definition demo_bufs :: "buf list" where
  "demo_bufs = (map (\<lambda>i. \<lparr>bflags = 0, bdev = 0, blockno = 0, refcnt = 0, bprev = (if i = 30 then 0 else i + 1),
     bnext = (if i = 0 then 30 else i - 1), qnext = None, bdata = (\<lambda>_. 0)\<rparr>) [0..<31])
     [0 := \<lparr>bflags = 6, bdev = 1, blockno = 40, refcnt = 0, bprev = 1, bnext = 30, qnext = None, bdata = (\<lambda>_. 7)\<rparr>]"

definition demo_log :: log where
  "demo_log = \<lparr>lg_start = 2, lg_size = 30, lg_outstanding = 0, lg_committing = False, lg_dev = 1,
     lg_lh = \<lparr>lh_n = 1, lh_block = 40 # replicate 29 0\<rparr>\<rparr>"

definition demo_inode :: inode where
  "demo_inode = \<lparr>i_dev = 0, i_inum = 0, i_ref = 0, i_valid = False,
     i_di = \<lparr>di_type = 0, di_major = 0, di_minor = 0, di_nlink = 0, di_size = 0, di_addrs = replicate 13 0\<rparr>\<rparr>"

definition demo_file :: kfile where
  "demo_file = \<lparr>f_type = FD_NONE, f_ref = 0, f_readable = False, f_writable = False, f_pipe = 0, f_ip = 0, f_off = 0\<rparr>"

definition demo_lstate :: lstate where
  "demo_lstate = mstate.extend (demo_mstate\<lparr>cpus := [(demo_cpu 0)\<lparr>intena := True, cproc := Some 3\<rparr>, demo_cpu 4],
     procs := demo_table, totalTicketCount := 45\<rparr>)
     (lstate.fields (\<lambda>_. \<lparr>sl_locked = False, sl_name = [], sl_pid = 0\<rparr>) 1)"

definition demo_gstate :: gstate where
  "demo_gstate = bstate.extend (lstate.extend demo_lstate
     (bstate.fields demo_bufs True (\<lambda>_ _. 0) 1000 [] None False (\<lambda>_. 0) 0 [])) (gstate.fields demo_log)"

definition demo_fstate :: fstate where
  "demo_fstate = cstate.extend (istate.extend (gstate.extend demo_gstate
     (istate.fields \<lparr>sb_size = 1000, sb_nblocks = 941, sb_ninodes = 200, sb_nlog = 30, sb_logstart = 2,
        sb_inodestart = 32, sb_bmapstart = 58\<rparr> (replicate 50 demo_inode) (\<lambda>_. NoDevice)))
     (cstate.fields (\<lambda>_. 0) 0 0 0)) (fstate.fields (replicate 100 demo_file)
        (\<lambda>_. \<lparr>p_data = (\<lambda>_. 0), p_nread = 0, p_nwrite = 0, p_readopen = True, p_writeopen = True\<rparr>))"

definition demo_kernel :: tstate where
  "demo_kernel = fstate.extend demo_fstate (tstate.fields (\<lambda>_. SETGATE False 0 0 0) (\<lambda>_. True) (\<lambda>_. 0))"

lemmas demo_defs = demo_kernel_def demo_fstate_def demo_gstate_def demo_lstate_def demo_mstate_def demo_dstate_def
  demo_state_def demo_cpu_def
  kstate.defs dstate.defs mstate.defs lstate.defs bstate.defs gstate.defs istate.defs cstate.defs fstate.defs tstate.defs

lemma demo_fields [simp]:
  "bufs demo_gstate = demo_bufs" "klog demo_gstate = demo_log" "disksize demo_gstate = 1000" "memfs demo_gstate"
  "disk demo_gstate = (\<lambda>_ _. 0)" "slocks demo_gstate = (\<lambda>_. \<lparr>sl_locked = False, sl_name = [], sl_pid = 0\<rparr>)"
  "procs demo_gstate = demo_table" "disk_writes demo_gstate = []"
  by (simp_all add: demo_defs)

lemma length_demo_table [simp]: "length demo_table = 64"
  by (simp add: demo_table_def)

lemma demo_waits: "nobody_waits fs_chan demo_table"
  using set_demo_procs unfolding nobody_waits_def demo_table_def
  by (auto dest!: subsetD [OF set_update_subset_insert] subsetD [OF set_demo_procs] simp: demo_proc_def blank_proc_def)

lemma calm_demo_like:
  assumes "cpus s = [(demo_cpu 0)\<lparr>intena := True, cproc := Some 3\<rparr>, demo_cpu 4]" "procs s = demo_table" "wait_rounds s = 1"
    "this_cpu s = Some 0" "\<And>l. lock_free s l" "readeflags_IF s"
  shows "calm s"
proof -
  have "mine s = 0" using assms(4) by (simp add: mine_def)
  then show ?thesis using assms demo_waits by (simp add: calm_def cpu_ok_def me_def touched_iff demo_cpu_def)
qed

lemma demo_calm: "calm demo_gstate" "calm demo_fstate"
  by (rule calm_demo_like; simp add: demo_defs lock_free_def readeflags_IF_def this_cpu_def lapicid_def)+

end
