(* ===== verification/Kernel.thy ===== *)
theory Kernel
  imports Calls Demo
begin

text \<open>
  Ticket accounting over the whole kernel: every trap of a running process and the scheduler keep
  \<^verbatim>\<open>totalTicketCount\<close> equal to the tickets of the runnable and running processes, and
  what each side relies on when it is switched to is what the other side guarantees.
\<close>

section \<open>The scheduler\<close>

lemma prio_scan_runnable:
  assumes "length ps = NPROC" "p < NPROC" "\<forall>q. minP = Some q \<longrightarrow> runnable ps q" "prio_scan ps p k minPP minP = Some q"
  shows "runnable ps q"
  using assms(2-) 
proof (induction k arbitrary: p minPP minP)
  case (Suc k)
  let ?n = "if NPROC \<le> p + 1 then 0 else p + 1"
  have n: "?n < NPROC" by simp
  show ?case
  proof (cases "state (ps ! p) = RUNNABLE")
    case True
    then have "runnable ps p" using Suc.prems(1) assms(1) by (simp add: runnable_def)
    with True Suc.prems Suc.IH [OF n] show ?thesis
      by (auto simp: Let_def split: if_splits)
  next
    case False
    with Suc.prems Suc.IH [OF n] show ?thesis by (simp add: Let_def)
  qed
qed simp

lemma quiet_sched_choose: "quiet (sched_choose c)"
  unfolding sched_choose_def fastrand_def Let_def
  by (intro quiet_rules pview_upd_cpu; simp add: pview_def)

text \<open>What the scheduler relies on when a process switches back to it.\<close>

abbreviation on_cpu :: "nat \<Rightarrow> 'z kstate_scheme \<Rightarrow> bool" where
  "on_cpu c t \<equiv> tickets_ok t \<and> this_cpu t = Some c"

definition returned :: "nat \<Rightarrow> 'z kstate_scheme \<Rightarrow> 'z kstate_scheme \<Rightarrow> bool" where
  "returned c t u \<longleftrightarrow> on_cpu c u"

text \<open>What it guarantees when it switches to one.\<close>

definition handed :: "'z kstate_scheme \<Rightarrow> bool" where
  "handed t \<longleftrightarrow> tickets_ok t \<and> (\<exists>q. running t q)"

lemma post_gets_bnd: "post G R (f (g s) s) Q \<Longrightarrow> post G R (bnd (gets g) f s) Q"
  by simp

lemma this_cpu_upd_cpu: "(\<And>k. apicid (f k) = apicid k) \<Longrightarrow> this_cpu (upd_cpu c f s) = this_cpu s"
  by (rule this_cpu_frame) (simp_all add: upd_cpu_def map_upd_same)

lemma tickets_upd_cpu [simp]: "tickets_ok (upd_cpu c f s) = tickets_ok s"
  by (simp add: tickets_ok_def upd_cpu_def)

lemma switch_back_post:
  fixes u :: "'z mstate_scheme"
  assumes "tickets_ok u" "this_cpu u = Some c"
  shows "post G R (seq switchkvm (modify (upd_cpu c (\<lambda>k. k\<lparr>cproc := None\<rparr>))) u)
        (\<lambda>_ t. tickets_ok t \<and> this_cpu t = Some c)"
proof (rule post_quiet_seq, intro quiet_rules)
  fix t :: "'z mstate_scheme"
  assume t: "pview t = pview u"
  show "post G R (modify (upd_cpu c (\<lambda>k. k\<lparr>cproc := None\<rparr>)) t) (\<lambda>_ t. tickets_ok t \<and> this_cpu t = Some c)"
    using assms pview_inv(1) [OF t] pview_procs(3) [OF t] by (simp add: this_cpu_upd_cpu)
qed

lemma sched_run_post:
  fixes s :: "'z mstate_scheme"
  assumes "tickets_ok s" "this_cpu s = Some c" "runnable (procs s) p"
  shows "post handed (returned c) (sched_run c p tq s) (\<lambda>_ t. tickets_ok t \<and> this_cpu t = Some c)"
proof -
  define s1 where "s1 = upd_cpu c (\<lambda>k. k\<lparr>ctr := tq, cproc := Some p\<rparr>) s"
  define s2 where "s2 = upd_proc p (\<lambda>x. x\<lparr>totalWaitTime := totalWaitTime x + (ticks s1 - lastChangeTime x),
            lastChangeTime := ticks s1\<rparr>) s1"
  have "this_cpu s1 = Some c" using assms(2) unfolding s1_def by (subst this_cpu_upd_cpu) simp_all
  moreover have c: "c < length (cpus s)" using assms(2) by (rule this_cpu_bound)
  ultimately have "cur s1 = Some p" by (simp add: cur_def s1_def upd_cpu_def)
  then have cur: "cur s2 = Some p" by (simp add: s2_def)
  have len: "length (procs s) = NPROC" using assms(1) by (simp add: tickets_ok_def)
  have ok: "tickets_ok s2" unfolding s2_def using assms(1) by (intro tickets_upd_same) (simp_all add: s1_def weight_def)
  have run: "state (procs s2 ! p) = RUNNABLE" "p < NPROC"
    using assms(3) len by (simp_all add: s2_def s1_def upd_proc_def upd_cpu_def runnable_def)
  have tc: "this_cpu s2 = Some c" using \<open>this_cpu s1 = Some c\<close> by (simp add: s2_def)
  let ?go = "upd_proc p (\<lambda>x. x\<lparr>state := RUNNING\<rparr>)"
  have main: "post handed (returned c) (seq switch (seq switchkvm (modify (upd_cpu c (\<lambda>k. k\<lparr>cproc := None\<rparr>)))) (?go t))
      (\<lambda>_ t. tickets_ok t \<and> this_cpu t = Some c)" if "pview t = pview s2" for t :: "'z mstate_scheme"
  proof (rule post_switch_seq)
    have t: "tickets_ok t" "cur t = Some p" "procs t = procs s2" "this_cpu t = Some c"
      using that ok cur tc pview_inv [OF that] pview_cur [OF that] pview_procs [OF that] by simp_all
    then have "tickets_ok (?go t)"
      using run by (intro tickets_upd_same) (simp_all add: weight_def counted_def)
    moreover have "running (?go t) p"
      using t run by (simp add: running_def) (simp add: upd_proc_def tickets_ok_def)
    ultimately show "handed (?go t)" by (auto simp: handed_def)
    fix u assume "returned c (?go t) u"
    then have u: "tickets_ok u" "this_cpu u = Some c" using t by (simp_all add: returned_def)
    then show "post handed (returned c) (seq switchkvm (modify (upd_cpu c (\<lambda>k. k\<lparr>cproc := None\<rparr>))) u)
        (\<lambda>_ t. tickets_ok t \<and> this_cpu t = Some c)"
      by (rule switch_back_post)
  qed
  show ?thesis
    unfolding sched_run_def
    apply (rule post_modify_seq, rule post_modify_seq)
    apply (rule post_quiet_seq, intro quiet_rules, rule post_modify_seq)
    by (rule main) (simp add: s2_def s1_def)
qed

lemma sched_choose_runnable:
  assumes "length (procs s) = NPROC"
  shows "post G R (sched_choose c s) (\<lambda>r t. \<forall>p q. r = Some (p, q) \<longrightarrow> runnable (procs s) p)"
proof -
  have prio: "runnable (procs s) p" if "start < NPROC" "prio_scan (procs s) start NPROC 0 None = Some p" for p start
    using prio_scan_runnable [OF assms that(1) _ that(2)] by simp
  have rr: "runnable (procs s) p" if "rr_scan (procs s) start = Some p" for p start
    using that rr_scan_Some [OF assms] by simp
  have pr: "procs (upd_cpu c f s) = procs s" for f by (simp add: upd_cpu_def)
  show ?thesis
    unfolding sched_choose_def Let_def
    apply (rule post_modify_seq, rule post_gets_bnd, rule post_gets_bnd, rule post_gets_bnd)
    apply (rule post_if, rule post_if)
    subgoal by simp
    subgoal by (auto simp: pr not_le intro: prio split: option.split)
    apply (rule post_if)
    subgoal by (auto simp: pr fastrand_def intro: lottery_scan_runnable)
    subgoal by (auto simp: pr doif_def intro: rr split: option.split)
    done
qed

lemma post_loop_forever:
  assumes "I s" "\<And>t. I t \<Longrightarrow> post G R (body t) (\<lambda>x t. x = Inl () \<and> I t)"
  shows "post G R (loop n () (\<lambda>_. body) s) (\<lambda>_ _. False)"
  using assms(1)
proof (induction n arbitrary: s)
  case (Suc n)
  from assms(2) [OF Suc.prems] show ?case
    unfolding loop.simps bnd_apply post_andthen by (rule post_mono) (use Suc.IH in auto)
qed simp

abbreviation sched_round :: "nat \<Rightarrow> ('z mstate_scheme, unit + unit) routine" where
  "sched_round c \<equiv> seq sti (seq (acquire PtableLock) (bnd (sched_choose c) (\<lambda>r.
     seq (case r of Some (p, timeQ) \<Rightarrow> sched_run c p timeQ | None \<Rightarrow> ret ()) (
     seq (release PtableLock) (ret (Inl ()))))))"

lemma on_cpu_pview:
  assumes "pview t = pview s"
  shows "on_cpu c t = on_cpu c s"
  using pview_inv(1) [OF assms] pview_procs(3) [OF assms] by simp

lemma quiet_on_cpu: "quiet m \<Longrightarrow> on_cpu c s \<Longrightarrow> post G R (m s) (\<lambda>_. on_cpu c)"
  by (erule quietD, drule on_cpu_pview) blast

lemma sched_picked_post:
  fixes s :: "'z mstate_scheme"
  assumes "on_cpu c s" "\<forall>p q. r = Some (p, q) \<longrightarrow> runnable (procs s) p"
  shows "post handed (returned c) (seq (case r of Some (p, tq) \<Rightarrow> sched_run c p tq | None \<Rightarrow> ret ()) (
     seq (release PtableLock) (ret (Inl ()))) s) (\<lambda>x t. x = Inl () \<and> on_cpu c t)"
proof -
  have "post handed (returned c) ((case r of Some (p, tq) \<Rightarrow> sched_run c p tq | None \<Rightarrow> ret ()) s) (\<lambda>_. on_cpu c)"
    using assms sched_run_post by (cases r) (auto split: prod.split)
  moreover have "post handed (returned c) (seq (release PtableLock) (ret (Inl ())) t) (\<lambda>x t. x = Inl () \<and> on_cpu c t)"
    if "on_cpu c t" for t :: "'z mstate_scheme"
    using quiet_on_cpu [OF quiet_release that] by simp
  ultimately show ?thesis unfolding seq_def bnd_apply post_andthen by (rule post_mono) blast
qed

lemma sched_round_post:
  fixes s :: "'z mstate_scheme"
  assumes "on_cpu c s"
  shows "post handed (returned c) (sched_round c s) (\<lambda>x t. x = Inl () \<and> on_cpu c t)"
proof (rule post_quiet_seq, intro quiet_rules, rule post_quiet_seq, intro quiet_rules)
  fix t u :: "'z mstate_scheme"
  assume t: "pview t = pview s" and u': "pview u = pview t"
  have u: "on_cpu c u" using assms on_cpu_pview [OF t] on_cpu_pview [OF u'] by blast
  then have "post handed (returned c) (sched_choose c u) (\<lambda>r t. pview t = pview u \<and> (\<forall>p q. r = Some (p, q) \<longrightarrow> runnable (procs u) p))"
    by (intro post_conj quietD [OF quiet_sched_choose] sched_choose_runnable) (simp_all add: tickets_ok_def)
  then show "post handed (returned c) (bnd (sched_choose c) (\<lambda>r.
     seq (case r of Some (p, timeQ) \<Rightarrow> sched_run c p timeQ | None \<Rightarrow> ret ()) (
     seq (release PtableLock) (ret (Inl ())))) u) (\<lambda>x t. x = Inl () \<and> on_cpu c t)"
    unfolding bnd_apply post_andthen
  proof (rule post_mono)
    fix r :: "(nat \<times> u32) option" and t :: "'z mstate_scheme"
    assume t: "pview t = pview u \<and> (\<forall>p q. r = Some (p, q) \<longrightarrow> runnable (procs u) p)"
    then show "post handed (returned c) (seq (case r of Some (p, timeQ) \<Rightarrow> sched_run c p timeQ | None \<Rightarrow> ret ()) (
     seq (release PtableLock) (ret (Inl ()))) t) (\<lambda>x t. x = Inl () \<and> on_cpu c t)"
      using u on_cpu_pview [of t u] pview_procs(1) [of t u] by (intro sched_picked_post) simp_all
  qed
qed

lemma sched_loop_post:
  "on_cpu c s \<Longrightarrow> post handed (returned c) (loop n () (\<lambda>_. sched_round c) s) (\<lambda>_ _. False)"
  by (rule post_loop_forever [of "on_cpu c"], assumption, rule sched_round_post)

lemma quiet_fastrandSlated: "quiet (fastrandSlated x)"
  unfolding fastrandSlated_def by (intro quiet_rules) (simp add: pview_def)

lemma scheduler_post:
  fixes s :: "'z mstate_scheme"
  assumes "on_cpu c s"
  shows "post handed (returned c) (scheduler fuel s) (\<lambda>_ _. False)"
proof -
  let ?off = "upd_cpu c (\<lambda>k. k\<lparr>cproc := None\<rparr>)"
  have my: "post handed (returned c) (mycpu s) (\<lambda>a t. a = c \<and> on_cpu c t)"
    using assms this_cpu_bound by (simp add: mycpu_def)
  have "post handed (returned c) (seq (for_each [0..<1000] (\<lambda>_. bnd (gets ticks) (\<lambda>t. seq (fastrandSlated t) (ret ()))))
      (loop fuel () (\<lambda>_. sched_round c)) (?off t)) (\<lambda>_ _. False)" if t: "on_cpu c t" for t :: "'z mstate_scheme"
  proof (rule post_quiet_seq, intro quiet_rules quiet_fastrandSlated)
    fix u :: "'z mstate_scheme"
    assume u: "pview u = pview (?off t)"
    have "on_cpu c (?off t)" using t by (simp add: this_cpu_upd_cpu)
    then show "post handed (returned c) (loop fuel () (\<lambda>_. sched_round c) u) (\<lambda>_ _. False)"
      using on_cpu_pview [OF u] by (intro sched_loop_post) blast
  qed
  then have "post handed (returned c) (seq (modify ?off) (seq (for_each [0..<1000] (\<lambda>_. bnd (gets ticks) (\<lambda>t. seq (fastrandSlated t) (ret ()))))
      (loop fuel () (\<lambda>_. sched_round c))) t) (\<lambda>_ _. False)" if t: "on_cpu c t" for t :: "'z mstate_scheme"
    using that by (intro post_modify_seq)
  with my show ?thesis
    unfolding scheduler_def bnd_apply [of mycpu] post_andthen by - (erule post_mono, auto simp only:)
qed

section \<open>The kernel as a whole\<close>

text \<open>
  One CPU with its scheduler, and the processes it runs. \<open>saved p\<close> is what process \<open>p\<close>
  does when it is switched to. A process that has returned to user space may change anything but
  the kernel's view of the processes, and then traps; a process that is switched to for the first
  time starts in \<^verbatim>\<open>forkret\<close>. The switch back goes to the scheduler of the CPU the
  process runs on.
\<close>

datatype ('s) turn = Sched "('s, unit) outcome" | Process nat "('s, unit) routine" "('s, unit) outcome"

inductive kernel_run :: "nat \<Rightarrow> nat \<Rightarrow> tstate \<Rightarrow> tstate turn \<Rightarrow> (nat \<Rightarrow> (tstate, unit) routine) \<Rightarrow> bool"
  for c fuel s0 where
  run_boot: "kernel_run c fuel s0 (Sched (scheduler fuel s0)) (\<lambda>_. forkret)"
| run_dispatch: "kernel_run c fuel s0 (Sched (Switched t k)) saved \<Longrightarrow> running t p \<Longrightarrow>
    m = saved p \<or> m = forkret \<Longrightarrow> kernel_run c fuel s0 (Process p k (m t)) saved"
| run_user: "kernel_run c fuel s0 (Process p k (Done () t)) saved \<Longrightarrow> pview u = pview t \<Longrightarrow>
    kernel_run c fuel s0 (Process p k (trap junk f u)) saved"
| run_back: "kernel_run c fuel s0 (Process p k (Switched t k')) saved \<Longrightarrow> this_cpu t = Some c \<Longrightarrow>
    kernel_run c fuel s0 (Sched (k t)) (saved(p := k'))"

abbreviation proc_spec :: "nat \<Rightarrow> (tstate, unit) outcome \<Rightarrow> bool" where
  "proc_spec p r \<equiv> post tickets_ok (resumed p) r (\<lambda>_ t. tickets_ok t \<and> running t p)"

abbreviation sched_spec :: "nat \<Rightarrow> (tstate, unit) outcome \<Rightarrow> bool" where
  "sched_spec c r \<equiv> post handed (returned c) r (\<lambda>_ _. False)"

fun turn_ok :: "nat \<Rightarrow> tstate turn \<Rightarrow> bool" where
  "turn_ok c (Sched r) = sched_spec c r"
| "turn_ok c (Process p k r) = (proc_spec p r \<and> (\<forall>t. on_cpu c t \<longrightarrow> sched_spec c (k t)))"

lemma good_spec: "good p m \<Longrightarrow> tickets_ok s \<Longrightarrow> running s p \<Longrightarrow> proc_spec p (m s)"
  using hoareD by fastforce

lemma kernel_run_ok:
  assumes "kernel_run c fuel s0 x saved" "on_cpu c s0"
  shows "turn_ok c x \<and> (\<forall>p t. tickets_ok t \<and> running t p \<longrightarrow> proc_spec p (saved p t))"
  using assms
proof (induction rule: kernel_run.induct)
  case run_boot
  then show ?case using scheduler_post good_spec [OF good_forkret] by simp
next
  case (run_dispatch t k saved p m)
  then have "handed t" "\<forall>u. on_cpu c u \<longrightarrow> sched_spec c (k u)" by (simp_all add: returned_def)
  moreover from this(1) run_dispatch have "proc_spec p (m t)"
    using good_spec [OF good_forkret, of t p] by (auto simp: handed_def)
  ultimately show ?case using run_dispatch by simp
next
  case (run_user p k t saved u junk f)
  then have "tickets_ok u" "running u p" using pview_inv [of u t] by simp_all
  then show ?case using run_user good_spec [OF good_trap] by simp
next
  case (run_back p k t k' saved)
  then have "\<forall>u. resumed p t u \<longrightarrow> proc_spec p (k' u)" by simp
  then have "\<forall>u. tickets_ok u \<and> running u p \<longrightarrow> proc_spec p (k' u)" by (simp only: resumed_def simp_thms)
  with run_back show ?case by simp
qed

fun turn_states :: "tstate turn \<Rightarrow> tstate set" where
  "turn_states (Sched r) = (case r of Switched t k \<Rightarrow> {t} | Done a t \<Rightarrow> {t} | _ \<Rightarrow> {})"
| "turn_states (Process p k r) = (case r of Switched t k \<Rightarrow> {t} | Done a t \<Rightarrow> {t} | _ \<Rightarrow> {})"


section \<open>A run of the kernel\<close>

text \<open>
  The scheduler of a system with three runnable processes reaches the switch to one of them: it
  seeds the generator, takes the table's lock, picks slot 3 and changes to its address space.
\<close>

definition demo_boot :: tstate where
  "demo_boot = demo_kernel\<lparr>cpus := [(demo_cpu 0)\<lparr>RRLastProc := Some 0\<rparr>, demo_cpu 4],
     hw_IF := (\<lambda>_. False), procs := demo_table[3 := (demo_table ! 3)\<lparr>state := RUNNABLE\<rparr>]\<rparr>"

lemma seeding: "\<exists>g. for_each xs (\<lambda>_. bnd (gets ticks) (\<lambda>t. seq (fastrandSlated t) (ret ()))) s = Done () (s\<lparr>g_seed := g\<rparr>)"
proof (induction xs arbitrary: s)
  case Nil
  have "s = s\<lparr>g_seed := g_seed s\<rparr>" by simp
  then show ?case by (metis for_each.simps(1) ret_apply)
next
  case (Cons x xs)
  show ?case
    using Cons [of "s\<lparr>g_seed := (214013 + ticks s) * g_seed s + (2531011 + ticks s)\<rparr>"] by (simp add: fastrandSlated_def)
qed





lemma map_update_self: "(map f xs)[i := f (xs ! i)] = map f xs"
  by (cases "i < length xs") (metis list_update_id nth_map, simp add: list_update_beyond)

lemma upd_cpu_frame:
  "(\<And>k. apicid (f k) = apicid k) \<Longrightarrow> map apicid (cpus (upd_cpu c f s)) = map apicid (cpus s)"
  "c < length (cpus s) \<Longrightarrow> (\<And>k. ncli (f k) = ncli k) \<Longrightarrow> ncli (cpus (upd_cpu c f s) ! c) = ncli (cpus s ! c)"
  "length (cpus (upd_cpu c f s)) = length (cpus s)" "ncpu (upd_cpu c f s) = ncpu s" "hw_cpu (upd_cpu c f s) = hw_cpu s"
  "hw_apicid (upd_cpu c f s) = hw_apicid s" "lapic_mapped (upd_cpu c f s) = lapic_mapped s" "hw_IF (upd_cpu c f s) = hw_IF s"
  by (simp_all add: upd_cpu_def map_update map_update_self)

lemma modify_seq_done:
  "I s \<Longrightarrow> (\<And>s. I s \<Longrightarrow> I (f s)) \<Longrightarrow> (\<And>s. I s \<Longrightarrow> \<exists>t. m s = Done () t) \<Longrightarrow> \<exists>t. seq (modify f) m s = Done () t"
  by simp

text \<open>A CPU inside a critical section: what \<^verbatim>\<open>switchuvm\<close> changes leaves this alone.\<close>

definition inside :: "nat \<Rightarrow> 'z kstate_scheme \<Rightarrow> bool" where
  "inside c s \<longleftrightarrow> this_cpu s = Some c \<and> \<not> readeflags_IF s \<and> 1 \<le> ncli (cpus s ! c)"

lemma inside_upd_cpu: "(\<And>k. apicid (f k) = apicid k) \<Longrightarrow> (\<And>k. ncli (f k) = ncli k) \<Longrightarrow> inside c s \<Longrightarrow> inside c (upd_cpu c f s)"
  using this_cpu_bound [of s c] this_cpu_upd_cpu [of f c s] by (simp add: inside_def upd_cpu_frame readeflags_IF_def)

lemma inside_regs: "inside c s \<Longrightarrow> inside c (s\<lparr>hw_tr := v\<rparr>)" "inside c s' \<Longrightarrow> inside c (s'\<lparr>hw_cr3 := v'\<rparr>)"
  using this_cpu_frame [of "s\<lparr>hw_tr := v\<rparr>" s] this_cpu_frame [of "s'\<lparr>hw_cr3 := v'\<rparr>" s']
  by (simp_all add: inside_def readeflags_IF_def)

lemma switchuvm_done:
  fixes s :: "'z mstate_scheme"
  assumes "cpu_ok s c" "kstack (procs s ! p) \<noteq> 0" "pgdir (procs s ! p) \<noteq> 0"
  shows "\<exists>t. switchuvm (Some p) s = Done () t"
proof -
  have tc: "this_cpu s = Some c" using assms(1) by (simp add: cpu_ok_def)
  have "inside c (pushed c s)" using assms(1) cpu_ok_bound [OF assms(1)] by (simp add: inside_def cpu_ok_def cpus_pushed)
  moreover from this have "mycpu (pushed c s) = Done c (pushed c s)" by (simp add: inside_def mycpu_eq)
  moreover have "\<exists>t. popcli v = Done () t" if "inside c v" for v :: "'z mstate_scheme"
    using that popcli_eq by (auto simp: inside_def)
  moreover have "seq pushcli m s = m (pushed c s)" for m :: "('z mstate_scheme, unit) routine"
    by (simp add: pushcli_eq [OF tc])
  ultimately show ?thesis
    using assms(2,3) unfolding switchuvm_def ltr_def lcr3_def
    by (simp del: seq_apply)
      (intro modify_seq_done [where I = "inside c"]; simp add: inside_upd_cpu inside_regs)
qed

lemma sched_run_switches:
  assumes "cpu_ok s c" "p < length (procs s)" "kstack (procs s ! p) \<noteq> 0" "pgdir (procs s ! p) \<noteq> 0"
  shows "\<exists>t k. sched_run c p q s = Switched t k"
proof -
  let ?s = "upd_proc p (\<lambda>x. x\<lparr>totalWaitTime := totalWaitTime x + (ticks s - lastChangeTime x), lastChangeTime := ticks s\<rparr>)
     (upd_cpu c (\<lambda>k. k\<lparr>ctr := q, cproc := Some p\<rparr>) s)"
  have "this_cpu ?s = this_cpu s"
    by (rule this_cpu_frame) (simp_all add: upd_cpu_def upd_proc_def map_update map_update_self)
  then have "cpu_ok ?s c" using assms(1) cpu_ok_bound [OF assms(1)]
    by (simp add: cpu_ok_def upd_cpu_def upd_proc_def readeflags_IF_def)
  moreover have "kstack (procs ?s ! p) \<noteq> 0" "pgdir (procs ?s ! p) \<noteq> 0"
    using assms by (simp_all add: upd_proc_def upd_cpu_def)
  ultimately obtain t where "switchuvm (Some p) ?s = Done () t" using switchuvm_done by blast
  moreover have "ticks (upd_cpu c f s) = ticks s" for f by (simp add: upd_cpu_def)
  ultimately show ?thesis unfolding sched_run_def by (simp add: switch_def)
qed

lemma demo_rr: "rr_scan (demo_table[3 := (demo_table ! 3)\<lparr>state := RUNNABLE\<rparr>]) 0 = Some 3"
  by code_simp

lemma demo_boot_fields [simp]:
  "cpus demo_boot = [(demo_cpu 0)\<lparr>RRLastProc := Some 0\<rparr>, demo_cpu 4]"
  "procs demo_boot = demo_table[3 := (demo_table ! 3)\<lparr>state := RUNNABLE\<rparr>]"
  "hw_cpu demo_boot = 0" "ncpu demo_boot = 2" "hw_apicid demo_boot = (\<lambda>i. if i = 0 then 0 else 4)" "lapic_mapped demo_boot"
  "locks demo_boot l = \<lparr>locked = False, lk_name = [], lk_cpu = None\<rparr>" "hw_IF demo_boot = (\<lambda>_. False)"
  "totalTicketCount demo_boot = 45"
  by (simp_all add: demo_boot_def demo_defs)

lemma demo_boot_this_cpu: "this_cpu demo_boot = Some 0"
  by (simp add: this_cpu_def lapicid_def demo_cpu_def)

lemma demo_round: "\<exists>t k. sched_round 0 (demo_boot\<lparr>g_seed := g\<rparr>) = Switched t k"
proof -
  define b where "b = demo_boot\<lparr>g_seed := g, hw_IF := (hw_IF demo_boot)(hw_cpu demo_boot := True)\<rparr>"
  define c where "c = grabbed PtableLock 0 b"
  define d where "d = upd_cpu 0 (\<lambda>k. k\<lparr>RRLastProc := Some 3\<rparr>) c"
  have sti: "sti (demo_boot\<lparr>g_seed := g\<rparr>) = Done () b" by (simp add: sti_def b_def)
  have tc: "this_cpu b = Some 0" by (simp add: b_def this_cpu_def lapicid_def demo_cpu_def)
  then have "cpu_ok b 0" by (simp add: b_def cpu_ok_def demo_cpu_def)
  then have acq: "acquire PtableLock b = Done () c" unfolding c_def by (rule acquire_lock_free) (simp add: b_def lock_free_def)
  have cs: "cpus c = [nest True (demo_cpu 0\<lparr>RRLastProc := Some 0\<rparr>), demo_cpu 4]" "procs c = procs demo_boot" "\<not> readeflags_IF c"
    by (simp_all add: c_def b_def grabbed_def pushed_def upd_lock_def upd_cpu_def readeflags_IF_def)
  have choose: "sched_choose 0 c = Done (Some (3, rr_quantum 0)) d"
    using demo_rr by (subst sched_choose_rr [of _ _ 0]) (simp_all add: cs d_def nest_def demo_cpu_def rr_round_def rr_start_def)
  have "this_cpu c = Some 0" using tc by (simp add: c_def grabbed_def)
  then have "this_cpu d = Some 0" unfolding d_def by (subst this_cpu_upd_cpu) simp_all
  then have "cpu_ok d 0" using cs by (simp add: cpu_ok_def d_def upd_cpu_def readeflags_IF_def nest_def demo_cpu_def)
  moreover have "procs d = procs demo_boot" using cs(2) by (simp add: d_def upd_cpu_def)
  ultimately obtain t k where "sched_run 0 3 (rr_quantum 0) d = Switched t k"
    using sched_run_switches [of d 0 3 "rr_quantum 0"] by (auto simp: demo_table_def)
  then show ?thesis using sti acq choose by simp
qed

lemma demo_boot_tickets: "tickets_ok demo_boot"
proof -
  have "sum_list (map weight (demo_table[3 := (demo_table ! 3)\<lparr>state := RUNNABLE\<rparr>])) = 45" by code_simp
  then show ?thesis by (simp add: tickets_ok_def NPROC_def)
qed

lemma demo_scheduler: "\<exists>t k. scheduler 1 demo_boot = Switched t k"
proof -
  obtain g where "for_each [0..<1000] (\<lambda>_. bnd (gets ticks) (\<lambda>t. seq (fastrandSlated t) (ret ()))) demo_boot = Done () (demo_boot\<lparr>g_seed := g\<rparr>)"
    using seeding by blast
  moreover have "mycpu demo_boot = Done 0 demo_boot" by (simp add: mycpu_eq demo_boot_this_cpu readeflags_IF_def)
  moreover have "upd_cpu 0 (\<lambda>k. k\<lparr>cproc := None\<rparr>) demo_boot = demo_boot"
    by (simp add: upd_cpu_def demo_boot_def demo_cpu_def)
  moreover obtain t k where "sched_round 0 (demo_boot\<lparr>g_seed := g\<rparr>) = Switched t k" using demo_round by blast
  ultimately show ?thesis unfolding scheduler_def by (simp del: upt_Suc)
qed


end
