(* ===== verification/Shapes.thy ===== *)
theory Shapes
  imports Background Kernel
begin

text \<open>
  The kernel's tables are well formed. A pointer of the source is an index in the model; every index
  that one table keeps of another (the process of a CPU, the parent and the current directory of a
  process, the files behind its descriptors, the inode of a file) stays within the table it points
  into, and the tables keep their size, whatever the processes and the scheduler do.
\<close>

section \<open>Well-formed tables\<close>

definition points :: "nat \<Rightarrow> nat option \<Rightarrow> bool" where
  "points n x \<longleftrightarrow> (\<forall>i. x = Some i \<longrightarrow> i < n)"

definition proc_shape :: "proc \<Rightarrow> bool" where
  "proc_shape x \<longleftrightarrow> points NPROC (parent x) \<and> points NINODE (cwd x) \<and> length (ofile x) = NOFILE \<and>
     (\<forall>f \<in> set (ofile x). points NFILE f)"

definition file_shape :: "kfile \<Rightarrow> bool" where
  "file_shape f \<longleftrightarrow> (f_type f = FD_INODE \<longrightarrow> f_ip f < NINODE)"

definition shape :: "'z tstate_scheme \<Rightarrow> bool" where
  "shape s \<longleftrightarrow> length (procs s) = NPROC \<and> length (bufs s) = NBUF + 1 \<and> length (icache s) = NINODE \<and>
     length (ftable s) = NFILE \<and> (\<forall>c \<in> set (cpus s). points NPROC (cproc c)) \<and> points NPROC (initproc s) \<and>
     (\<forall>x \<in> set (procs s). proc_shape x) \<and> (\<forall>f \<in> set (ftable s). file_shape f)"

lemma points_simps [simp]: "points n None" "points n (Some i) \<longleftrightarrow> i < n"
  by (simp_all add: points_def)

lemma set_update_nth:
  "(\<And>x. x \<in> set xs \<Longrightarrow> P x) \<Longrightarrow> (i < length xs \<Longrightarrow> P (xs ! i) \<Longrightarrow> P y) \<Longrightarrow> x \<in> set (xs[i := y]) \<Longrightarrow> P x"
  by (cases "i < length xs") (auto dest!: subsetD [OF set_update_subset_insert] simp: list_update_beyond)

lemma shape_upd_proc:
  assumes "shape s" "\<And>x. proc_shape x \<Longrightarrow> proc_shape (h x)"
  shows "shape (upd_proc p h s)"
proof -
  have "proc_shape x" if "x \<in> set ((procs s)[p := h (procs s ! p)])" for x
    using assms by (intro set_update_nth [OF _ _ that, of proc_shape]) (auto simp: shape_def)
  then show ?thesis using assms(1) by (simp add: shape_def upd_proc_def)
qed

lemma shape_upd_file:
  assumes "shape s" "\<And>x. file_shape x \<Longrightarrow> file_shape (h x)"
  shows "shape (upd_file f h s)"
proof -
  have "file_shape x" if "x \<in> set ((ftable s)[f := h (ftable s ! f)])" for x
    using assms by (intro set_update_nth [OF _ _ that, of file_shape]) (auto simp: shape_def)
  then show ?thesis using assms(1) by (simp add: shape_def upd_file_def)
qed

lemma shape_upd_cpu:
  assumes "shape s" "\<And>k. points NPROC (cproc k) \<Longrightarrow> points NPROC (cproc (h k))"
  shows "shape (upd_cpu c h s)"
proof -
  have "points NPROC (cproc x)" if "x \<in> set ((cpus s)[c := h (cpus s ! c)])" for x
    using assms by (intro set_update_nth [OF _ _ that, of "\<lambda>k. points NPROC (cproc k)"]) (auto simp: shape_def)
  then show ?thesis using assms(1) by (simp add: shape_def upd_cpu_def)
qed

lemma shape_upd_same:
  assumes "shape s" "\<And>x. ofile (h x) = ofile x \<and> parent (h x) = parent x \<and> cwd (h x) = cwd x"
  shows "shape (upd_proc p h s)"
  by (rule shape_upd_proc [OF assms(1)]) (simp add: proc_shape_def assms(2))

lemma shape_procD: "shape s \<Longrightarrow> p < NPROC \<Longrightarrow> proc_shape (procs s ! p)"
  by (simp add: shape_def)

lemma proc_shape_fd: "proc_shape x \<Longrightarrow> d < NOFILE \<Longrightarrow> points NFILE (ofile x ! d)"
  by (simp add: proc_shape_def)

interpretation sh: input_free shape
proof
  fix s h p assume "shape s" "harmless h"
  then show "shape (upd_proc p h s)" by (intro shape_upd_proc) (simp_all add: harmless_def proc_shape_def)
next
  fix s and f8 :: "kfile \<Rightarrow> kfile" and n
  assume "shape s" "\<And>x. f_ref (f8 x) = f_ref x \<and> f_type (f8 x) = f_type x \<and> f_ip (f8 x) = f_ip x"
  then show "shape (upd_file n f8 s)" by (intro shape_upd_file) (simp_all add: file_shape_def)
next
  fix s and f2 :: "cpu \<Rightarrow> cpu" and c
  assume "shape s" "\<And>k. cproc (f2 k) = cproc k"
  then show "shape (upd_cpu c f2 s)" by (intro shape_upd_cpu) simp_all
qed (simp_all add: shape_def upd_lock_def upd_sl_def upd_buf_def upd_log_def upd_inode_def upd_pipe_def)

section \<open>Indices that routines return\<close>

lemma gives_curproc: "gives shape (curproc :: ('z tstate_scheme, _) routine) (\<lambda>p. p < NPROC)"
proof -
  have "points NPROC (cur s)" if "shape s" for s :: "'z tstate_scheme"
    using that this_cpu_bound [of s] by (auto simp: cur_def shape_def points_def split: option.splits)
  then have "post shape (\<lambda>_. shape) (myproc s) (\<lambda>a t. shape t \<and> points NPROC a)" if "shape s" for s :: "'z tstate_scheme"
    using that post_conj [OF keepsD [OF sh.keeps_spin(1) that] myproc_cur [of shape "\<lambda>_. shape" s]]
    by (auto elim!: post_mono)
  then have "gives shape (myproc :: ('z tstate_scheme, _) routine) (points NPROC)" by (simp add: gives_def)
  then show ?thesis unfolding curproc_def by (rule gives_bnd) (auto intro!: gives_rules)
qed

lemma keeps_curproc_bnd: "(\<And>p. p < NPROC \<Longrightarrow> keeps shape (f p)) \<Longrightarrow> keeps shape (bnd curproc f)"
  by (rule keeps_bnd_gives [OF gives_curproc])

lemma gives_iget: "gives shape (iget dv ino) (\<lambda>i. i < NINODE)"
proof -
  have len: "gives shape (gets icache) (\<lambda>ic. length ic = NINODE)" by (rule gives_gets) (simp add: shape_def)
  show ?thesis unfolding iget_def
    by (rule gives_seq, intro keeps_rules, rule gives_bnd [OF len], intro gives_rules keeps_rules sh.bgs)
      (auto dest: find_idx_SomeD)
qed

lemma gives_idup: "i < NINODE \<Longrightarrow> gives shape (idup i) (\<lambda>i. i < NINODE)"
  unfolding idup_def by (intro gives_rules keeps_rules sh.bgs)

lemma gives_dirlookup: "gives shape (dirlookup dp nm) (\<lambda>r. points NINODE (map_option fst r))"
  unfolding dirlookup_def Let_def
  by (intro gives_rules gives_loop [where J = "\<lambda>_. True"] gives_bnd [OF gives_iget] keeps_rules) simp_all

lemma gives_cwd: "p < NPROC \<Longrightarrow> gives shape (gets (\<lambda>s. cwd (procs s ! p))) (points NINODE)"
  by (rule gives_gets) (simp add: shape_def proc_shape_def)

lemma gives_namex: "gives shape (namex path np) (\<lambda>r. points NINODE (map_option fst r))"
proof -
  have start: "gives shape (if path \<noteq> [] \<and> hd path = slash then iget ROOTDEV ROOTINO
      else bnd curproc (\<lambda>p. bnd (gets (\<lambda>s. cwd (procs s ! p))) (\<lambda>d.
        case d of None \<Rightarrow> stuck ''null pointer'' | Some i \<Rightarrow> idup i))) (\<lambda>i. i < NINODE)"
    by (intro gives_if gives_iget gives_bnd [OF gives_curproc] gives_bnd [OF gives_cwd] gives_option gives_stuck gives_idup)
      simp_all
  show ?thesis unfolding namex_def
    by (rule gives_bnd [OF start], rule gives_loop [where J = "\<lambda>x. fst x < NINODE"], simp)
      (auto intro!: gives_rules gives_bnd [OF gives_dirlookup] keeps_rules split: option.splits)
qed

lemma gives_paths: "gives shape (namei path) (points NINODE)"
  "gives shape (nameiparent path) (\<lambda>r. points NINODE (map_option fst r))"
  unfolding namei_def nameiparent_def by (auto intro!: gives_rules gives_bnd [OF gives_namex] gives_namex)

lemma gives_ialloc: "gives shape (ialloc dv ty) (\<lambda>i. i < NINODE)"
  unfolding ialloc_def
  by (rule gives_bnd_keeps, intro keeps_rules, rule gives_bnd, rule gives_search [where Q = "\<lambda>i. i < NINODE"])
    (auto intro!: gives_rules gives_bnd [OF gives_iget] keeps_rules sh.bgs)

lemma gives_create: "gives shape (create path ty mj mn) (points NINODE)"
  unfolding create_def
  by (rule gives_bnd [OF gives_paths(2)])
    (auto intro!: gives_rules gives_bnd [OF gives_dirlookup] gives_bnd [OF gives_ialloc] keeps_rules sh.bgs split: option.splits)

lemma gives_open_inode: "gives shape (open_inode path mode) (points NINODE)"
  unfolding open_inode_def
  by (rule gives_if [OF gives_create], rule gives_bnd [OF gives_paths(1)], intro gives_rules keeps_rules) simp_all

section \<open>Files and descriptors\<close>

lemma gives_filealloc: "gives shape filealloc (points NFILE)"
proof -
  have free: "gives shape (gets (\<lambda>s. find_idx (\<lambda>x. f_ref x = 0) (ftable s))) (points NFILE)"
    by (rule gives_gets) (auto simp: shape_def points_def dest: find_idx_SomeD)
  show ?thesis unfolding filealloc_def
    by (rule gives_seq, intro keeps_rules, rule gives_bnd [OF free], intro gives_rules keeps_rules shape_upd_file)
      (simp_all add: file_shape_def)
qed

lemma keeps_filedup [keeps_rules]: "keeps shape (filedup f)"
  unfolding filedup_def by (intro keeps_rules shape_upd_file) (simp_all add: file_shape_def)

lemma keeps_fileclose [keeps_rules]: "keeps shape (fileclose f)"
  unfolding fileclose_def by (intro keeps_rules shape_upd_file) (simp_all add: file_shape_def)

lemma gives_pipealloc: "gives shape pipealloc (\<lambda>r. \<forall>a b. r = Some (a, b) \<longrightarrow> a < NFILE \<and> b < NFILE)"
  unfolding pipealloc_def pipe_bad_def
  by (intro gives_rules gives_bnd [OF gives_filealloc] keeps_rules sh.bgs shape_upd_file) (auto simp: file_shape_def)

lemma proc_shape_ofile: "points NFILE f \<Longrightarrow> proc_shape x \<Longrightarrow> proc_shape (x\<lparr>ofile := (ofile x)[d := f]\<rparr>)"
  unfolding proc_shape_def by (auto dest!: subsetD [OF set_update_subset_insert])

lemma keeps_fdalloc [keeps_rules]: "f < NFILE \<Longrightarrow> keeps shape (fdalloc f)"
  unfolding fdalloc_def by (intro keeps_rules shape_upd_proc proc_shape_ofile) simp_all

lemma gives_argfd: "gives (shape :: 'z tstate_scheme \<Rightarrow> bool) (argfd n) (\<lambda>a. \<forall>fd f. a = Some (fd, f) \<longrightarrow> f < NFILE)"
proof -
  have descr: "gives (shape :: 'z tstate_scheme \<Rightarrow> bool) (gets (\<lambda>s. ofile (procs s ! p) ! unat fd)) (points NFILE)"
    if "p < NPROC" "\<not> (sint fd < 0 \<or> int NOFILE \<le> sint fd)" for p and fd :: u32
  proof (rule gives_gets)
    fix s :: "'z tstate_scheme" assume "shape s"
    have "unat fd < 2147483648" using that(2) sint_neg_iff [of fd] by linarith
    from sint_nonneg [OF this] have "int (unat fd) < int NOFILE" using that(2) by linarith
    then have "unat fd < NOFILE" by (simp only: of_nat_less_iff)
    then show "points NFILE (ofile (procs s ! p) ! unat fd)"
      using \<open>shape s\<close> that by (intro proc_shape_fd shape_procD)
  qed
  show ?thesis unfolding argfd_def
    by (rule gives_bnd_keeps, intro keeps_rules, intro gives_option gives_if gives_bnd [OF gives_curproc] gives_bnd [OF descr] gives_ret)
      auto
qed

lemma keeps_sys_dup [keeps_rules]: "keeps shape sys_dup"
  unfolding sys_dup_def by (rule keeps_bnd_gives [OF gives_argfd]) (auto intro!: keeps_rules)

lemma keeps_sys_close [keeps_rules]: "keeps shape sys_close"
  unfolding sys_close_def by (intro keeps_rules shape_upd_proc proc_shape_ofile) simp_all

lemma keeps_do_open [keeps_rules]: "keeps shape (do_open path mode)"
  unfolding do_open_def
  apply (rule keeps_seq, intro keeps_rules)
  apply (rule keeps_bnd_gives [OF gives_open_inode])
  apply (intro keeps_option)
   apply (intro keeps_rules)
  apply (rule keeps_bnd_gives [OF gives_filealloc])
  apply (intro keeps_rules shape_upd_file)
  apply (simp_all add: file_shape_def)
  done

lemma keeps_sys_open [keeps_rules]: "keeps shape sys_open"
  unfolding sys_open_def by (intro keeps_rules)

lemma keeps_sys_pipe [keeps_rules]: "keeps shape sys_pipe"
  unfolding sys_pipe_def
  apply (rule keeps_bnd, intro keeps_rules)
  apply (rule keeps_option, intro keeps_rules)
  apply (rule keeps_bnd_gives [OF gives_pipealloc])
  apply (intro keeps_rules shape_upd_proc proc_shape_ofile)
  apply simp_all
  done

lemma keeps_sys_chdir [keeps_rules]: "keeps shape sys_chdir"
proof -
  have arg: "gives shape (case a of None \<Rightarrow> ret None | Some path \<Rightarrow> namei path) (points NINODE)" for a
    by (intro gives_rules gives_paths) simp
  show ?thesis unfolding sys_chdir_def
    by (rule keeps_bnd, intro keeps_rules, rule keeps_seq, intro keeps_rules, rule keeps_bnd, intro keeps_rules,
        rule keeps_bnd_gives [OF arg], intro keeps_rules shape_upd_proc) (simp_all add: proc_shape_def)
qed

section \<open>Processes\<close>

lemma gives_allocproc: "gives shape allocproc (points NPROC)"
proof -
  have free: "gives shape (gets (\<lambda>s. find_idx (\<lambda>p. state p = UNUSED) (procs s))) (points NPROC)"
    by (rule gives_gets) (auto simp: shape_def points_def dest: find_idx_SomeD)
  show ?thesis unfolding allocproc_def
    by (rule gives_seq, intro keeps_rules, rule gives_bnd [OF free], intro gives_rules keeps_rules shape_upd_same sh.bg_kernel)
      (simp_all add: embryo_def)
qed

lemma keeps_share_files: "cp < NPROC \<Longrightarrow> keeps shape (share_files cp np)"
proof -
  assume cp: "cp < NPROC"
  have held: "gives shape (gets (\<lambda>s. ofile (procs s ! cp) ! i)) (points NFILE)" if "i < NOFILE" for i
    by (rule gives_gets) (intro proc_shape_fd shape_procD cp that)
  have dup: "gives shape (filedup f) (\<lambda>g. g < NFILE)" if "f < NFILE" for f
    unfolding filedup_def by (intro gives_rules keeps_rules shape_upd_file) (simp_all add: file_shape_def that)
  have copy: "keeps shape (bnd (gets (\<lambda>s. ofile (procs s ! cp) ! i)) (\<lambda>f. case f of None \<Rightarrow> ret ()
      | Some f \<Rightarrow> bnd (filedup f) (\<lambda>g. modify (upd_proc np (\<lambda>x. x\<lparr>ofile := (ofile x)[i := Some g]\<rparr>)))))" if "i < NOFILE" for i
    by (rule keeps_bnd_gives [OF held [OF that]], intro keeps_option keeps_ret keeps_bnd_gives [OF dup] keeps_modify
        shape_upd_proc proc_shape_ofile) simp_all
  have dir: "keeps shape (bnd (idup i) (\<lambda>j. modify (upd_proc np (\<lambda>x. x\<lparr>cwd := Some j\<rparr>))))" if "i < NINODE" for i
    by (rule keeps_bnd_gives [OF gives_idup [OF that]], intro keeps_modify shape_upd_proc) (simp_all add: proc_shape_def)
  show ?thesis unfolding share_files_def
    by (rule keeps_seq, rule keeps_for_each_in, rule copy, simp, rule keeps_bnd_gives [OF gives_cwd [OF cp]],
        intro keeps_seq keeps_option keeps_stuck dir keeps_modify sh.bgs) (simp_all add: harmless_def)
qed

lemma keeps_launch: "keeps shape (launch np)" "keeps shape (abandon np)"
  unfolding launch_def abandon_def by (intro keeps_rules shape_upd_same sh.bg_make_runnable; simp)+

lemma keeps_fork [keeps_rules]: "keeps shape fork"
  unfolding fork_def
  by (rule keeps_curproc_bnd, rule keeps_bnd_gives [OF gives_allocproc],
      intro keeps_rules keeps_share_files keeps_launch shape_upd_proc) (simp_all add: proc_shape_def)

lemma keeps_thread_create [keeps_rules]: "keeps shape (thread_create sp)"
  unfolding thread_create_def Let_def
  by (rule keeps_curproc_bnd, rule keeps_bnd, intro keeps_rules, rule keeps_bnd_gives [OF gives_allocproc],
      intro keeps_rules keeps_share_files keeps_launch shape_upd_proc) (simp_all add: proc_shape_def)

lemma keeps_close_files [keeps_rules]: "keeps shape (close_files cp)"
  unfolding close_files_def by (intro keeps_rules shape_upd_proc proc_shape_ofile) simp_all

lemma keeps_leave_family [keeps_rules]: "keeps shape (leave_family cp)"
  unfolding leave_family_def by (intro keeps_rules shape_upd_proc) (simp_all add: proc_shape_def shape_def)

lemma keeps_exit [keeps_rules]: "keeps shape exit"
  unfolding exit_def by (intro keeps_rules sh.bg_kernel shape_upd_proc) (simp_all add: proc_shape_def)

lemma keeps_reap [keeps_rules]: "keeps shape (reap_child arg p)" "keeps shape (reap_thread cp p)"
  unfolding reap_child_def reap_thread_def
  by (intro keeps_rules shape_upd_proc; simp add: proc_shape_def cleared_def)+

lemma keeps_waits [keeps_rules]: "keeps shape (diagwait n arg)" "keeps shape (wait n)" "keeps shape (thread_join n tid)"
  unfolding wait_def diagwait_def thread_join_def by (intro keeps_rules)+

lemma keeps_proc_syscalls [keeps_rules]:
  "keeps shape sys_fork" "keeps shape sys_exit" "keeps shape sys_diagwait" "keeps shape sys_wait"
  "keeps shape sys_thread_create" "keeps shape sys_thread_join"
  unfolding sys_fork_def sys_exit_def sys_diagwait_def sys_wait_def sys_thread_create_def sys_thread_join_def
  by (intro keeps_rules)+

lemma keeps_syscalls: "f \<in> set (syscalls junk) \<Longrightarrow> keeps shape f"
  unfolding syscalls_def by (auto intro!: keeps_rules simp: keeps_rules)

lemma keeps_syscall [keeps_rules]: "keeps shape (syscall junk)"
  unfolding syscall_def
  by (intro keeps_rules keeps_syscalls [of _ junk] syscall_number shape_upd_same; (assumption | simp))

lemma keeps_trap: "keeps shape (trap junk f)"
  unfolding trap_def exit_killed_def exit_if_killed_def by (intro keeps_rules sh.bgs; simp add: harmless_def)

section \<open>The scheduler\<close>

lemma keeps_sched_choose: "keeps shape (sched_choose c)"
  unfolding sched_choose_def fastrand_def Let_def by (intro keeps_rules sh.bgs; simp)

lemma gives_sched_choose: "gives shape (sched_choose c) (\<lambda>r. \<forall>p q. r = Some (p, q) \<longrightarrow> p < NPROC)"
  unfolding gives_def
proof (intro allI impI)
  fix s :: "'a tstate_scheme" assume s: "shape s"
  then have len: "length (procs s) = NPROC" by (simp add: shape_def)
  show "post shape (\<lambda>_. shape) (sched_choose c s) (\<lambda>r t. shape t \<and> (\<forall>p q. r = Some (p, q) \<longrightarrow> p < NPROC))"
    using post_conj [OF keepsD [OF keeps_sched_choose s] sched_choose_runnable [OF len]]
    by (rule post_mono) (auto simp: runnable_def len)
qed

lemma keeps_sched_run: "p < NPROC \<Longrightarrow> keeps shape (sched_run c p q)"
  unfolding sched_run_def by (intro keeps_rules shape_upd_cpu sh.bg_proc) (simp_all add: harmless_def)

lemma keeps_scheduler: "keeps shape (scheduler n)"
proof -
  have rand: "keeps shape (fastrandSlated x)" for x
    unfolding fastrandSlated_def by (intro keeps_rules sh.bgs)
  have round: "keeps shape (bnd (sched_choose c) (\<lambda>r. seq (case r of Some (p, q) \<Rightarrow> sched_run c p q | None \<Rightarrow> ret ())
      (seq (release PtableLock) (ret (Inl ())))))" for c
    by (rule keeps_bnd_gives [OF gives_sched_choose], intro keeps_rules keeps_sched_run) auto
  show ?thesis unfolding scheduler_def
    by (rule keeps_bnd, intro keeps_rules, rule keeps_seq, intro keeps_rules shape_upd_cpu, assumption, simp, rule keeps_seq,
        intro keeps_rules rand, rule keeps_loop, rule keeps_seq, intro keeps_rules, rule keeps_seq, intro keeps_rules, rule round)
qed

section \<open>The kernel as a whole\<close>


lemma demo_ofile: "x \<in> set demo_table \<Longrightarrow> ofile x = replicate NOFILE None \<and> cwd x = None \<and> parent x = None"
  using set_demo_procs unfolding demo_table_def
  by (auto dest!: subsetD [OF set_update_subset_insert] subsetD [OF set_demo_procs] simp: demo_proc_def blank_proc_def)

lemma demo_shape: "shape demo_kernel" "shape demo_boot"
proof -
  have "proc_shape x" if "x \<in> set demo_table" for x
    using demo_ofile [OF that] by (simp add: proc_shape_def)
  then show k: "shape demo_kernel"
    by (simp add: shape_def demo_defs demo_bufs_def NBUF_def NINODE_def NFILE_def file_shape_def demo_file_def)
  then have "shape (upd_proc 3 (\<lambda>x. x\<lparr>state := RUNNABLE\<rparr>) demo_kernel)" by (rule shape_upd_same) simp
  then show "shape demo_boot" by (simp add: shape_def demo_boot_def upd_proc_def demo_defs)
qed


end
