(* ===== verification/Files.thy ===== *)
theory Files
  imports Shapes
begin

text \<open>
  Reference counts of open files. The count of a file is the number of descriptors that stand for
  it, over all processes, whenever the processor changes hands and whenever a call returns; and a
  file nobody refers to is not marked as an open inode, on which the error paths of
  \<^verbatim>\<open>open\<close> and \<^verbatim>\<open>pipe\<close> rely when they close a file they have just allocated.
\<close>

section \<open>Descriptors that stand for a file\<close>

definition refs :: "nat \<Rightarrow> 'z kstate_scheme \<Rightarrow> int" where
  "refs f s = sum_list (map (\<lambda>x. int (count_list (ofile x) (Some f))) (procs s))"

text \<open>
  A routine may hold references that no descriptor shows yet, or that it has already taken out of
  its descriptor: \<open>X f\<close> of them for file \<open>f\<close>. The files in \<open>D\<close> are known not to be inodes, and
  so are, if \<open>B\<close> is set, all files without references.
\<close>

definition held :: "bool \<Rightarrow> (nat \<Rightarrow> int) \<Rightarrow> nat set \<Rightarrow> 'z tstate_scheme \<Rightarrow> bool" where
  "held B X D s \<longleftrightarrow> shape s \<and>
     (\<forall>f < NFILE. f_ref (ftable s ! f) = refs f s + X f \<and>
        (B \<and> f_ref (ftable s ! f) = 0 \<or> f \<in> D \<longrightarrow> f_type (ftable s ! f) \<noteq> FD_INODE))"

abbreviation refs_ok :: "'z tstate_scheme \<Rightarrow> bool" where
  "refs_ok \<equiv> held False (\<lambda>_. 0) {}"

lemma count_list_set: "d < length xs \<Longrightarrow>
  int (count_list (xs[d := v]) y) = int (count_list xs y) - (if xs ! d = y then 1 else 0) + (if v = y then 1 else 0)"
proof -
  assume d: "d < length xs"
  have "count_list xs y = count_list (take d xs @ xs ! d # drop (Suc d) xs) y" using id_take_nth_drop [OF d] by simp
  then show ?thesis using d by (simp add: upd_conv_take_nth_drop)
qed

lemma refs_upd: "p < length (procs s) \<Longrightarrow> refs f (upd_proc p h s) =
  refs f s - int (count_list (ofile (procs s ! p)) (Some f)) + int (count_list (ofile (h (procs s ! p))) (Some f))"
  unfolding refs_def by (simp add: upd_proc_def sum_list_map_update)

lemma refs_same: "(\<And>x. ofile (h x) = ofile x) \<Longrightarrow> refs f (upd_proc p h s) = refs f s"
  by (cases "p < length (procs s)") (simp add: refs_upd, simp add: upd_proc_def list_update_beyond refs_def)

lemma refs_frame: "procs t = procs s \<Longrightarrow> refs f t = refs f s"
  by (simp add: refs_def)

lemma held_frame:
  "held B X D s \<Longrightarrow> (shape s \<Longrightarrow> shape t) \<Longrightarrow> procs t = procs s \<Longrightarrow> ftable t = ftable s \<Longrightarrow> held B X D t"
  by (simp add: held_def refs_def)

lemma held_proc:
  assumes "held B X D s" "\<And>x. ofile (h x) = ofile x" "shape (upd_proc p h s)"
  shows "held B X D (upd_proc p h s)"
proof -
  have "refs f (upd_proc p h s) = refs f s" for f by (rule refs_same) (rule assms(2))
  moreover have "ftable (upd_proc p h s) = ftable s" by (simp add: upd_proc_def)
  ultimately show ?thesis using assms(1,3) by (simp add: held_def)
qed

lemma procs_upds [simp]:
  "procs (upd_lock l f s1) = procs s1" "procs (upd_cpu c f' s1) = procs s1" "procs (upd_sl k g s2) = procs s2"
  "procs (upd_buf b g' s3) = procs s3" "procs (upd_log h s4) = procs s4" "procs (upd_inode i h' s5) = procs s5"
  "procs (upd_pipe a u s6) = procs s6"
  by (simp_all add: upd_lock_def upd_cpu_def upd_sl_def upd_buf_def upd_log_def upd_inode_def upd_pipe_def)

lemma ftable_upds [simp]:
  "ftable (upd_lock l f s) = ftable s" "ftable (upd_cpu c f' s) = ftable s" "ftable (upd_sl k g s) = ftable s"
  "ftable (upd_buf b g' s) = ftable s" "ftable (upd_log h s) = ftable s" "ftable (upd_inode i h' s) = ftable s"
  "ftable (upd_pipe a u s) = ftable s"
  by (simp_all add: upd_lock_def upd_cpu_def upd_sl_def upd_buf_def upd_log_def upd_inode_def upd_pipe_def)

interpretation hd: input_free "held B X D" for B X D
proof
  fix s :: "'a tstate_scheme" and h p assume s: "held B X D s" "harmless h"
  then have "shape (upd_proc p h s)" using sh.bg_proc [of s h p] by (simp add: held_def)
  then show "held B X D (upd_proc p h s)" using s by (intro held_proc) (auto simp: harmless_def)
next
  fix s :: "'a tstate_scheme" and f8 :: "kfile \<Rightarrow> kfile" and n
  assume s: "held B X D s" "\<And>x. f_ref (f8 x) = f_ref x \<and> f_type (f8 x) = f_type x \<and> f_ip (f8 x) = f_ip x"
  then have "shape (upd_file n f8 s)" using sh.bg_file [of s f8 n] by (simp add: held_def)
  moreover have "f_ref (ftable (upd_file n f8 s) ! f) = f_ref (ftable s ! f)" "f_type (ftable (upd_file n f8 s) ! f) = f_type (ftable s ! f)" for f
    using s(2) by (simp_all add: upd_file_def nth_upd_same)
  moreover have "procs (upd_file n f8 s) = procs s" by (simp add: upd_file_def)
  ultimately show "held B X D (upd_file n f8 s)" using s(1) by (simp add: held_def refs_def)
qed (erule held_frame; auto intro: sh.bgs sh.bg_input)+

section \<open>Routines that move references\<close>

text \<open>
  \<open>moves B X D m Q\<close>: from a state in which \<open>X\<close> is held, \<open>m\<close> returns with a result and an amount held
  that satisfy \<open>Q\<close>, and gives up the processor only while nothing is held.
\<close>

definition moves :: "bool \<Rightarrow> (nat \<Rightarrow> int) \<Rightarrow> nat set \<Rightarrow> ('z tstate_scheme, 'a) routine \<Rightarrow>
    ('a \<Rightarrow> (nat \<Rightarrow> int) \<Rightarrow> nat set \<Rightarrow> bool) \<Rightarrow> bool" where
  "moves B X D m Q \<longleftrightarrow> (\<forall>s. held B X D s \<longrightarrow> post refs_ok (\<lambda>_. refs_ok) (m s) (\<lambda>a t. \<exists>Y E. Q a Y E \<and> held B Y E t))"

lemma movesI: "(\<And>s. held B X D s \<Longrightarrow> post refs_ok (\<lambda>_. refs_ok) (m s) (\<lambda>a t. \<exists>Y E. Q a Y E \<and> held B Y E t)) \<Longrightarrow> moves B X D m Q"
  by (simp add: moves_def)

lemma movesD: "moves B X D m Q \<Longrightarrow> held B X D s \<Longrightarrow> post refs_ok (\<lambda>_. refs_ok) (m s) (\<lambda>a t. \<exists>Y E. Q a Y E \<and> held B Y E t)"
  by (simp add: moves_def)

lemma moves_mono: "moves B X D m Q \<Longrightarrow> (\<And>a Y E. Q a Y E \<Longrightarrow> R a Y E) \<Longrightarrow> moves B X D m R"
  unfolding moves_def by (blast intro: post_mono)

lemma moves_bnd:
  fixes m :: "('z tstate_scheme, 'a) routine"
  assumes "moves B X D m Q" "\<And>a Y E. Q a Y E \<Longrightarrow> moves B Y E (f a) R"
  shows "moves B X D (bnd m f) R"
proof (rule movesI)
  fix s :: "'z tstate_scheme" assume "held B X D s"
  from movesD [OF assms(1) this]
  show "post refs_ok (\<lambda>_. refs_ok) (bnd m f s) (\<lambda>a t. \<exists>Y E. R a Y E \<and> held B Y E t)"
    unfolding bnd_apply post_andthen by (rule post_mono) (use movesD [OF assms(2)] in blast)
qed

lemma moves_seq: "moves B X D m Q \<Longrightarrow> (\<And>a Y E. Q a Y E \<Longrightarrow> moves B Y E n R) \<Longrightarrow> moves B X D (seq m n) R"
  unfolding seq_def by (rule moves_bnd)

text \<open>A routine of the background that does not give up the processor leaves what is held alone.\<close>

definition straight :: "('s, 'a) routine \<Rightarrow> bool" where
  "straight m \<longleftrightarrow> (\<forall>s. post (\<lambda>_. False) (\<lambda>_ _. True) (m s) (\<lambda>_ _. True))"

named_theorems straight_rules \<open>routines that do not give up the processor\<close>

lemma straight_quiet: "quiet m \<Longrightarrow> straight m"
  unfolding quiet_def straight_def by (blast intro: post_mono)

lemma straight_bnd [straight_rules]: "straight m \<Longrightarrow> (\<And>a. straight (f a)) \<Longrightarrow> straight (bnd m f)"
  unfolding straight_def bnd_apply post_andthen by (blast intro: post_mono)

lemma straight_seq [straight_rules]: "straight m \<Longrightarrow> straight n \<Longrightarrow> straight (seq m n)"
  unfolding seq_def by (rule straight_bnd)

lemma straight_basic [straight_rules]: "straight (modify f)" "straight (gets g)" "straight (ret a)"
  by (simp_all add: straight_def)

lemma straight_if [straight_rules]: "straight m \<Longrightarrow> straight n \<Longrightarrow> straight (if b then m else n)"
  by simp

lemma straight_for_each [straight_rules]: "(\<And>x. straight (f x)) \<Longrightarrow> straight (for_each xs f)"
  by (induction xs) (simp_all add: straight_rules del: seq_apply)

lemma straight_keeps: "straight m \<Longrightarrow> keeps I m \<Longrightarrow> I s \<Longrightarrow> post G R (m s) (\<lambda>_. I)"
  unfolding straight_def keeps_def by (drule spec [of _ s], drule spec [of _ s], cases "m s") auto

lemma straight_gives: "straight m \<Longrightarrow> gives I m Q \<Longrightarrow> I s \<Longrightarrow> post G R (m s) (\<lambda>a t. I t \<and> Q a)"
  unfolding straight_def gives_def by (drule spec [of _ s], drule spec [of _ s], cases "m s") auto

lemma straight_locks [straight_rules]: "straight (acquire l)" "straight (release l)" "straight curproc" "straight (kfree a)" "straight kalloc"
  by (rule straight_quiet, intro quiet_rules)+

lemma straight_pipeclose [straight_rules]: "straight (pipeclose a w)"
  unfolding pipeclose_def wakeup_def wakeup1_def by (intro straight_rules)

lemma moves_still: "straight m \<Longrightarrow> keeps (held B X D) m \<Longrightarrow> moves B X D m (\<lambda>_ Y E. Y = X \<and> E = D)"
  by (rule movesI, rule post_mono, erule (2) straight_keeps) blast

lemma moves_bnd_still:
  "straight m \<Longrightarrow> keeps (held B X D) m \<Longrightarrow> (\<And>a. moves B X D (f a) R) \<Longrightarrow> moves B X D (bnd m f) R"
  by (rule moves_bnd [OF moves_still]) auto

lemma moves_seq_still: "straight m \<Longrightarrow> keeps (held B X D) m \<Longrightarrow> moves B X D n R \<Longrightarrow> moves B X D (seq m n) R"
  unfolding seq_def by (rule moves_bnd_still)

lemma moves_settled: "keeps refs_ok m \<Longrightarrow> moves False (\<lambda>_. 0) {} m (\<lambda>_ Y E. Y = (\<lambda>_. 0) \<and> E = {})"
  by (rule movesI, rule post_mono [OF keepsD]) auto

lemma held_forget: "held B X D s \<Longrightarrow> held False X {} s"
  by (auto simp: held_def)

lemma moves_end: "moves B X D m (\<lambda>_ Y E. Y = (\<lambda>_. 0)) \<Longrightarrow> held B X D s \<Longrightarrow> outcome_in refs_ok (m s)"
  by (rule post_mono [OF movesD]) (auto intro: held_forget)

lemma keeps_moves: "moves False (\<lambda>_. 0) {} m (\<lambda>_ Y E. Y = (\<lambda>_. 0)) \<Longrightarrow> keeps refs_ok m"
  by (rule keepsI) (rule moves_end)

lemma moves_ret: "Q a X D \<Longrightarrow> moves B X D (ret a) Q"
  by (auto simp: moves_def)

lemma moves_panic: "moves B X D (panic e) Q"
  by (simp add: moves_def)

lemma moves_if: "(b \<Longrightarrow> moves B X D m Q) \<Longrightarrow> (\<not> b \<Longrightarrow> moves B X D n Q) \<Longrightarrow> moves B X D (if b then m else n) Q"
  by simp

lemma moves_option:
  "(x = None \<Longrightarrow> moves B X D m Q) \<Longrightarrow> (\<And>y. x = Some y \<Longrightarrow> moves B X D (n y) Q) \<Longrightarrow>
   moves B X D (case x of None \<Rightarrow> m | Some y \<Rightarrow> n y) Q"
  by (cases x) auto

text \<open>Looking at the state, and changing it.\<close>

lemma moves_gets: "(\<And>s. held B X D s \<Longrightarrow> Q (g s)) \<Longrightarrow> moves B X D (gets g) (\<lambda>a Y E. Q a \<and> Y = X \<and> E = D)"
  by (simp add: moves_def)

lemma moves_modify: "(\<And>s. held B X D s \<Longrightarrow> held B Y E (f s)) \<Longrightarrow> moves B X D (modify f) (\<lambda>_ Z F. Z = Y \<and> F = E)"
  by (auto simp: moves_def)

lemma modify_moves:
  "held B Y E (f s) \<Longrightarrow> moves B Y E n R \<Longrightarrow> post refs_ok (\<lambda>_. refs_ok) (seq (modify f) n s) (\<lambda>a t. \<exists>Y E. R a Y E \<and> held B Y E t)"
  by (rule post_modify_seq, rule movesD)

section \<open>The table of open files\<close>

lemma held_upd_file:
  assumes "held B X D s" "f < NFILE" "Y = X(f := X f + (f_ref (h (ftable s ! f)) - f_ref (ftable s ! f)))"
    "B \<and> f_ref (h (ftable s ! f)) = 0 \<or> f \<in> E \<longrightarrow> f_type (h (ftable s ! f)) \<noteq> FD_INODE"
    "file_shape (h (ftable s ! f))" "E - {f} \<subseteq> D"
  shows "held B Y E (upd_file f h s)"
proof -
  have "file_shape x" if "x \<in> set ((ftable s)[f := h (ftable s ! f)])" for x
    by (rule set_update_nth [OF _ _ that]) (use assms(1,5) in \<open>auto simp: held_def shape_def\<close>)
  then have "shape (upd_file f h s)" using assms(1) by (simp add: held_def shape_def upd_file_def)
  moreover have "length (ftable s) = NFILE" using assms(1) by (simp add: held_def shape_def)
  ultimately show ?thesis
    using assms by (auto simp: held_def upd_file_def refs_def nth_list_update)
qed

lemma moves_release: "moves B X D (release l) (\<lambda>_ Y E. Y = X \<and> E = D)" "moves B X D (acquire l) (\<lambda>_ Y E. Y = X \<and> E = D)"
  by (intro moves_still straight_rules keeps_rules)+

lemma moves_filealloc: "moves B X D filealloc (\<lambda>r Y E. case r of None \<Rightarrow> Y = X \<and> E = D
  | Some f \<Rightarrow> f < NFILE \<and> Y = X(f := X f + 1) \<and> E = (if B then insert f D else D))"
  unfolding filealloc_def
proof (rule moves_seq_still, intro straight_rules, intro keeps_rules, rule movesI, rule post_gets_bnd)
  fix s :: "'a tstate_scheme" assume s: "held B X D s"
  show "post refs_ok (\<lambda>_. refs_ok) ((case find_idx (\<lambda>x. f_ref x = 0) (ftable s) of
      Some f \<Rightarrow> seq (modify (upd_file f (\<lambda>x. x\<lparr>f_ref := 1\<rparr>))) (seq (release FtableLock) (ret (Some f)))
    | None \<Rightarrow> seq (release FtableLock) (ret None)) s)
    (\<lambda>r t. \<exists>Y E. (case r of None \<Rightarrow> Y = X \<and> E = D | Some f \<Rightarrow> f < NFILE \<and> Y = X(f := X f + 1) \<and> E = (if B then insert f D else D)) \<and> held B Y E t)"
  proof (cases "find_idx (\<lambda>x. f_ref x = 0) (ftable s)")
    case None
    show ?thesis unfolding None option.case
      by (rule movesD [OF _ s]) (intro moves_seq [OF moves_release(1)] moves_ret, simp)
  next
    case (Some f)
    then have f: "f < NFILE" "f_ref (ftable s ! f) = 0" using s by (auto simp: held_def shape_def dest: find_idx_SomeD)
    then have "f_type (ftable s ! f) \<noteq> FD_INODE \<or> \<not> B \<and> f \<notin> D" "file_shape (ftable s ! f)" using s by (auto simp: held_def shape_def)
    then have "held B (X(f := X f + 1)) (if B then insert f D else D) (upd_file f (\<lambda>x. x\<lparr>f_ref := 1\<rparr>) s)"
      using f by (intro held_upd_file [OF s]) (auto simp: file_shape_def)
    then show ?thesis unfolding Some option.case
      by (rule modify_moves) (intro moves_seq [OF moves_release(1)] moves_ret, use f in \<open>simp add: fun_upd_def\<close>)
  qed
qed

lemma moves_filedup: "f < NFILE \<Longrightarrow> moves B X D (filedup f) (\<lambda>g Y E. g = f \<and> Y = X(f := X f + 1) \<and> E = D)"
  unfolding filedup_def
proof (rule moves_seq_still, intro straight_rules, intro keeps_rules, rule movesI, rule post_gets_bnd, rule post_if, rule post_panic)
  fix s :: "'a tstate_scheme" assume f: "f < NFILE" and s: "held B X D s" and r: "\<not> f_ref (ftable s ! f) < 1"
  have "file_shape (ftable s ! f)" using s f by (simp add: held_def shape_def)
  then have "held B (X(f := X f + 1)) D (upd_file f (\<lambda>x. x\<lparr>f_ref := f_ref x + 1\<rparr>) s)"
    using s f r by (intro held_upd_file [OF s]) (auto simp: file_shape_def held_def)
  then show "post refs_ok (\<lambda>_. refs_ok) (seq (modify (upd_file f (\<lambda>x. x\<lparr>f_ref := f_ref x + 1\<rparr>))) (seq (release FtableLock) (ret f)) s)
     (\<lambda>g t. \<exists>Y E. (g = f \<and> Y = X(f := X f + 1) \<and> E = D) \<and> held B Y E t)"
    by (rule modify_moves) (intro moves_seq [OF moves_release(1)] moves_ret, simp add: fun_upd_def)
qed

section \<open>Descriptors\<close>

lemma held_upd_fd:
  assumes "held B X D s" "p < NPROC" "d < NOFILE" "points NFILE v"
    "Y = (\<lambda>g. X g + (if ofile (procs s ! p) ! d = Some g then 1 else 0) - (if v = Some g then 1 else 0))"
  shows "held B Y D (upd_proc p (\<lambda>x. x\<lparr>ofile := (ofile x)[d := v]\<rparr>) s)"
proof -
  have s: "shape s" "length (procs s) = NPROC" using assms(1) by (simp_all add: held_def shape_def)
  then have "shape (upd_proc p (\<lambda>x. x\<lparr>ofile := (ofile x)[d := v]\<rparr>) s)"
    using assms(4) by (intro shape_upd_proc proc_shape_ofile)
  moreover have "length (ofile (procs s ! p)) = NOFILE" using shape_procD [OF s(1) assms(2)] by (simp add: proc_shape_def)
  then have "refs f (upd_proc p (\<lambda>x. x\<lparr>ofile := (ofile x)[d := v]\<rparr>) s) =
      refs f s - (if ofile (procs s ! p) ! d = Some f then 1 else 0) + (if v = Some f then 1 else 0)" for f
    using assms(2,3) s(2) by (simp add: refs_upd count_list_set)
  moreover have "ftable (upd_proc p (\<lambda>x. x\<lparr>ofile := (ofile x)[d := v]\<rparr>) s) = ftable s" by (simp add: upd_proc_def)
  ultimately show ?thesis using assms(1,5) by (simp add: held_def)
qed

lemma moves_curproc: "moves B X D curproc (\<lambda>p Y E. p < NPROC \<and> Y = X \<and> E = D)"
proof (rule movesI)
  fix s :: "'a tstate_scheme" assume s: "held B X D s"
  then have "shape s" by (simp add: held_def)
  from post_conj [OF straight_gives [OF straight_locks(3) gives_curproc this] straight_keeps [OF straight_locks(3) hd.keeps_curproc(1) s]]
  show "post refs_ok (\<lambda>_. refs_ok) (curproc s) (\<lambda>p t. \<exists>Y E. (p < NPROC \<and> Y = X \<and> E = D) \<and> held B Y E t)"
    by (rule post_mono) blast
qed

section \<open>Closing\<close>

lemma upd_file_twice: "f < length (ftable s) \<Longrightarrow> upd_file f h (upd_file f g s) = upd_file f (\<lambda>x. h (g x)) s"
  by (simp add: upd_file_def)

text \<open>Giving up a reference. While other references are held the file must not be an inode; then closing it
  does not sleep.\<close>

lemma moves_last_close:
  assumes "ty \<noteq> FD_INODE \<or> X = (\<lambda>_. 0) \<and> D = {} \<and> \<not> B"
  shows "moves B X D (if ty = FD_PIPE then pipeclose a w else if ty = FD_INODE then seq begin_op (seq (iput i) end_op) else ret ())
    (\<lambda>_ Y E. Y = X \<and> E = D)"
proof (cases "ty = FD_INODE")
  case True
  then have "X = (\<lambda>_. 0)" "D = {}" "B = False" using assms by auto
  then show ?thesis by (simp only:) (intro moves_settled keeps_rules)
next
  case False
  then show ?thesis by (cases ty) (simp_all, (intro moves_still straight_rules keeps_rules)+)
qed

lemma moves_fileclose:
  assumes "f < NFILE" "f \<in> D \<or> X = (\<lambda>_. 0)(f := 1) \<and> D = {} \<and> \<not> B"
  shows "moves B X D (fileclose f) (\<lambda>_ Y E. Y = X(f := X f - 1) \<and> E = D)"
  unfolding fileclose_def
proof (rule moves_seq_still, intro straight_rules, intro keeps_rules, rule movesI, rule post_gets_bnd, rule post_if, rule post_panic,
    rule post_modify_seq, rule post_gets_bnd, rule post_if)
  let ?Y = "X(f := X f - 1)"
  fix s :: "'a tstate_scheme" assume s: "held B X D s" and r: "\<not> f_ref (ftable s ! f) < 1"
  let ?s = "upd_file f (\<lambda>x. x\<lparr>f_ref := f_ref x - 1\<rparr>) s"
  let ?Q = "\<lambda>a t. \<exists>Y E. (Y = ?Y \<and> E = D) \<and> held B Y E t"
  have len: "length (ftable s) = NFILE" and shp: "file_shape (ftable s ! f)" using s assms(1) by (simp_all add: held_def shape_def)
  have ff: "ftable ?s ! f = (ftable s ! f)\<lparr>f_ref := f_ref (ftable s ! f) - 1\<rparr>" using len assms(1) by (simp add: upd_file_def)
  {
    assume "0 < f_ref (ftable ?s ! f)"
    then have "held B ?Y D ?s"
      using s assms(1) ff shp by (intro held_upd_file [OF s]) (auto simp: file_shape_def held_def)
    then show "post refs_ok (\<lambda>_. refs_ok) (release FtableLock ?s) ?Q" by (rule movesD [OF moves_release(1)])
  next
    assume "\<not> 0 < f_ref (ftable ?s ! f)"
    then have one: "f_ref (ftable s ! f) = 1" using r ff by simp
    have gone: "held B ?Y D (upd_file f (\<lambda>x. x\<lparr>f_ref := 0, f_type := FD_NONE\<rparr>) ?s)"
      using s assms(1) one len by (subst upd_file_twice) (auto intro!: held_upd_file [OF s] simp: file_shape_def)
    have ty: "f_type (ftable ?s ! f) \<noteq> FD_INODE \<or> ?Y = (\<lambda>_. 0) \<and> D = {} \<and> \<not> B"
      using s assms ff by (auto simp: held_def)
    show "post refs_ok (\<lambda>_. refs_ok) (seq (modify (upd_file f (\<lambda>x. x\<lparr>f_ref := 0, f_type := FD_NONE\<rparr>)))
        (seq (release FtableLock) (if f_type (ftable ?s ! f) = FD_PIPE then pipeclose (f_pipe (ftable ?s ! f)) (f_writable (ftable ?s ! f))
          else if f_type (ftable ?s ! f) = FD_INODE then seq begin_op (seq (iput (f_ip (ftable ?s ! f))) end_op) else ret ())) ?s) ?Q"
      by (rule modify_moves, rule gone, rule moves_seq_still, intro straight_rules, intro keeps_rules, rule moves_last_close [OF ty])
  }
qed

section \<open>The calls on descriptors\<close>

lemma post_curproc_held:
  assumes "cur s = Some p" "held B X D s" "\<And>t. pview t = pview s \<Longrightarrow> held B X D t \<Longrightarrow> post G R (f p t) Q"
  shows "post G R (bnd curproc f s) Q"
proof -
  have "post G R (curproc s) (\<lambda>a t. a = p \<and> pview t = pview s)"
    using post_curproc_bnd [OF assms(1), of G R ret "\<lambda>a t. a = p \<and> pview t = pview s"] by (simp add: andthen_ret)
  from post_conj [OF this straight_keeps [OF straight_locks(3) hd.keeps_curproc(1) assms(2)]]
  show ?thesis unfolding bnd_apply post_andthen by (rule post_mono) (use assms(3) in blast)
qed

lemma descriptor_range: "\<not> (sint fd < 0 \<or> int NOFILE \<le> sint fd) \<Longrightarrow> unat fd < NOFILE" for fd :: u32
proof -
  assume r: "\<not> (sint fd < 0 \<or> int NOFILE \<le> sint fd)"
  then have "unat fd < 2147483648" using sint_neg_iff [of fd] by linarith
  from sint_nonneg [OF this] have "int (unat fd) < int NOFILE" using r by linarith
  then show ?thesis by (simp only: of_nat_less_iff)
qed

lemma post_no_curproc: "cur s = None \<Longrightarrow> post G R (bnd curproc f s) Q"
  unfolding curproc_def bnd_assoc bnd_apply [of myproc] post_andthen
  by (rule post_mono [OF myproc_cur]) simp

lemma held_cur: "held B X D s \<Longrightarrow> cur s = Some p \<Longrightarrow> p < NPROC"
  using this_cpu_bound [of s] by (auto simp: held_def shape_def cur_def points_def split: option.splits)

lemma held_fd: "held B X D s \<Longrightarrow> p < NPROC \<Longrightarrow> d < NOFILE \<Longrightarrow> ofile (procs s ! p) ! d = Some f \<Longrightarrow> f < NFILE"
  using proc_shape_fd [OF shape_procD, of s p d] by (simp add: held_def)

lemma fdalloc_post:
  assumes "held B X D s" "f < NFILE"
  shows "post G R (fdalloc f s) (\<lambda>r t. \<exists>p < NPROC. cur s = Some p \<and> cur t = Some p \<and> (case r of
      None \<Rightarrow> held B X D t \<and> procs t = procs s
    | Some d \<Rightarrow> d < NOFILE \<and> held B (X(f := X f - 1)) D t \<and> ofile (procs t ! p) ! d = Some f))"
proof (cases "cur s")
  case None
  then show ?thesis unfolding fdalloc_def by (rule post_no_curproc)
next
  case (Some p)
  have p: "p < NPROC" using held_cur [OF assms(1) Some] .
  show ?thesis unfolding fdalloc_def
  proof (rule post_curproc_held [OF Some assms(1)], rule post_gets_bnd, goal_cases)
    case (1 t)
    have t: "cur t = Some p" "procs t = procs s" using pview_cur [OF 1(1)] pview_procs(1) [OF 1(1)] Some by simp_all
    have ps: "proc_shape (procs t ! p)" "length (procs t) = NPROC" using 1(2) p by (auto intro: shape_procD simp: held_def shape_def)
    show ?case
    proof (cases "find_idx (\<lambda>x. x = None) (take NOFILE (ofile (procs t ! p)))")
      case None
      then show ?thesis using 1(2) t p Some by auto
    next
      case (Some d)
      then have d: "d < NOFILE" "ofile (procs t ! p) ! d = None"
        using find_idx_SomeD [OF Some] ps by (simp_all add: proc_shape_def)
      then have "held B (X(f := X f - 1)) D (upd_proc p (\<lambda>x. x\<lparr>ofile := (ofile x)[d := Some f]\<rparr>) t)"
        using p assms(2) by (intro held_upd_fd [OF 1(2)]) (auto simp: fun_eq_iff)
      then show ?thesis using Some d p t ps \<open>cur s = Some p\<close> by (auto simp: proc_shape_def)
    qed
  qed
qed

lemma moves_fdalloc:
  assumes "f < NFILE"
  shows "moves B X D (fdalloc f) (\<lambda>r Y E. E = D \<and> (case r of None \<Rightarrow> Y = X | Some d \<Rightarrow> Y = X(f := X f - 1)))"
  by (rule movesI, rule post_mono [OF fdalloc_post [OF _ assms]]) (auto split: option.splits)

lemma argfd_post:
  assumes "held B X D s"
  shows "post G R (argfd n s) (\<lambda>a t. held B X D t \<and> (\<forall>fd f. a = Some (fd, f) \<longrightarrow> fd < NOFILE \<and> f < NFILE \<and>
    (\<exists>p < NPROC. cur t = Some p \<and> ofile (procs t ! p) ! fd = Some f)))"
proof -
  have arg: "post G R (argint n s) (\<lambda>_. held B X D)"
    by (rule straight_keeps [OF straight_quiet hd.keeps_args(3) assms]) (intro quiet_rules)
  have own: "post G R (bnd curproc (\<lambda>p. bnd (gets (\<lambda>s. ofile (procs s ! p) ! unat fd)) (\<lambda>f. ret (map_option (\<lambda>f. (unat fd, f)) f))) u)
     (\<lambda>a t. held B X D t \<and> (\<forall>fd f. a = Some (fd, f) \<longrightarrow> fd < NOFILE \<and> f < NFILE \<and>
       (\<exists>p < NPROC. cur t = Some p \<and> ofile (procs t ! p) ! fd = Some f)))"
    if u: "held B X D u" and fd: "unat fd < NOFILE" for u and fd :: u32
  proof (cases "cur u")
    case None
    then show ?thesis by (rule post_no_curproc)
  next
    case (Some p)
    show ?thesis
    proof (rule post_curproc_held [OF Some u], goal_cases)
      case (1 t)
      have "cur t = Some p" using pview_cur [OF 1(1)] Some by simp
      then show ?case using 1(2) fd held_cur [OF u Some] held_fd [OF 1(2), of p "unat fd"] by auto
    qed
  qed
  show ?thesis unfolding argfd_def bnd_apply [of "argint n"] post_andthen
  proof (rule post_mono [OF arg], goal_cases)
    case (1 a t)
    show ?case
    proof (cases a)
      case (Some fd)
      show ?thesis unfolding Some option.case using 1 by (intro post_if own descriptor_range) simp_all
    qed (use 1 in simp)
  qed
qed

lemma moves_argfd: "moves B X D (argfd n) (\<lambda>a Y E. (\<forall>fd f. a = Some (fd, f) \<longrightarrow> f < NFILE) \<and> Y = X \<and> E = D)"
  by (rule movesI, rule post_mono [OF argfd_post]) blast+

lemma keeps_dup: "keeps refs_ok sys_dup"
  unfolding sys_dup_def
proof (rule keeps_moves, rule moves_bnd [OF moves_argfd], goal_cases)
  case (1 a Y E)
  then show ?case
    by (cases a) (auto intro!: moves_ret moves_bnd [OF moves_fdalloc] moves_seq [OF moves_filedup] moves_option)
qed

lemma keeps_close: "keeps refs_ok sys_close"
proof (rule keepsI)
  fix s :: "'a tstate_scheme" assume "refs_ok s"
  from argfd_post [OF this] show "outcome_in refs_ok (sys_close s)"
    unfolding sys_close_def bnd_apply [of "argfd 0"] post_andthen
  proof (rule post_mono, goal_cases)
    case (1 a t)
    show ?case
    proof (cases a)
      case None
      then show ?thesis using 1 by simp
    next
      case (Some x)
      obtain fd f where x: "x = (fd, f)" by fastforce
      then obtain p where fd: "fd < NOFILE" "f < NFILE" and p: "p < NPROC" "cur t = Some p" "ofile (procs t ! p) ! fd = Some f"
        using 1 Some by blast
      have "post refs_ok (\<lambda>_. refs_ok) (seq (modify (upd_proc p (\<lambda>x. x\<lparr>ofile := (ofile x)[fd := None]\<rparr>))) (seq (fileclose f) (ret 0)) u)
          (\<lambda>_ t. \<exists>Y E. (Y = (\<lambda>_. 0) \<and> E = {}) \<and> held False Y E t)" if "pview u = pview t" "refs_ok u" for u
      proof (rule modify_moves [of _ "(\<lambda>_. 0)(f := 1)" "{}"])
        show "held False ((\<lambda>_. 0)(f := 1)) {} (upd_proc p (\<lambda>x. x\<lparr>ofile := (ofile x)[fd := None]\<rparr>) u)"
          using fd p pview_procs(1) [OF that(1)] by (intro held_upd_fd [OF that(2)]) (auto simp: fun_eq_iff)
        show "moves False ((\<lambda>_. 0)(f := 1)) {} (seq (fileclose f) (ret 0)) (\<lambda>_ Y E. Y = (\<lambda>_. 0) \<and> E = {})"
          using fd by (auto intro!: moves_seq [OF moves_fileclose] moves_ret)
      qed
      then show ?thesis unfolding Some x option.case prod.case
        using 1 by (intro post_curproc_held [OF p(2)]) auto
    qed
  qed
qed

lemma post_both: "post G R r P \<Longrightarrow> post G' R' r Q \<Longrightarrow> (\<And>t u. R t u \<Longrightarrow> R' t u) \<Longrightarrow> post G R r (\<lambda>a t. P a t \<and> Q a t)"
  by (induction r) auto

lemma moves_open_inode: "moves False (\<lambda>_. 0) {} (open_inode path mode) (\<lambda>r Y E. points NINODE r \<and> Y = (\<lambda>_. 0) \<and> E = {})"
proof (rule movesI)
  fix s :: "'a tstate_scheme" assume s: "refs_ok s"
  then have "shape s" by (simp add: held_def)
  then have "post shape (\<lambda>_. shape) (open_inode path mode s) (\<lambda>r t. shape t \<and> points NINODE r)"
    by (rule givesD [OF gives_open_inode])
  from post_both [OF keepsD [OF hd.keeps_creation(2) s] this, unfolded held_def]
  show "post refs_ok (\<lambda>_. refs_ok) (open_inode path mode s) (\<lambda>r t. \<exists>Y E. (points NINODE r \<and> Y = (\<lambda>_. 0) \<and> E = {}) \<and> held False Y E t)"
    unfolding held_def by (rule post_mono) auto
qed

lemma moves_install:
  assumes "f < NFILE" "ip < NINODE"
  shows "moves False (\<lambda>_. 0) {} (modify (upd_file f (\<lambda>x. x\<lparr>f_type := FD_INODE, f_ip := ip, f_off := 0, f_readable := b, f_writable := c\<rparr>)))
    (\<lambda>_ Y E. Y = (\<lambda>_. 0) \<and> E = {})"
  by (rule moves_modify) (use assms in \<open>auto intro!: held_upd_file simp: file_shape_def fun_eq_iff\<close>)

lemma moves_new_fd:
  assumes "f < NFILE" "X f = 1"
  shows "moves B X D (bnd (fdalloc f) (\<lambda>fd. ret (map_option (\<lambda>d. (f, d)) fd)))
    (\<lambda>r Y E. E = D \<and> (case r of None \<Rightarrow> Y = X | Some (g, d) \<Rightarrow> g = f \<and> Y = X(f := 0)))"
  by (rule moves_bnd [OF moves_fdalloc [OF assms(1)]], rule moves_ret) (use assms(2) in \<open>auto split: option.splits\<close>)

lemma zero_upd [simp]: "(\<lambda>_. c)(f := c) = (\<lambda>_. c)"
  by auto

lemma moves_alloc_fd:
  assumes K: "moves False (\<lambda>_. 0) {} K (\<lambda>_ Y E. Y = (\<lambda>_. 0))"
    and L: "\<And>f fd. f < NFILE \<Longrightarrow> moves False (\<lambda>_. 0) {} (L f fd) (\<lambda>_ Y E. Y = (\<lambda>_. 0))"
  shows "moves False (\<lambda>_. 0) {} (bnd filealloc (\<lambda>f0.
      bnd (case f0 of None \<Rightarrow> ret None | Some f \<Rightarrow> bnd (fdalloc f) (\<lambda>fd. ret (map_option (\<lambda>d. (f, d)) fd))) (\<lambda>fd0.
      case fd0 of None \<Rightarrow> seq (case f0 of None \<Rightarrow> ret () | Some f \<Rightarrow> fileclose f) K | Some (f, fd) \<Rightarrow> L f fd)))
    (\<lambda>_ Y E. Y = (\<lambda>_. 0))"
proof (rule moves_bnd [OF moves_filealloc], goal_cases)
  case (1 f0 Y E)
  show ?case
  proof (cases f0)
    case None
    then have "Y = (\<lambda>_. 0)" "E = {}" using 1 by simp_all
    then show ?thesis using None K by (simp add: bnd_def)
  next
    case (Some f)
    then have f: "f < NFILE" and Y: "Y = (\<lambda>_. 0)(f := 1)" and E: "E = {}" using 1 by simp_all
    have close: "moves False ((\<lambda>_. 0)(f := 1)) {} (seq (fileclose f) K) (\<lambda>_ Y E. Y = (\<lambda>_. 0))"
      using K f by (auto intro!: moves_seq [OF moves_fileclose])
    show ?thesis unfolding Some option.case Y E
      by (rule moves_bnd [OF moves_new_fd]) (use f close L in \<open>auto split: option.splits\<close>)
  qed
qed

lemma keeps_do_open_refs: "keeps refs_ok (do_open path mode)"
proof -
  have fail: "moves False (\<lambda>_. 0) {} (seq (iunlockput ip) (seq end_op (ret (- 1)))) (\<lambda>_ Y E. Y = (\<lambda>_. 0))" for ip
    by (rule moves_mono, rule moves_settled, intro keeps_rules) simp
  have ok: "moves False (\<lambda>_. 0) {} (seq (iunlock ip) (seq end_op (seq (modify (upd_file f (\<lambda>x. x\<lparr>f_type := FD_INODE, f_ip := ip,
      f_off := 0, f_readable := b, f_writable := c\<rparr>))) (ret (of_nat fd))))) (\<lambda>_ Y E. Y = (\<lambda>_. 0))"
    if "f < NFILE" "ip < NINODE" for f ip b c fd
    by (rule moves_seq [OF moves_settled], intro keeps_rules, simp, rule moves_seq [OF moves_settled], intro keeps_rules, simp,
        rule moves_seq [OF moves_install [OF that]], simp, rule moves_ret, simp)
  show ?thesis unfolding do_open_def
  proof (rule keeps_moves, rule moves_seq [OF moves_settled [OF hd.keeps_log(3)]], goal_cases)
    case (1 a Y E)
    then have Y: "Y = (\<lambda>_. 0)" "E = {}" by simp_all
    show ?case unfolding Y
    proof (rule moves_bnd [OF moves_open_inode], goal_cases)
      case (1 r Y E)
      then have Y: "Y = (\<lambda>_. 0)" "E = {}" and r: "points NINODE r" by simp_all
      show ?case
      proof (cases r)
        case None
        show ?thesis unfolding None option.case Y by (rule moves_mono, rule moves_settled, intro keeps_rules) simp
      next
        case (Some ip)
        then have "ip < NINODE" using r by simp
        then show ?thesis unfolding Some option.case Y by (intro moves_alloc_fd fail ok)
      qed
    qed
  qed
qed

lemma keeps_open: "keeps refs_ok sys_open"
  unfolding sys_open_def by (intro keeps_rules keeps_do_open_refs)

subsection \<open>pipe\<close>

text \<open>The references of a list of files.\<close>

definition tally :: "nat list \<Rightarrow> nat \<Rightarrow> int" where
  "tally fs f = int (count_list fs f)"

lemma tally_simps [simp]: "tally [] = (\<lambda>_. 0)" "(tally fs)(f := tally fs f + 1) = tally (f # fs)"
  "(tally (f # fs))(f := tally (f # fs) f - 1) = tally fs"
  by (auto simp: tally_def fun_eq_iff)

lemma tally_swap: "tally (a # b # fs) = tally (b # a # fs)"
  by (auto simp: tally_def fun_eq_iff)

lemma seq_skip: "seq (ret a) m = m"
  by (simp add: fun_eq_iff)

lemma moves_close_fresh:
  "f < NFILE \<Longrightarrow> f \<in> D \<Longrightarrow> moves B (tally (f # fs)) D (fileclose f) (\<lambda>_ Y E. Y = tally fs \<and> E = D)"
  using moves_fileclose [of f D "tally (f # fs)" B] by simp

lemma moves_alloc_fresh: "moves True (tally fs) D filealloc (\<lambda>r Y E. case r of None \<Rightarrow> Y = tally fs \<and> E = D
  | Some f \<Rightarrow> f < NFILE \<and> Y = tally (f # fs) \<and> E = insert f D)"
  using moves_filealloc [of True "tally fs" D] by (simp add: fun_upd_def [symmetric] cong: option.case_cong)

lemma moves_mark_pipe:
  assumes "f < NFILE"
  shows "moves B X D (modify (upd_file f (\<lambda>x. x\<lparr>f_type := FD_PIPE, f_readable := r, f_writable := w, f_pipe := p\<rparr>))) (\<lambda>_ Y E. Y = X \<and> E = D)"
  by (rule moves_modify) (use assms in \<open>auto intro!: held_upd_file simp: file_shape_def fun_eq_iff\<close>)

lemma moves_pipealloc: "moves True (\<lambda>_. 0) {} pipealloc (\<lambda>r Y E. case r of None \<Rightarrow> Y = (\<lambda>_. 0)
  | Some (a, b) \<Rightarrow> a < NFILE \<and> b < NFILE \<and> Y = tally [b, a] \<and> a \<in> E \<and> b \<in> E)" (is "moves _ _ _ _ ?Q")
proof -
  have bad: "moves True (tally [b, a]) {b, a} (pipe_bad (Some a) (Some b)) ?Q" if "a < NFILE" "b < NFILE" for a b
    unfolding pipe_bad_def option.case tally_swap [of b a]
    by (rule moves_seq [OF moves_close_fresh], use that in simp, simp, simp, rule moves_seq [OF moves_close_fresh], use that in simp, simp,
        rule moves_ret, simp)
  have bad1: "moves True (tally [a]) {a} (pipe_bad (Some a) None) ?Q" if "a < NFILE" for a
    unfolding pipe_bad_def option.case seq_skip
    by (rule moves_seq [OF moves_close_fresh], use that in simp, simp, simp, rule moves_ret, simp)
  have good: "moves True (tally [b, a]) {b, a} (seq (modify (upd_pipe p x)) (seq (initlock (PipeLock p) nm) (
      seq (modify (upd_file a (\<lambda>x. x\<lparr>f_type := FD_PIPE, f_readable := True, f_writable := False, f_pipe := p\<rparr>))) (
      seq (modify (upd_file b (\<lambda>x. x\<lparr>f_type := FD_PIPE, f_readable := False, f_writable := True, f_pipe := p\<rparr>)))
        (ret (Some (a, b))))))) ?Q" if "a < NFILE" "b < NFILE" for a b p x nm
    by (rule moves_seq_still, intro straight_rules, intro keeps_rules hd.bgs, assumption, rule moves_seq_still,
        rule straight_quiet, intro quiet_rules, intro keeps_rules,
        rule moves_seq [OF moves_mark_pipe [OF that(1)]], simp only:, rule moves_seq [OF moves_mark_pipe [OF that(2)]], simp only:,
        rule moves_ret) (use that in simp)
  show ?thesis unfolding pipealloc_def
  proof (rule moves_bnd [OF moves_alloc_fresh [of "[]", simplified]], goal_cases)
    case (1 f0 Y E)
    show ?case
    proof (cases f0)
      case None
      then show ?thesis using 1 by (simp add: pipe_bad_def seq_skip moves_ret)
    next
      case (Some a)
      then have a: "a < NFILE" "Y = tally [a]" "E = {a}" using 1 by simp_all
      show ?thesis unfolding Some option.case a(2,3)
      proof (rule moves_bnd [OF moves_alloc_fresh], goal_cases)
        case (1 f1 Y E)
        show ?case
        proof (cases f1)
          case None
          then show ?thesis using 1 a(1) bad1 by simp
        next
          case (Some b)
          then have b: "b < NFILE" "Y = tally [b, a]" "E = {b, a}" using 1 by simp_all
          show ?thesis unfolding Some option.case b(2,3)
            by (rule moves_bnd_still, intro straight_rules, intro keeps_rules, rule moves_if, rule bad [OF a(1) b(1)], rule good [OF a(1) b(1)])
        qed
      qed
    qed
  qed
qed

lemma close_both:
  assumes "held True (tally [wr, rd]) E s" "rd < NFILE" "wr < NFILE" "rd \<in> E" "wr \<in> E"
  shows "outcome_in refs_ok (seq (fileclose rd) (seq (fileclose wr) (ret (- 1 :: u32))) s)"
proof (rule moves_end)
  show "moves True (tally [rd, wr]) E (seq (fileclose rd) (seq (fileclose wr) (ret (- 1 :: u32)))) (\<lambda>_ Y E. Y = (\<lambda>_. 0))"
    by (rule moves_seq [OF moves_close_fresh], use assms in simp, use assms in simp, simp only:, rule moves_seq [OF moves_close_fresh],
        use assms in simp, use assms in simp, rule moves_ret, simp)
qed (use assms(1) tally_swap [of rd wr] in simp)

lemma pipe_fds:
  assumes "held True (tally [wr, rd]) E s" "rd < NFILE" "wr < NFILE" "rd \<in> E" "wr \<in> E"
  shows "outcome_in refs_ok (bnd (fdalloc rd) (\<lambda>fd0. bnd (case fd0 of None \<Rightarrow> ret None | Some _ \<Rightarrow> fdalloc wr) (\<lambda>fd1.
     case fd1 of
       None \<Rightarrow> seq (case fd0 of None \<Rightarrow> ret () | Some d \<Rightarrow> bnd curproc (\<lambda>p. modify (upd_proc p (\<lambda>x. x\<lparr>ofile := (ofile x)[d := None]\<rparr>))))
           (seq (fileclose rd) (seq (fileclose wr) (ret (- 1 :: u32))))
     | Some d1 \<Rightarrow> seq (store32 a (of_nat (the fd0))) (seq (store32 (a + 4) (of_nat d1)) (ret 0)))) s)"
  unfolding bnd_apply [of "fdalloc rd"] post_andthen
proof (rule post_mono [OF fdalloc_post [OF assms(1,2)]], goal_cases)
  case (1 fd0 t)
  then obtain p where p: "p < NPROC" "cur t = Some p" and fd0: "case fd0 of None \<Rightarrow> held True (tally [wr, rd]) E t \<and> procs t = procs s
    | Some d \<Rightarrow> d < NOFILE \<and> held True ((tally [wr, rd])(rd := tally [wr, rd] rd - 1)) E t \<and> ofile (procs t ! p) ! d = Some rd" by blast
  show ?case
  proof (cases fd0)
    case None
    then show ?thesis using close_both [of wr rd E t] fd0 assms(2-) by (simp del: seq_apply add: seq_skip)
  next
    case (Some d)
    then have d: "d < NOFILE" "held True (tally [wr]) E t" "ofile (procs t ! p) ! d = Some rd"
      using fd0 tally_swap [of wr rd "[]"] by simp_all
    show ?thesis unfolding Some option.case bnd_apply [of "fdalloc wr"] post_andthen
    proof (rule post_mono [OF fdalloc_post [OF d(2) assms(3)]], goal_cases)
      case (1 fd1 u)
      then have cu: "cur u = Some p" using p by auto
      show ?case
      proof (cases fd1)
        case None
        then have u: "held True (tally [wr]) E u" "procs u = procs t" using 1 by auto
        show ?thesis unfolding None option.case seq_bnd_assoc
        proof (rule post_curproc_held [OF cu u(1)], rule post_modify_seq, rule close_both [where E = E], goal_cases)
          case (1 v)
          then show ?case using d p u pview_procs(1) [OF 1(1)]
            by (intro held_upd_fd [OF 1(2)]) (auto simp: tally_def fun_eq_iff)
        qed (use assms in simp_all)
      next
        case (Some d1)
        then have u: "held True (\<lambda>_. 0) E u" using 1 by auto
        show ?thesis unfolding Some option.case
          by (rule moves_end [OF _ u], (rule moves_seq_still, rule straight_quiet, intro quiet_rules, intro keeps_rules)+, rule moves_ret, simp)
      qed
    qed
  qed
qed

lemma pipe_refs: "held True (\<lambda>_. 0) {} s \<Longrightarrow> outcome_in refs_ok (sys_pipe s)"
proof -
  assume s: "held True (\<lambda>_. 0) {} s"
  have arg: "straight (argptr 0 8)" by (rule straight_quiet, intro quiet_rules)
  show ?thesis unfolding sys_pipe_def bnd_apply [of "argptr 0 8"] post_andthen
  proof (rule post_mono [OF straight_keeps [OF arg hd.keeps_args(4) s]], goal_cases)
    case (1 a t)
    show ?case
    proof (cases a)
      case None
      then show ?thesis using held_forget [OF 1] by simp
    next
      case (Some fd)
      show ?thesis unfolding Some option.case bnd_apply [of pipealloc] post_andthen
      proof (rule post_mono [OF movesD [OF moves_pipealloc 1]], goal_cases)
        case (1 r t)
        then show ?case by (cases r) (auto simp del: bnd_apply intro!: pipe_fds held_forget)
      qed
    qed
  qed
qed

subsection \<open>fork and thread\_create\<close>

text \<open>Copying the descriptors into a slot that has none.\<close>

lemma copy_one:
  assumes "cp < NPROC" "np < NPROC" "i < NOFILE" "held B (\<lambda>_. 0) D s" "ofile (procs s ! np) ! i = None"
  shows "post refs_ok (\<lambda>_. refs_ok) (bnd (gets (\<lambda>s. ofile (procs s ! cp) ! i)) (\<lambda>f. case f of None \<Rightarrow> ret ()
      | Some f \<Rightarrow> bnd (filedup f) (\<lambda>g. modify (upd_proc np (\<lambda>x. x\<lparr>ofile := (ofile x)[i := Some g]\<rparr>)))) s)
    (\<lambda>_ t. held B (\<lambda>_. 0) D t \<and> (\<forall>j. j \<noteq> i \<longrightarrow> ofile (procs t ! np) ! j = ofile (procs s ! np) ! j))"
proof (rule post_gets_bnd, cases "ofile (procs s ! cp) ! i")
  case (Some f)
  then have f: "f < NFILE" using held_fd [OF assms(4,1,3)] by blast
  note dup = post_conj [OF movesD [OF moves_filedup [OF f] assms(4)] quietD [OF quiet_filedup, of s "\<lambda>_ t. pview t = pview s" _ _ f]]
  show "post refs_ok (\<lambda>_. refs_ok) ((case ofile (procs s ! cp) ! i of None \<Rightarrow> ret () | Some f \<Rightarrow>
      bnd (filedup f) (\<lambda>g. modify (upd_proc np (\<lambda>x. x\<lparr>ofile := (ofile x)[i := Some g]\<rparr>)))) s)
    (\<lambda>_ t. held B (\<lambda>_. 0) D t \<and> (\<forall>j. j \<noteq> i \<longrightarrow> ofile (procs t ! np) ! j = ofile (procs s ! np) ! j))"
    unfolding Some option.case bnd_apply post_andthen
  proof (rule post_mono [OF dup], simp, goal_cases)
    case (1 g t)
    then have t: "held B ((\<lambda>_. 0)(f := 1)) D t" "procs t = procs s" "g = f" using pview_procs(1) by auto
    then have "held B (\<lambda>_. 0) D (upd_proc np (\<lambda>x. x\<lparr>ofile := (ofile x)[i := Some f]\<rparr>) t)"
      using assms f by (intro held_upd_fd [OF t(1)]) (auto simp: fun_eq_iff)
    moreover have "length (procs t) = NPROC" using t(1) by (simp add: held_def shape_def)
    ultimately show ?case using assms(2) t by simp
  qed
qed (use assms in simp)

lemma copy_descriptors:
  assumes "cp < NPROC" "np < NPROC"
  shows "k \<le> NOFILE \<Longrightarrow> held B (\<lambda>_. 0) D s \<Longrightarrow> (\<And>i. NOFILE - k \<le> i \<Longrightarrow> i < NOFILE \<Longrightarrow> ofile (procs s ! np) ! i = None) \<Longrightarrow>
    post refs_ok (\<lambda>_. refs_ok) (for_each [NOFILE - k..<NOFILE] (\<lambda>i. bnd (gets (\<lambda>s. ofile (procs s ! cp) ! i)) (\<lambda>f.
      case f of None \<Rightarrow> ret () | Some f \<Rightarrow> bnd (filedup f) (\<lambda>g. modify (upd_proc np (\<lambda>x. x\<lparr>ofile := (ofile x)[i := Some g]\<rparr>))))) s)
     (\<lambda>_ t. held B (\<lambda>_. 0) D t)"
proof (induction k arbitrary: s)
  case (Suc k)
  let ?i = "NOFILE - Suc k"
  have i: "?i < NOFILE" "Suc ?i = NOFILE - k" using Suc.prems(1) by simp_all
  then have list: "[?i..<NOFILE] = ?i # [NOFILE - k..<NOFILE]" by (metis upt_conv_Cons)
  have none: "ofile (procs s ! np) ! ?i = None" using Suc.prems(3) i by simp
  show ?case unfolding list for_each.simps seq_apply post_andthen
  proof (rule post_mono [OF copy_one [OF assms i(1) Suc.prems(2) none]], goal_cases)
    case (1 u t)
    then show ?case using Suc.prems(1,3) by (intro Suc.IH) auto
  qed
qed simp

lemma share_refs:
  assumes "cp < NPROC" "np < NPROC" "refs_ok s" "ofile (procs s ! np) = replicate NOFILE None"
  shows "outcome_in refs_ok (share_files cp np s)"
proof -
  have dir: "gives refs_ok (gets (\<lambda>s. cwd (procs s ! cp))) (points NINODE)"
    by (rule gives_gets) (use assms(1) in \<open>auto dest: shape_procD simp: held_def proc_shape_def\<close>)
  have dup: "gives refs_ok (idup i) (\<lambda>j. j < NINODE)" if "i < NINODE" for i
    unfolding idup_def by (intro gives_rules keeps_rules hd.bg_inode that)
  have cwd: "refs_ok t \<Longrightarrow> j < NINODE \<Longrightarrow> refs_ok (upd_proc np (\<lambda>x. x\<lparr>cwd := Some j\<rparr>) t)" for j t
    by (intro held_proc shape_upd_proc) (auto simp: held_def proc_shape_def)
  have rest: "keeps refs_ok (bnd (gets (\<lambda>s. cwd (procs s ! cp))) (\<lambda>d.
      seq (case d of None \<Rightarrow> stuck ''null pointer''
        | Some i \<Rightarrow> bnd (idup i) (\<lambda>j. modify (upd_proc np (\<lambda>x. x\<lparr>cwd := Some j\<rparr>))))
       (modify (\<lambda>s. upd_proc np (\<lambda>x. x\<lparr>pname := safestrcpy_s (pname x) (name_of (procs s ! cp)) 16\<rparr>) s))))"
    by (rule keeps_bnd_gives [OF dir], intro keeps_seq keeps_option keeps_stuck keeps_bnd_gives [OF dup] keeps_modify cwd hd.bg_proc)
      (simp_all add: harmless_def)
  have none: "ofile (procs s ! np) ! i = None" if "NOFILE - NOFILE \<le> i" "i < NOFILE" for i
    using assms(4) that by simp
  show ?thesis unfolding share_files_def seq_apply [of "for_each _ _"] post_andthen
    by (rule post_mono [OF copy_descriptors [OF assms(1,2) le_refl assms(3) none, unfolded diff_self_eq_0]])
      (assumption, assumption, rule keepsD [OF rest])
qed

section \<open>The calls together\<close>

definition free_clean :: "'z fstate_scheme \<Rightarrow> bool" where
  "free_clean s \<longleftrightarrow> (\<forall>f < NFILE. f_ref (ftable s ! f) = 0 \<longrightarrow> f_type (ftable s ! f) \<noteq> FD_INODE)"


text \<open>The running process of the demonstration has opened a file and duplicated its descriptor.\<close>

definition demo_open :: tstate where
  "demo_open = upd_file 2 (\<lambda>x. x\<lparr>f_ref := 2, f_type := FD_INODE\<rparr>)
     (upd_proc 3 (\<lambda>x. x\<lparr>ofile := (ofile x)[1 := Some 2]\<rparr>) (upd_proc 3 (\<lambda>x. x\<lparr>ofile := (ofile x)[0 := Some 2]\<rparr>) demo_kernel))"

lemma demo_refs: "refs_ok demo_kernel"
proof -
  have ft: "ftable demo_kernel = replicate NFILE demo_file" and ps: "procs demo_kernel = demo_table"
    by (simp_all add: demo_defs NFILE_def)
  have "count_list (ofile x) (Some f) = 0" if "x \<in> set demo_table" for x f
    using demo_ofile [OF that] by simp
  then have "map (\<lambda>x. int (count_list (ofile x) (Some f))) demo_table = map (\<lambda>_. 0) demo_table" for f by simp
  then have "refs f demo_kernel = 0" for f unfolding refs_def ps by (simp only:) simp
  then show ?thesis using demo_shape(1) ft by (simp add: held_def demo_file_def)
qed

lemma demo_open_refs: "refs_ok demo_open"
proof -
  let ?a = "upd_proc 3 (\<lambda>x. x\<lparr>ofile := (ofile x)[0 := Some 2]\<rparr>) demo_kernel"
  let ?b = "upd_proc 3 (\<lambda>x. x\<lparr>ofile := (ofile x)[1 := Some 2]\<rparr>) ?a"
  have of0: "ofile (procs demo_kernel ! 3) = replicate NOFILE None"
    using demo_ofile [of "demo_table ! 3"] by (simp add: demo_defs)
  have len: "length (procs demo_kernel) = NPROC" by (simp add: demo_defs)
  have a: "held False ((\<lambda>_. 0)(2 := -1)) {} ?a"
    using of0 by (intro held_upd_fd [OF demo_refs]) (auto simp: fun_eq_iff NFILE_def)
  have b: "held False ((\<lambda>_. 0)(2 := -2)) {} ?b"
    using of0 len by (intro held_upd_fd [OF a]) (auto simp: fun_eq_iff NFILE_def)
  have "f_ref (ftable ?b ! 2) = 0" "f_ip (ftable ?b ! 2) = 0" by (simp_all add: upd_proc_def demo_defs demo_file_def)
  then show ?thesis unfolding demo_open_def
    by (intro held_upd_file [OF b]) (auto simp: fun_eq_iff NFILE_def NINODE_def file_shape_def)
qed


end
