(* ===== verification/Ring.thy ===== *)
theory Ring
  imports File
begin

text \<open>
  Ring buffers. Pipes and the console keep bytes in an array and name them by two counters that
  only grow, modulo the word size; the slot is the counter modulo the array's length. The length
  is a power of two, so the wrap-around of the counters is harmless. The interface
  \<open>bounded_queue\<close> says what such a buffer promises; pipes implement it.
\<close>

section \<open>The interface\<close>

locale bounded_queue =
  fixes queue :: "'p \<Rightarrow> 'a list" and ok :: "'p \<Rightarrow> bool" and cap :: nat
    and enq :: "'a \<Rightarrow> 'p \<Rightarrow> 'p" and front :: "'p \<Rightarrow> 'a" and deq :: "'p \<Rightarrow> 'p"
  assumes bound: "ok x \<Longrightarrow> length (queue x) \<le> cap"
    and enq: "ok x \<Longrightarrow> length (queue x) < cap \<Longrightarrow> ok (enq b x) \<and> queue (enq b x) = queue x @ [b]"
    and deq: "ok x \<Longrightarrow> queue x \<noteq> [] \<Longrightarrow> ok (deq x) \<and> queue x = front x # queue (deq x)"
begin

lemma enq_all:
  "ok x \<Longrightarrow> length (queue x) + length bs \<le> cap \<Longrightarrow> ok (fold enq bs x) \<and> queue (fold enq bs x) = queue x @ bs"
  by (induction bs arbitrary: x) (use enq in auto)

lemma deq_many: "ok x \<Longrightarrow> n \<le> length (queue x) \<Longrightarrow> ok ((deq ^^ n) x) \<and> queue ((deq ^^ n) x) = drop n (queue x)"
proof (induction n)
  case (Suc n)
  then have IH: "ok ((deq ^^ n) x)" "queue ((deq ^^ n) x) = drop n (queue x)" by simp_all
  with Suc.prems have "queue ((deq ^^ n) x) \<noteq> []" by simp
  from deq [OF IH(1) this] IH(2) have "drop n (queue x) = front ((deq ^^ n) x) # queue ((deq ^^ Suc n) x)"
    and ok: "ok ((deq ^^ Suc n) x)" by simp_all
  from arg_cong [OF this(1), of tl] have "queue ((deq ^^ Suc n) x) = drop (Suc n) (queue x)"
    by (simp add: drop_Suc tl_drop)
  with ok show ?case by simp
qed simp

lemma front_many: "ok x \<Longrightarrow> n < length (queue x) \<Longrightarrow> front ((deq ^^ n) x) = queue x ! n"
  using deq_many [of x n] deq [of "(deq ^^ n) x"] by (metis Cons_nth_drop_Suc drop_eq_Nil2 leD list.inject order_less_imp_le)

lemma fifo:
  assumes "ok x" "queue x = []" "length bs \<le> cap" "i < length bs"
  shows "front ((deq ^^ i) (fold enq bs x)) = bs ! i"
  using enq_all [of x bs] front_many [of "fold enq bs x" i] assms by simp

end

section \<open>Counters modulo a power of two\<close>

definition ring :: "(u32 \<Rightarrow> byte) \<Rightarrow> u32 \<Rightarrow> u32 \<Rightarrow> u32 \<Rightarrow> byte list" where
  "ring d n r w = map (\<lambda>k. d ((r + of_nat k) mod n)) [0..<unat (w - r)]"

lemma length_ring [simp]: "length (ring d n r w) = unat (w - r)"
  by (simp add: ring_def)

lemma ring_empty [simp]: "ring d n r w = [] \<longleftrightarrow> w = r"
  by (simp add: ring_def unat_eq_0)

lemma slot_nat:
  assumes "unat (n :: u32) dvd 2 ^ 32"
  shows "unat ((r + of_nat k) mod n) = (unat r + k) mod unat n"
proof -
  have "unat (r + of_nat k) mod unat n = (unat r + k) mod unat n"
    using assms by (simp add: unat_word_ariths unat_of_nat take_bit_eq_mod mod_mod_cancel mod_simps)
  then show ?thesis by (simp add: unat_mod_distrib)
qed

lemma slot_inj:
  assumes "unat (n :: u32) dvd 2 ^ 32" "k < m" "m < unat n"
  shows "(r + of_nat k) mod n \<noteq> (r + of_nat m) mod n"
proof
  assume "(r + of_nat k) mod n = (r + of_nat m) mod n"
  from arg_cong [OF this, of unat] have "(unat r + m) mod unat n = (unat r + k) mod unat n"
    by (simp only: slot_nat [OF assms(1)])
  then have "unat n dvd m - k" using assms(2) by (simp add: mod_eq_dvd_iff_nat)
  then show False using assms(2,3) by (auto dest: dvd_imp_le)
qed

lemma unat_next: "unat (w - r) < 2 ^ 32 - 1 \<Longrightarrow> unat (w + 1 - r) = Suc (unat (w - r :: u32))"
proof -
  assume "unat (w - r) < 2 ^ 32 - 1"
  then have "unat ((w - r) + 1) = Suc (unat (w - r))" by (simp add: unat_word_ariths)
  then show ?thesis by (simp add: algebra_simps)
qed

lemma ring_snoc:
  assumes "unat n dvd 2 ^ 32" "unat (w - r) < unat n" "unat n < 2 ^ 32"
  shows "ring (d(w mod n := b)) n r (w + 1) = ring d n r w @ [b]"
proof -
  let ?m = "unat (w - r)"
  have w: "w = r + of_nat ?m" by simp
  have "unat (w + 1 - r) = Suc ?m" using assms(2,3) by (intro unat_next) simp
  moreover have "(r + of_nat k) mod n \<noteq> w mod n" if "k < ?m" for k
    using slot_inj [OF assms(1) that assms(2), of r] w by simp
  moreover have "(r + of_nat ?m) mod n = w mod n" using w by simp
  ultimately show ?thesis by (simp add: ring_def)
qed

lemma unat_prev: "w \<noteq> r \<Longrightarrow> Suc (unat (w - (r + 1))) = unat (w - r :: u32)"
proof -
  assume "w \<noteq> r"
  then have "1 \<le> w - r" by (simp add: word_le_nat_alt unat_gt_0 Suc_le_eq)
  then have "unat (w - r - 1) = unat (w - r) - 1" by (simp add: unat_sub)
  moreover have "0 < unat (w - r)" using \<open>w \<noteq> r\<close> by (simp add: unat_gt_0)
  ultimately show ?thesis by (simp add: algebra_simps)
qed

lemma ring_cons:
  assumes "w \<noteq> r"
  shows "ring d n r w = d (r mod n) # ring d n (r + 1) w"
proof -
  have "[0..<unat (w - r)] = 0 # map Suc [0..<unat (w - (r + 1))]"
    by (simp add: unat_prev [OF assms, symmetric] upt_conv_Cons map_Suc_upt del: upt_Suc)
  then show ?thesis by (simp add: ring_def add.assoc del: upt_Suc)
qed

end
