(* ===== verification/Input.thy ===== *)
theory Input
  imports Background Kernel Ring
begin

text \<open>
  The console's input ring. Three counters divide it: readers take at \<^verbatim>\<open>input.r\<close>, the
  lines that are complete end at \<^verbatim>\<open>input.w\<close>, and the line being edited ends at
  \<^verbatim>\<open>input.e\<close>. The counters only make sense while they are in this order and the ring is not
  overrun; every routine of the kernel keeps that, also across the wrap-around of the counters.
\<close>

section \<open>The ring\<close>

definition in_order :: "u32 \<Rightarrow> u32 \<Rightarrow> u32 \<Rightarrow> bool" where
  "in_order r w e \<longleftrightarrow> unat (w - r) \<le> unat (e - r) \<and> unat (e - r) \<le> unat INPUT_BUF"

definition input_ok :: "'z tstate_scheme \<Rightarrow> bool" where
  "input_ok s \<longleftrightarrow> in_order (inp_r s) (inp_w s) (inp_e s)"

lemma unat_INPUT_BUF [simp]: "unat INPUT_BUF = 128"
  by (simp add: INPUT_BUF_def)

lemma unat_back: "e \<noteq> r \<Longrightarrow> unat (e - 1 - r) = unat (e - r :: u32) - 1"
proof -
  assume "e \<noteq> r"
  then have "Suc (unat (e - (r + 1))) = unat (e - r)" by (rule unat_prev)
  moreover have "e - 1 - r = e - (r + 1)" by (simp add: algebra_simps)
  ultimately show ?thesis by (metis diff_Suc_1)
qed

lemma in_order_erase: "in_order r w e \<Longrightarrow> e \<noteq> w \<Longrightarrow> in_order r w (e - 1)"
proof -
  assume o: "in_order r w e" and ne: "e \<noteq> w"
  then have "unat (w - r) \<noteq> unat (e - r)" by (auto simp: word_unat_eq_iff [symmetric])
  moreover from this o have "e \<noteq> r" by (auto simp: in_order_def)
  ultimately show ?thesis using o unat_back [of e r] by (simp add: in_order_def) linarith
qed

lemma in_order_add: "in_order r w e \<Longrightarrow> e - r < INPUT_BUF \<Longrightarrow> in_order r w (e + 1)"
  using unat_next [of e r] by (simp add: in_order_def word_less_nat_alt)

lemma in_order_commit: "in_order r w e \<Longrightarrow> in_order r e e"
  by (simp add: in_order_def)

lemma in_order_take: "in_order r w e \<Longrightarrow> r \<noteq> w \<Longrightarrow> in_order (r + 1) w e"
proof -
  assume o: "in_order r w e" and ne: "r \<noteq> w"
  then have "0 < unat (w - r)" by (simp add: unat_gt_0)
  with o have "e \<noteq> r" by (auto simp: in_order_def)
  then show ?thesis using o ne unat_prev [of w r] unat_prev [of e r] by (simp add: in_order_def)
qed

lemma input_ok_simps:
  "input_ok (s\<lparr>inp_e := v\<rparr>) = in_order (inp_r s) (inp_w s) v" "input_ok (s\<lparr>inp_w := v\<rparr>) = in_order (inp_r s) v (inp_e s)"
  "input_ok (s\<lparr>inp_r := v\<rparr>) = in_order v (inp_w s) (inp_e s)" "input_ok (s\<lparr>inp_buf := u\<rparr>) = input_ok s"
  by (simp_all add: input_ok_def)

interpretation ic: background input_ok
  by unfold_locales
    (simp_all add: input_ok_def upd_lock_def upd_cpu_def upd_proc_def upd_sl_def upd_buf_def upd_log_def upd_inode_def
      upd_pipe_def upd_file_def)

section \<open>The interrupt handler\<close>

text \<open>A test of the state, and a change that the test makes safe.\<close>

lemma keeps_test:
  "(\<And>s. I s \<Longrightarrow> outcome_in I (f (b s) s)) \<Longrightarrow> keeps I (bnd (gets b) f)"
  by (simp add: keeps_def)

lemma modify_then: "I (f s) \<Longrightarrow> keeps I m \<Longrightarrow> outcome_in I (seq (modify f) m s)"
  by (simp add: keeps_def)

lemma doif_then: "I s \<Longrightarrow> (b \<Longrightarrow> outcome_in I (m s)) \<Longrightarrow> outcome_in I (doif b m s)"
  by simp

lemma seq_then: "outcome_in I (m s) \<Longrightarrow> keeps I n \<Longrightarrow> outcome_in I (seq m n s)"
  unfolding seq_apply post_andthen by (erule post_mono) (rule keepsD)

lemma keeps_kill_line: "keeps input_ok kill_line"
  unfolding kill_line_def
  by (rule keeps_loop, rule keeps_test, intro post_if modify_then keeps_rules)
    (simp_all add: input_ok_simps input_ok_def in_order_erase)

lemma keeps_input_char: "keeps input_ok (input_char c)"
  unfolding input_char_def Let_def
  by (rule keeps_test, intro doif_then modify_then keeps_rules)
    (auto simp: input_ok_simps input_ok_def in_order_add intro: in_order_commit)

lemma keeps_console_intr: "keeps input_ok getc \<Longrightarrow> keeps input_ok (consoleintr getc)"
proof -
  assume getc: "keeps input_ok getc"
  have erase: "keeps input_ok (bnd (gets (\<lambda>s. inp_e s \<noteq> inp_w s)) (\<lambda>more.
      seq (doif more (seq (modify (\<lambda>s. s\<lparr>inp_e := inp_e s - 1\<rparr>)) (consputc BACKSPACE))) (ret (Inl dump))))" for dump :: bool
    by (rule keeps_test, intro seq_then doif_then modify_then keeps_rules) (simp_all add: input_ok_simps input_ok_def in_order_erase)
  show ?thesis unfolding consoleintr_def
    by (rule keeps_seq, intro keeps_rules, rule keeps_bnd, intro keeps_rules, rule keeps_bnd, rule keeps_loop, rule keeps_bnd [OF getc],
        intro keeps_if erase keeps_seq keeps_ret keeps_kill_line keeps_input_char, intro keeps_rules)
qed

section \<open>Readers\<close>

lemma wait_input_some:
  assumes "input_ok s"
  shows "post input_ok (\<lambda>_. input_ok) (wait_input i s) (\<lambda>ok t. input_ok t \<and> (ok \<longrightarrow> inp_r t \<noteq> inp_w t))"
  unfolding wait_input_def wait_loop_def
proof (rule post_gets_bnd, rule post_loop [where I = "\<lambda>_. input_ok", OF assms], rule post_gets_bnd, rule post_if)
  fix t :: "'a tstate_scheme"
  assume t: "input_ok t"
  show "post input_ok (\<lambda>_. input_ok) (bnd curproc (\<lambda>p. bnd (gets (\<lambda>s. killed (procs s ! p))) (\<lambda>dead.
      if dead then seq (release ConsLock) (seq (ilock i) (ret (Inr False)))
      else seq (sleep ChanInput ConsLock) (ret (Inl ())))) t)
     (\<lambda>r u. case r of Inl y \<Rightarrow> input_ok u | Inr ok \<Rightarrow> input_ok u \<and> (ok \<longrightarrow> inp_r u \<noteq> inp_w u))"
    by (rule post_mono [OF givesD [of input_ok _ "\<lambda>r. r \<noteq> Inr True"]], intro gives_rules keeps_rules)
      (auto simp: t split: sum.splits)
qed simp

lemma take_char:
  assumes "input_ok s" "inp_r s \<noteq> inp_w s" "keeps input_ok m"
  shows "outcome_in input_ok (seq (modify (\<lambda>s. s\<lparr>inp_r := inp_r s + 1\<rparr>)) (if b then
      seq (doif d (modify (\<lambda>s. s\<lparr>inp_r := inp_r s - 1\<rparr>))) (ret x) else m) s)"
  using assms in_order_take [of "inp_r s" "inp_w s" "inp_e s"] keepsD [OF assms(3)]
  by (simp add: input_ok_simps) (simp add: input_ok_def)

lemma keeps_console_read: "keeps (input_ok :: 'z tstate_scheme \<Rightarrow> bool) (consoleread i dst n)"
proof -
  have char: "keeps (input_ok :: 'z tstate_scheme \<Rightarrow> bool) (bnd (wait_input i) (\<lambda>ok. if \<not> ok then ret (Inr (False, k, bs))
      else bnd (gets (\<lambda>s. inp_buf s (inp_r s mod INPUT_BUF))) (\<lambda>c. seq (modify (\<lambda>s. s\<lparr>inp_r := inp_r s + 1\<rparr>)) (
        if c = 4 then seq (doif (k < n) (modify (\<lambda>s. s\<lparr>inp_r := inp_r s - 1\<rparr>))) (ret (Inr (True, k, bs)))
        else seq (put_dst dst (length bs) [c])
          (ret (if c = 10 then Inr (True, k - 1, bs @ [c]) else Inl (k - 1, bs @ [c])))))))" (is "keeps _ (bnd _ ?next)")
    for k :: u32 and bs
  proof (rule keepsI)
    fix s :: "'z tstate_scheme" assume "input_ok s"
    from wait_input_some [OF this, of i] show "outcome_in input_ok (bnd (wait_input i) ?next s)"
      unfolding bnd_apply [of "wait_input i"] post_andthen
      by (rule post_mono) (intro post_if post_gets_bnd take_char keeps_rules; simp)
  qed
  show ?thesis unfolding consoleread_def
    by (rule keeps_seq, intro keeps_rules, rule keeps_seq, intro keeps_rules, rule keeps_bnd, rule keeps_loop, rule keeps_prod,
        intro keeps_if keeps_ret char, intro keeps_rules)
qed

interpretation ii: carefree input_ok
proof
  fix i dst n
  show "keeps input_ok (consoleread i dst n)" by (rule keeps_console_read)
  show "keeps input_ok kbdintr" "keeps input_ok uartintr"
    unfolding kbdintr_def uartintr_def by (intro keeps_console_intr keeps_rules)+
qed (simp_all add: input_ok_def upd_proc_def upd_file_def upd_cpu_def)

section \<open>The kernel as a whole\<close>

text \<open>
  \<^bold>\<open>(C5)\<close> The input ring is never overrun. In every state in which a trap handler, a new process or
  the scheduler gives up the processor, and when it returns, the reader's counter, the end of the
  complete lines and the end of the edited line are in this order and at most the size of the ring
  apart, however many times they have wrapped around, provided that they are resumed in such
  states.
\<close>

theorem kernel_input:
  assumes "input_ok s"
  shows "outcome_in input_ok (trap junk f s) \<and> outcome_in input_ok (forkret s) \<and> outcome_in input_ok (scheduler n s)"
  by (intro conjI keepsD [OF ii.keeps_trap_any] keepsD [OF ii.keeps_traps(6)] keepsD [OF ii.keeps_scheduler_any] assms)

theorem kernel_input_witness:
  "input_ok demo_boot \<and> (\<exists>t k. scheduler 1 demo_boot = Switched t k \<and> input_ok t)"
proof -
  obtain t k where "scheduler 1 demo_boot = Switched t k" using demo_scheduler by blast
  moreover have "input_ok demo_boot" by (simp add: input_ok_def in_order_def demo_boot_def demo_defs)
  ultimately show ?thesis using kernel_input [of demo_boot 0 zero_tf 1] by auto
qed

end
