(* ===== verification/Sleepers.thy ===== *)
theory Sleepers
  imports Demo
begin

text \<open>
  What \<^verbatim>\<open>wakeup\<close> does, in closed form: every process that sleeps on the channel becomes
  runnable and its tickets count again; nothing else changes.
\<close>

definition waits_on :: "chan \<Rightarrow> proc \<Rightarrow> bool" where
  "waits_on ch x \<longleftrightarrow> state x = SLEEPING \<and> chan x = Some ch"

definition wake :: "chan \<Rightarrow> u32 \<Rightarrow> proc \<Rightarrow> proc" where
  "wake ch now x = (if waits_on ch x then x\<lparr>state := RUNNABLE, lastChangeTime := now\<rparr> else x)"

definition woken :: "chan \<Rightarrow> 'z kstate_scheme \<Rightarrow> 'z kstate_scheme" where
  "woken ch s = s\<lparr>procs := map (wake ch (ticks s)) (procs s),
     totalTicketCount := totalTicketCount s + sum_list (map ticketCount (filter (waits_on ch) (procs s)))\<rparr>"

lemma for_each_snoc: "for_each (xs @ [x]) f = seq (for_each xs f) (f x)"
proof (induction xs)
  case (Cons y xs)
  then show ?case by (simp only: append_Cons for_each.simps seq_assoc)
qed (simp only: append_Nil for_each.simps seq_ret)

text \<open>The table with the first \<open>n\<close> slots done.\<close>

definition woken_to :: "nat \<Rightarrow> chan \<Rightarrow> 'z kstate_scheme \<Rightarrow> 'z kstate_scheme" where
  "woken_to n ch s = s\<lparr>procs := map (wake ch (ticks s)) (take n (procs s)) @ drop n (procs s),
     totalTicketCount := totalTicketCount s + sum_list (map ticketCount (filter (waits_on ch) (take n (procs s))))\<rparr>"

lemma woken_to_Suc:
  assumes "n < length (procs s)"
  shows "woken_to (Suc n) ch s = (let t = woken_to n ch s in if waits_on ch (procs t ! n) then make_runnable n t else t)"
proof -
  let ?ps = "procs s"
  have len: "length (map (wake ch (ticks s)) (take n ?ps)) = n" using assms by simp
  have d: "drop n ?ps = ?ps ! n # drop (Suc n) ?ps" using assms by (simp add: Cons_nth_drop_Suc)
  have t: "take (Suc n) ?ps = take n ?ps @ [?ps ! n]" using assms by (simp add: take_Suc_conv_app_nth)
  have n: "procs (woken_to n ch s) ! n = ?ps ! n" using len assms by (simp add: woken_to_def nth_append)
  have u: "(xs @ y # ys)[n := z] = xs @ z # ys" if "length xs = n" for xs ys :: "proc list" and y z
    using that by (simp add: list_update_append)
  show ?thesis unfolding Let_def n
    by (cases "waits_on ch (?ps ! n)")
      (simp_all add: woken_to_def make_runnable_def upd_proc_def t d u [OF len] wake_def nth_append add.assoc min_absorb2 assms less_imp_le)
qed

lemma wakeup1_to:
  assumes "n \<le> length (procs s)"
  shows "for_each [0..<n] (\<lambda>p. modify (\<lambda>s.
       if state (procs s ! p) = SLEEPING \<and> chan (procs s ! p) = Some ch then make_runnable p s else s)) s = Done () (woken_to n ch s)"
  using assms
proof (induction n)
  case 0
  then show ?case by (simp add: woken_to_def)
next
  case (Suc n)
  then show ?case by (simp add: for_each_snoc woken_to_Suc Let_def waits_on_def)
qed

lemma wakeup1_run: "length (procs s) = NPROC \<Longrightarrow> wakeup1 ch s = Done () (woken ch s)"
  by (simp add: wakeup1_def wakeup1_to woken_to_def woken_def)

section \<open>Under the table lock\<close>

lemma this_cpu_woken [simp]: "this_cpu (woken ch s) = this_cpu s"
  by (rule this_cpu_frame) (simp_all add: woken_def)

lemma woken_reads [simp]:
  "cpus (woken ch a) = cpus a" "locks (woken ch b) = locks b" "hw_IF (woken ch c) = hw_IF c" "hw_cpu (woken ch d) = hw_cpu d"
  "length (procs (woken ch e)) = length (procs e)" "ram (woken ch f) = ram f" "wait_rounds (woken ch g) = wait_rounds g"
  "slocks (woken ch j) = slocks j" "readeflags_IF (woken ch k) = readeflags_IF k"
  "procs (woken ch m) = map (wake ch (ticks m)) (procs m)"
  by (simp_all add: woken_def readeflags_IF_def)

lemma mine_woken [simp]: "mine (woken ch s) = mine s" and me_woken [simp]: "me (woken ch t) = me t"
  by (simp_all add: mine_def me_def)

lemma woken_grabbed: "woken ch (grabbed l c s) = grabbed l c (woken ch s)"
  unfolding woken_def grabbed_def pushed_def upd_lock_def upd_cpu_def readeflags_IF_def by (cases s) simp

lemma grab_woken: "woken ch (grab l s) = grab l (woken ch s)"
  by (simp add: grab_def woken_grabbed)

lemma wakeup_run:
  assumes "cpu_ok s c" "lock_free s PtableLock" "length (procs s) = NPROC"
  shows "wakeup ch s = Done () (touched c (woken ch s))"
proof -
  have "cpu_ok (woken ch s) c" "lock_free (woken ch s) PtableLock" using assms by (simp_all add: cpu_ok_def lock_free_def)
  moreover have "length (procs (grabbed PtableLock c s)) = NPROC"
    using assms(3) by (simp add: grabbed_def pushed_def upd_lock_def upd_cpu_def)
  ultimately show ?thesis using assms
    by (simp add: wakeup_def acquire_lock_free wakeup1_run woken_grabbed release_grabbed dropped_grabbed_free)
qed

lemma calm_woken [simp]: "calm s \<Longrightarrow> calm (woken ch s)"
proof -
  assume s: "calm s"
  have "nobody_waits fs_chan (map (wake ch now) ps)" if "nobody_waits fs_chan ps" for now ps
    using that by (auto simp: nobody_waits_def wake_def waits_on_def)
  then show ?thesis using s unfolding calm_def touched_iff cpu_ok_def lock_free_def by simp
qed

lemma calm_wakeup:
  assumes "calm s" "l \<noteq> PtableLock"
  shows "wakeup ch (grab l s) = Done () (grab l (woken ch s))"
proof -
  have "touched (mine s) (grab l (woken ch s)) = grab l (woken ch s)" using calm_grab(2) [of "woken ch s" l] assms by simp
  then show ?thesis
    using assms calm_grab(1) [OF assms(1), of l] calmD(3,6) [OF assms(1)]
    by (subst wakeup_run [of _ "mine s"]) (simp_all add: grab_woken)
qed

section \<open>Waking is exact\<close>

lemma tickets_woken: "tickets_ok s \<Longrightarrow> tickets_ok (woken ch s)"
proof -
  have "sum_list (map weight (map (wake ch now) ps)) = sum_list (map weight ps) + sum_list (map ticketCount (filter (waits_on ch) ps))" for now ps
    by (induction ps) (auto simp: weight_def wake_def waits_on_def counted_def algebra_simps)
  then show "tickets_ok s \<Longrightarrow> tickets_ok (woken ch s)" by (simp add: tickets_ok_def) (simp add: woken_def)
qed

text \<open>
  \<^bold>\<open>(C26)\<close> \<^verbatim>\<open>wakeup\<close> returns with every process that slept on the channel runnable and every
  other process untouched. The ticket total grows by the tickets of those it woke, so a lottery
  draws over exactly the processes that can run.
\<close>

theorem wakeup_exact:
  assumes "cpu_ok s c" "lock_free s PtableLock" "length (procs s) = NPROC"
  shows "\<exists>t. wakeup ch s = Done () t \<and> length (procs t) = NPROC \<and>
    (\<forall>p < NPROC. procs t ! p = (if state (procs s ! p) = SLEEPING \<and> chan (procs s ! p) = Some ch
       then (procs s ! p)\<lparr>state := RUNNABLE, lastChangeTime := ticks s\<rparr> else procs s ! p)) \<and>
    (tickets_ok s \<longrightarrow> tickets_ok t)"
proof -
  have "tickets_ok (touched c t) = tickets_ok t" "procs (touched c t) = procs t" for t :: "'a kstate_scheme"
    by (simp_all add: tickets_ok_def touched_def upd_cpu_def)
  then show ?thesis
    using wakeup_run [OF assms] tickets_woken [of s] assms(3) by (simp add: wake_def waits_on_def)
qed

theorem wakeup_exact_witness:
  "\<exists>t. wakeup ChanTicks (demo_lstate\<lparr>procs := demo_table[5 := (demo_table ! 5)\<lparr>state := SLEEPING, chan := Some ChanTicks\<rparr>]\<rparr>) = Done () t \<and>
    state (procs t ! 5) = RUNNABLE \<and> state (procs t ! 3) = RUNNING"
proof -
  let ?s = "demo_lstate\<lparr>procs := demo_table[5 := (demo_table ! 5)\<lparr>state := SLEEPING, chan := Some ChanTicks\<rparr>]\<rparr>"
  have "cpu_ok ?s 0" "lock_free ?s PtableLock"
    by (simp_all add: demo_defs cpu_ok_def this_cpu_def lapicid_def lock_free_def)
  then obtain t where t: "wakeup ChanTicks ?s = Done () t" "\<And>p. p < NPROC \<Longrightarrow> procs t ! p = (if state (procs ?s ! p) = SLEEPING \<and> chan (procs ?s ! p) = Some ChanTicks
       then (procs ?s ! p)\<lparr>state := RUNNABLE, lastChangeTime := ticks ?s\<rparr> else procs ?s ! p)"
    using wakeup_exact [of ?s 0 ChanTicks] by auto
  show ?thesis using t(1) t(2) [of 5] t(2) [of 3] by (auto simp: demo_table_def)
qed

end
