(* ===== verification/Slots.thy ===== *)
theory Slots
  imports Sleepers
begin

text \<open>
  Allocation in tables. Open files, descriptors and processes are slots of fixed tables, and each
  allocator takes the first free slot. The interface \<open>slot_table\<close> says what such a scan promises;
  the file table and the descriptors of a process are its instances.
\<close>

section \<open>The tables\<close>

interpretation ft: slot_table "\<lambda>x. f_ref x = 0" "\<lambda>x. x\<lparr>f_ref := 1\<rparr>"
  by unfold_locales simp

interpretation fd: slot_table "\<lambda>x. x = None" "\<lambda>_. Some f" for f :: nat
  by unfold_locales simp

lemma ft_used: "ft.used xs = {i. i < length xs \<and> f_ref (xs ! i) \<noteq> 0}"
  by (simp add: ft.used_def)

lemma fd_used: "fd.used xs = {i. i < length xs \<and> xs ! i \<noteq> None}"
  by (simp add: fd.used_def)

section \<open>Closed forms\<close>

lemma filealloc_run:
  assumes "calm s"
  shows "filealloc s = (case find_idx (\<lambda>x. f_ref x = 0) (ftable s) of
     None \<Rightarrow> Done None s | Some f \<Rightarrow> Done (Some f) (upd_file f (\<lambda>x. x\<lparr>f_ref := 1\<rparr>) s))"
  using assms by (auto simp: filealloc_def calm_simps upd_file_def split: option.split)

lemma fdalloc_run:
  assumes "calm s"
  shows "fdalloc f s = (case find_idx (\<lambda>x. x = None) (take NOFILE (ofile (procs s ! me s))) of
     None \<Rightarrow> Done None s | Some d \<Rightarrow> Done (Some d) (upd_proc (me s) (\<lambda>x. x\<lparr>ofile := (ofile x)[d := Some f]\<rparr>) s))"
  using assms by (auto simp: fdalloc_def calm_simps split: option.split)

section \<open>The first free slot\<close>

definition open_files :: "'z fstate_scheme \<Rightarrow> nat set" where
  "open_files s = ft.used (ftable s)"

definition open_fds :: "nat \<Rightarrow> 'z kstate_scheme \<Rightarrow> nat set" where
  "open_fds p s = fd.used (ofile (procs s ! p))"

text \<open>
  \<^bold>\<open>(C27)\<close> \<^verbatim>\<open>filealloc\<close> and \<^verbatim>\<open>fdalloc\<close> hand out the lowest free slot, and that slot is the
  only one whose use changes: everything below it was in use, it was not, and afterwards it is. They
  fail exactly when the whole table is in use, and then change nothing. Programs rely on the lowest
  descriptor when they redirect input and output by closing one and opening another.
\<close>

theorem lowest_slot:
  assumes "calm s" "length (ofile (procs s ! me s)) = NOFILE"
  shows "(case filealloc s of
       Done (Some n) t \<Rightarrow> n < length (ftable s) \<and> n \<notin> open_files s \<and> {..<n} \<subseteq> open_files s \<and>
         open_files t = insert n (open_files s) \<and> f_ref (ftable t ! n) = 1 \<and> procs t = procs s
     | Done None t \<Rightarrow> t = s \<and> open_files s = {..<length (ftable s)}
     | _ \<Rightarrow> False)
   \<and> (case fdalloc f s of
       Done (Some d) t \<Rightarrow> d < NOFILE \<and> d \<notin> open_fds (me s) s \<and> {..<d} \<subseteq> open_fds (me s) s \<and>
         open_fds (me s) t = insert d (open_fds (me s) s) \<and> ofile (procs t ! me s) ! d = Some f \<and> ftable t = ftable s
     | Done None t \<Rightarrow> t = s \<and> open_fds (me s) s = {..<NOFILE}
     | _ \<Rightarrow> False)"
proof (intro conjI, goal_cases)
  case 1
  show ?case
    using ft.alloc_first [of "ftable s"] ft.used_claim [of "ftable s"] ft.alloc_full [of "ftable s"]
    unfolding filealloc_run [OF assms(1)] open_files_def
    by (auto simp: upd_file_def split: option.split)
next
  case 2
  have "me s < length (procs s)" "take NOFILE (ofile (procs s ! me s)) = ofile (procs s ! me s)"
    using assms by (simp_all add: calm_def)
  then show ?case
    using assms(2) fd.alloc_first [of "ofile (procs s ! me s)"] fd.used_claim [of "ofile (procs s ! me s)" _ f]
      fd.alloc_full [of "ofile (procs s ! me s)"]
    unfolding fdalloc_run [OF assms(1)] open_fds_def
    by (auto simp: upd_proc_def split: option.split)
qed

theorem lowest_slot_witness:
  "(\<exists>t. filealloc (demo_fstate\<lparr>ftable := demo_file\<lparr>f_ref := 1\<rparr> # replicate 99 demo_file\<rparr>) = Done (Some 1) t) \<and>
   (\<exists>t. fdalloc 7 (demo_fstate\<lparr>ftable := demo_file\<lparr>f_ref := 1\<rparr> # replicate 99 demo_file\<rparr>) = Done (Some 0) t \<and> open_fds 3 t = {0})"
proof -
  let ?s = "demo_fstate\<lparr>ftable := demo_file\<lparr>f_ref := 1\<rparr> # replicate 99 demo_file\<rparr>"
  have p: "procs demo_fstate = demo_table" "cpus demo_fstate = [(demo_cpu 0)\<lparr>intena := True, cproc := Some 3\<rparr>, demo_cpu 4]"
    by (simp_all add: demo_defs)
  have me: "me ?s = 3" by (simp add: me_def mine_def this_cpu_def lapicid_def demo_defs)
  have o: "ofile (procs ?s ! 3) = replicate 16 None"
    by (simp add: p demo_table_def demo_proc_def blank_proc_def)
  have u: "open_files ?s = {0}" "open_fds 3 ?s = {}"
    unfolding open_files_def open_fds_def o by (auto simp: ft_used fd_used nth_Cons' demo_file_def split: if_splits)
  have low: "n = 1" if "{..<n} \<subseteq> {0}" "0 < n" for n :: nat
    using subsetD [OF that(1), of 1] that(2) by (cases "n = 1") simp_all
  have full: "{0} \<noteq> {..<100 :: nat}" "{} \<noteq> {..<16 :: nat}" by (rule notI, drule arg_cong [of _ _ card], simp)+
  have "calm ?s" using demo_calm(2) by simp
  note r = lowest_slot [OF this, of 7, unfolded me u o]
  have n: "length (ftable ?s) = 100" by simp
  have "\<exists>t. filealloc ?s = Done (Some 1) t"
    using conjunct1 [OF r [simplified]] full(1) unfolding n by (cases "filealloc ?s") (auto split: option.splits dest: low)
  moreover have "\<exists>t. fdalloc 7 ?s = Done (Some 0) t \<and> open_fds 3 t = {0}"
    using conjunct2 [OF r [simplified]] full(2) by (cases "fdalloc 7 ?s") (auto split: option.splits)
  ultimately show ?thesis ..
qed

end
