(* ===== verification/Bcache.thy ===== *)
theory Bcache
  imports Calm
begin

text \<open>
  Correctness of the buffer cache over the memory disk: the doubly linked list of buffers is a
  list of all buffers in order of last release, a block is cached at most once, a buffer that is
  neither held nor dirty agrees with the disk, and \<^verbatim>\<open>bread\<close>, \<^verbatim>\<open>bwrite\<close>
  and \<^verbatim>\<open>brelse\<close> implement reads and writes of the block contents.
\<close>

section \<open>The doubly linked list\<close>

text \<open>\<open>chain nx pv c\<close>: the links \<open>nx\<close> and \<open>pv\<close> join neighbours of the list \<open>c\<close>.\<close>

fun chain :: "(nat \<Rightarrow> nat) \<Rightarrow> (nat \<Rightarrow> nat) \<Rightarrow> nat list \<Rightarrow> bool" where
  "chain nx pv (x # y # c) \<longleftrightarrow> nx x = y \<and> pv y = x \<and> chain nx pv (y # c)"
| "chain nx pv c \<longleftrightarrow> True"

lemma chain_append: "chain nx pv (xs @ y # ys) \<longleftrightarrow> chain nx pv (xs @ [y]) \<and> chain nx pv (y # ys)"
proof (induction xs)
  case (Cons x xs)
  then show ?case by (cases xs) auto
qed simp

lemma chain_cong:
  assumes "\<And>x. x \<in> set (butlast c) \<Longrightarrow> nx' x = nx x" "\<And>x. x \<in> set (tl c) \<Longrightarrow> pv' x = pv x"
  shows "chain nx' pv' c = chain nx pv c"
  using assms by (induction nx pv c rule: chain.induct) auto

lemma chain_rev: "chain nx pv c \<longleftrightarrow> chain pv nx (rev c)"
proof (induction nx pv c rule: chain.induct)
  case (1 nx pv x y c)
  have "chain pv nx (rev (x # y # c)) \<longleftrightarrow> chain pv nx (rev (y # c)) \<and> chain pv nx [y, x]"
    using chain_append [of pv nx "rev c" y "[x]"] by simp
  with 1 show ?case by auto
qed simp_all

lemma chain_remove:
  assumes "chain nx pv (us @ p # b # n # vs)" "distinct (butlast (us @ p # b # n # vs))"
    "distinct (tl (us @ p # b # n # vs))"
  shows "chain (nx(p := n)) (pv(n := p)) (us @ p # n # vs)"
proof -
  have d: "p \<notin> set us" "p \<notin> set (butlast (n # vs))"
    using assms(2) by (auto simp: butlast_append split: if_splits)
  have d': "n \<notin> set (tl (us @ [p]))" "n \<notin> set vs"
    using assms(3) by (cases us; auto)+
  have "chain nx pv (us @ [p])" "chain nx pv (n # vs)"
    using assms(1) chain_append [of nx pv us p "b # n # vs"] by simp_all
  then have "chain (nx(p := n)) (pv(n := p)) (us @ [p])" "chain (nx(p := n)) (pv(n := p)) (n # vs)"
    using d d' by (subst chain_cong [of _ _ nx _ pv]; auto simp: butlast_append)+
  then show ?thesis using chain_append [of _ _ us p "n # vs"] by simp
qed

lemma chain_insert:
  assumes "chain nx pv (h # n # vs)" "b \<notin> set (h # n # vs)" "h \<notin> set (butlast (n # vs))" "n \<notin> set vs"
  shows "chain (nx(b := n, h := b)) (pv(b := h, n := b)) (h # b # n # vs)"
proof -
  have "chain (nx(b := n, h := b)) (pv(b := h, n := b)) (n # vs)"
    using assms by (subst chain_cong [of _ _ nx _ pv]) (auto dest: in_set_butlastD split: if_splits)
  then show ?thesis using assms(2,4) by auto
qed

text \<open>The buffers in the order of the list, most recently released first.\<close>

definition linked :: "buf list \<Rightarrow> nat list \<Rightarrow> bool" where
  "linked bs ord \<longleftrightarrow> length bs = Suc NBUF \<and> distinct ord \<and> set ord = {..<NBUF} \<and>
     chain (\<lambda>i. bnext (bs ! i)) (\<lambda>i. bprev (bs ! i)) (NBUF # ord @ [NBUF])"

lemma linked_length: "linked bs ord \<Longrightarrow> length ord = NBUF"
  using distinct_card [of ord] by (simp add: linked_def)

text \<open>The walks of \<^verbatim>\<open>bget\<close> visit the buffers in the order of the list, or against it.\<close>

lemma walk_finds:
  assumes "chain link pv (x # c @ [NBUF])" "NBUF \<notin> set c" "length c < n" "\<And>i. link i = lk (bufs s ! i)"
  shows "loop n (link x) (\<lambda>b. if b = NBUF then ret (Inr None)
     else bnd (gets (\<lambda>s. bufs s ! b)) (\<lambda>y. ret (if P y then Inr (Some b) else Inl (lk y)))) s =
     Done (List.find (\<lambda>b. P (bufs s ! b)) c) s"
  using assms(1-3)
proof (induction c arbitrary: x n)
  case Nil
  then show ?case by (cases n) simp_all
next
  case (Cons y c)
  from Cons.prems obtain m where n: "n = Suc m" by (cases n) auto
  have y: "link x = y" "y \<noteq> NBUF" and c: "chain link pv (y # c @ [NBUF])" using Cons.prems by (auto split: if_splits)
  from Cons.IH [OF c, of m] Cons.prems n show ?case
    by (simp add: y assms(4))
qed

lemma bfind_finds:
  assumes "chain (\<lambda>i. lk (bufs s ! i)) pv (NBUF # c @ [NBUF])" "NBUF \<notin> set c" "length c = NBUF"
  shows "bfind lk P s = Done (List.find (\<lambda>b. P (bufs s ! b)) c) s"
proof -
  have "length c < NBUF + 1" using assms(3) by simp
  from walk_finds [OF assms(1,2) this refl, of P] show ?thesis
    unfolding bfind_def bnd_apply [of "gets _"] gets_apply andthen.simps .
qed

lemma bfind_next:
  assumes "linked (bufs s) ord"
  shows "bfind bnext P s = Done (List.find (\<lambda>b. P (bufs s ! b)) ord) s"
  using assms linked_length [OF assms] by (intro bfind_finds) (auto simp: linked_def)

lemma bfind_prev:
  assumes "linked (bufs s) ord"
  shows "bfind bprev P s = Done (List.find (\<lambda>b. P (bufs s ! b)) (rev ord)) s"
proof (rule bfind_finds)
  show "chain (\<lambda>i. bprev (bufs s ! i)) (\<lambda>i. bnext (bufs s ! i)) (NBUF # rev ord @ [NBUF])"
    using assms unfolding linked_def by (subst chain_rev) simp
qed (use assms linked_length [OF assms] in \<open>auto simp: linked_def\<close>)

text \<open>Taking a buffer out of the list and putting it first, on the array.\<close>

abbreviation nxs :: "buf list \<Rightarrow> nat \<Rightarrow> nat" where
  "nxs bs \<equiv> (\<lambda>i. bnext (bs ! i))"

abbreviation pvs :: "buf list \<Rightarrow> nat \<Rightarrow> nat" where
  "pvs bs \<equiv> (\<lambda>i. bprev (bs ! i))"

definition set_nx :: "nat \<Rightarrow> nat \<Rightarrow> buf list \<Rightarrow> buf list" where
  "set_nx j v bs = bs[j := (bs ! j)\<lparr>bnext := v\<rparr>]"

definition set_pv :: "nat \<Rightarrow> nat \<Rightarrow> buf list \<Rightarrow> buf list" where
  "set_pv j v bs = bs[j := (bs ! j)\<lparr>bprev := v\<rparr>]"

definition relink :: "nat \<Rightarrow> buf list \<Rightarrow> buf list" where
  "relink b bs =
     (let bs = set_pv (nxs bs b) (pvs bs b) bs;
          bs = set_nx (pvs bs b) (nxs bs b) bs;
          bs = set_nx b (nxs bs NBUF) bs;
          bs = set_pv b NBUF bs;
          bs = set_pv (nxs bs NBUF) b bs
      in set_nx NBUF b bs)"

lemma links_set [simp]:
  "bnext (set_nx j v bs ! i) = (if i = j \<and> j < length bs then v else bnext (bs ! i))"
  "bprev (set_nx j v bs ! i) = bprev (bs ! i)"
  "bprev (set_pv j v bs ! i) = (if i = j \<and> j < length bs then v else bprev (bs ! i))"
  "bnext (set_pv j v bs ! i) = bnext (bs ! i)"
  "length (set_nx j v bs) = length bs" "length (set_pv j v bs) = length bs"
  by (cases "j < length bs"; auto simp: set_nx_def set_pv_def nth_list_update list_update_beyond)+

lemma linked_relink:
  assumes "linked bs (xs @ b # ys)"
  shows "linked (relink b bs) (b # xs @ ys)"
proof -
  obtain us p where up: "NBUF # xs = us @ [p]" by (cases "NBUF # xs" rule: rev_exhaust) auto
  obtain n vs where nv: "ys @ [NBUF] = n # vs" by (cases "ys @ [NBUF]") auto
  obtain n' vs' where nv': "xs @ ys @ [NBUF] = n' # vs'" by (cases "xs @ ys @ [NBUF]") auto
  have c: "NBUF # (xs @ b # ys) @ [NBUF] = us @ p # b # n # vs" using up nv by simp
  have "NBUF # n' # vs' = (NBUF # xs) @ (ys @ [NBUF])" using nv' by simp
  then have c': "NBUF # n' # vs' = us @ p # n # vs" unfolding up nv by simp
  have dist: "distinct (NBUF # xs @ b # ys)" and len: "length bs = Suc NBUF"
    and range: "set (xs @ b # ys) = {..<NBUF}" and ch: "chain (nxs bs) (pvs bs) (us @ p # b # n # vs)"
    using assms c by (auto simp: linked_def)
  then have d: "distinct (butlast (us @ p # b # n # vs))" "distinct (tl (us @ p # b # n # vs))"
    unfolding c [symmetric] by (auto simp: butlast_append)
  from ch have b: "nxs bs b = n" "pvs bs b = p" using chain_append [of _ _ us p "b # n # vs"] by simp_all
  have "p \<in> set (NBUF # xs)" unfolding up by simp
  moreover have "n \<in> set (ys @ [NBUF])" unfolding nv by simp
  moreover have "n' \<in> set (xs @ ys @ [NBUF])" unfolding nv' by simp
  ultimately have mem: "p = NBUF \<or> p \<in> set xs" "n = NBUF \<or> n \<in> set ys" "n' = NBUF \<or> n' \<in> set xs \<or> n' \<in> set ys"
    by simp_all
  have "x < NBUF" if "x \<in> set (xs @ b # ys)" for x using that unfolding range by simp
  then have "\<forall>x \<in> set xs. x < NBUF" "\<forall>x \<in> set ys. x < NBUF" "b < NBUF" by simp_all
  with mem have lt: "p < length bs" "n < length bs" "b < length bs" "n' < length bs"
    unfolding len by (metis lessI less_SucI)+
  have bn: "b \<noteq> NBUF" "p \<noteq> b" "n \<noteq> b" "n' \<noteq> b" using dist mem by auto
  define bs1 where "bs1 = set_nx p n (set_pv n p bs)"
  have b1: "nxs bs1 = (nxs bs)(p := n)" "pvs bs1 = (pvs bs)(n := p)" "length bs1 = length bs"
    using lt by (simp_all add: bs1_def fun_eq_iff)
  have ch1: "chain (nxs bs1) (pvs bs1) (NBUF # n' # vs')"
    using chain_remove [OF ch d] unfolding c' b1 .
  have "b \<notin> set (NBUF # xs @ ys @ [NBUF])" "NBUF \<notin> set (butlast (xs @ ys @ [NBUF]))" "distinct (xs @ ys @ [NBUF])"
    using dist by (auto simp: butlast_append)
  then have "b \<notin> set (NBUF # n' # vs')" "NBUF \<notin> set (butlast (n' # vs'))" "n' \<notin> set vs'"
    unfolding nv' by simp_all
  note ins = chain_insert [OF ch1 this]
  have rl: "relink b bs = set_nx NBUF b (set_pv n' b (set_pv b NBUF (set_nx b n' bs1)))"
  proof -
    have "bnext (bs1 ! NBUF) = n'" using ch1 by simp
    then show ?thesis
      using b lt bn len by (auto simp: relink_def Let_def bs1_def split: if_splits)
  qed
  have "nxs (relink b bs) = (nxs bs1)(b := n', NBUF := b)" "pvs (relink b bs) = (pvs bs1)(b := NBUF, n' := b)"
    using lt len bn b1(3) by (simp_all add: rl fun_eq_iff)
  with ins have "chain (nxs (relink b bs)) (pvs (relink b bs)) (NBUF # b # n' # vs')"
    by (simp only:)
  moreover have "length (relink b bs) = Suc NBUF" using len b1 by (simp add: rl)
  ultimately show ?thesis
    using dist range by (auto simp: linked_def nv' [symmetric])
qed

lemma data_set_links [simp]:
  "bflags (set_nx j v bs ! i) = bflags (bs ! i)" "bflags (set_pv j v bs ! i) = bflags (bs ! i)"
  "bdev (set_nx j v bs ! i) = bdev (bs ! i)" "bdev (set_pv j v bs ! i) = bdev (bs ! i)"
  "blockno (set_nx j v bs ! i) = blockno (bs ! i)" "blockno (set_pv j v bs ! i) = blockno (bs ! i)"
  "refcnt (set_nx j v bs ! i) = refcnt (bs ! i)" "refcnt (set_pv j v bs ! i) = refcnt (bs ! i)"
  "bdata (set_nx j v bs ! i) = bdata (bs ! i)" "bdata (set_pv j v bs ! i) = bdata (bs ! i)"
  by (cases "j < length bs"; auto simp: set_nx_def set_pv_def nth_list_update list_update_beyond)+

lemma data_relink [simp]:
  "bflags (relink b bs ! i) = bflags (bs ! i)" "bdev (relink b bs ! i) = bdev (bs ! i)"
  "blockno (relink b bs ! i) = blockno (bs ! i)" "refcnt (relink b bs ! i) = refcnt (bs ! i)"
  "bdata (relink b bs ! i) = bdata (bs ! i)"
  by (simp_all add: relink_def Let_def)

lemma linked_cong:
  "linked bs ord \<Longrightarrow> length bs' = length bs \<Longrightarrow> (\<And>i. bnext (bs' ! i) = bnext (bs ! i)) \<Longrightarrow>
   (\<And>i. bprev (bs' ! i) = bprev (bs ! i)) \<Longrightarrow> linked bs' ord"
  by (simp add: linked_def)

section \<open>The invariant\<close>

text \<open>
  \<open>bc_inv s ord H\<close>: the list of buffers is \<open>ord\<close> and the running process holds the buffers in
  \<open>H\<close>. A buffer holds a block of the disk when it is not empty.
\<close>

definition buf_ok :: "'z bstate_scheme \<Rightarrow> nat set \<Rightarrow> nat \<Rightarrow> bool" where
  "buf_ok s H b \<longleftrightarrow> (let x = bufs s ! b; k = slocks s (SBuf b) in
     refcnt x = (if b \<in> H then 1 else 0) \<and> sl_locked k = (b \<in> H) \<and> (b \<in> H \<longrightarrow> sl_pid k = mypid s \<and> bdev x = 1) \<and>
     (bflags x = 0 \<or> bflags x = B_VALID \<or> bflags x = B_VALID OR B_DIRTY) \<and>
     (bflags x \<noteq> 0 \<longleftrightarrow> bdev x = 1) \<and> (bdev x = 1 \<longrightarrow> blockno x < disksize s) \<and>
     (b \<notin> H \<and> bflags x = B_VALID \<longrightarrow> bdata x = disk s (blockno x)))"

definition holds_block :: "buf list \<Rightarrow> u32 \<Rightarrow> nat \<Rightarrow> bool" where
  "holds_block bs bn b \<longleftrightarrow> bdev (bs ! b) = 1 \<and> blockno (bs ! b) = bn"

definition no_dup :: "buf list \<Rightarrow> bool" where
  "no_dup bs \<longleftrightarrow> (\<forall>b < NBUF. \<forall>b' < NBUF. \<forall>bn. holds_block bs bn b \<longrightarrow> holds_block bs bn b' \<longrightarrow> b = b')"

lemma no_dupD: "no_dup bs \<Longrightarrow> b < NBUF \<Longrightarrow> b' < NBUF \<Longrightarrow> holds_block bs bn b \<Longrightarrow> holds_block bs bn b' \<Longrightarrow> b = b'"
  unfolding no_dup_def by blast

definition bc_inv :: "'z bstate_scheme \<Rightarrow> nat list \<Rightarrow> nat set \<Rightarrow> bool" where
  "bc_inv s ord H \<longleftrightarrow> linked (bufs s) ord \<and> H \<subseteq> {..<NBUF} \<and> (\<forall>b < NBUF. buf_ok s H b) \<and> no_dup (bufs s)"

text \<open>The block contents that the cache and the disk stand for together.\<close>

definition content :: "'z bstate_scheme \<Rightarrow> u32 \<Rightarrow> block" where
  "content s bn = (case List.find (holds_block (bufs s) bn) [0..<NBUF] of
     Some b \<Rightarrow> bdata (bufs s ! b) | None \<Rightarrow> disk s bn)"

definition dirty :: "'z bstate_scheme \<Rightarrow> nat set" where
  "dirty s = {b. b < NBUF \<and> bflags (bufs s ! b) AND B_DIRTY \<noteq> 0}"

lemma bc_invD:
  assumes "bc_inv s ord H"
  shows "linked (bufs s) ord" "H \<subseteq> {..<NBUF}" "b < NBUF \<Longrightarrow> buf_ok s H b" "no_dup (bufs s)"
    "length (bufs s) = Suc NBUF"
  using assms by (simp_all add: bc_inv_def linked_def)

lemma find_SomeD: "List.find P xs = Some x \<Longrightarrow> x \<in> set xs \<and> P x"
  by (auto simp: find_Some_iff)

lemma find_unique:
  assumes "x \<in> set xs" "P x" "\<And>y. y \<in> set xs \<Longrightarrow> P y \<Longrightarrow> y = x"
  shows "List.find P xs = Some x"
proof (cases "List.find P xs")
  case None
  with assms(1,2) show ?thesis by (auto simp: find_None_iff)
next
  case (Some y)
  then have "y \<in> set xs" "P y" using find_SomeD by metis+
  with assms(3) Some show ?thesis by blast
qed

lemma content_cached:
  assumes "bc_inv s ord H" "b < NBUF" "holds_block (bufs s) bn b"
  shows "content s bn = bdata (bufs s ! b)"
proof -
  have "List.find (holds_block (bufs s) bn) [0..<NBUF] = Some b"
    by (rule find_unique) (use assms no_dupD [OF bc_invD(4) [OF assms(1)]] in auto)
  then show ?thesis by (simp add: content_def)
qed

lemma content_uncached:
  assumes "\<And>b. b < NBUF \<Longrightarrow> \<not> holds_block (bufs s) bn b"
  shows "content s bn = disk s bn"
proof -
  have "List.find (holds_block (bufs s) bn) [0..<NBUF] = None" using assms by (auto simp: find_None_iff)
  then show ?thesis by (simp add: content_def)
qed

section \<open>Getting a buffer\<close>

text \<open>A buffer that \<^verbatim>\<open>bget\<close> may recycle.\<close>

definition spare :: "buf \<Rightarrow> bool" where
  "spare x \<longleftrightarrow> refcnt x = 0 \<and> bflags x AND B_DIRTY = 0"

abbreviation locked_by_me :: "nat \<Rightarrow> 'z bstate_scheme \<Rightarrow> sleep_id \<Rightarrow> sleeplock" where
  "locked_by_me b s \<equiv> (slocks s)(SBuf b := taken (mypid s) (slocks s (SBuf b)))"

lemma bget_hit:
  assumes "calm s" "bc_inv s ord H" "b < NBUF" "b \<notin> H" "holds_block (bufs s) bn b"
  shows "bget 1 bn s = Done b (s\<lparr>bufs := (bufs s)[b := (bufs s ! b)\<lparr>refcnt := 1\<rparr>], slocks := locked_by_me b s\<rparr>)"
proof -
  have ord: "linked (bufs s) ord" "set ord = {..<NBUF}" using bc_invD [OF assms(2)] by (simp_all add: linked_def)
  have find: "List.find (\<lambda>b. bdev (bufs s ! b) = 1 \<and> blockno (bufs s ! b) = bn) ord = Some b"
    by (rule find_unique)
      (use assms ord no_dupD [OF bc_invD(4) [OF assms(2)]] in \<open>auto simp: holds_block_def\<close>)
  have b: "\<not> sl_locked (slocks s (SBuf b))" "refcnt (bufs s ! b) = 0"
    using bc_invD(3) [OF assms(2,3)] assms(4) by (simp_all add: buf_ok_def Let_def)
  show ?thesis
    using assms(1) b bfind_next [of "grab BcacheLock s"] ord(1) find
    by (simp add: bget_def calm_simps upd_buf_def)
qed

lemma bget_miss:
  assumes "calm s" "bc_inv s ord H" "\<And>b. b < NBUF \<Longrightarrow> \<not> holds_block (bufs s) bn b"
    "List.find (\<lambda>b. spare (bufs s ! b)) (rev ord) = Some b"
  shows "b < NBUF \<and> b \<notin> H \<and> bget 1 bn s =
    Done b (s\<lparr>bufs := (bufs s)[b := (bufs s ! b)\<lparr>bflags := 0, bdev := 1, blockno := bn, refcnt := 1\<rparr>],
      slocks := locked_by_me b s\<rparr>)"
proof -
  have ord: "linked (bufs s) ord" "set ord = {..<NBUF}" using bc_invD [OF assms(2)] by (simp_all add: linked_def)
  have find: "List.find (\<lambda>b. bdev (bufs s ! b) = 1 \<and> blockno (bufs s ! b) = bn) ord = None"
    using assms(3) ord(2) by (auto simp: find_None_iff holds_block_def)
  have "b \<in> set (rev ord)" "spare (bufs s ! b)" using find_SomeD [OF assms(4)] by simp_all
  then have b: "b < NBUF" "b \<notin> H" "\<not> sl_locked (slocks s (SBuf b))"
    using bc_invD(3) [OF assms(2), of b] ord(2) by (auto simp: buf_ok_def Let_def spare_def split: if_splits)
  have "bget 1 bn s =
    Done b (s\<lparr>bufs := (bufs s)[b := (bufs s ! b)\<lparr>bflags := 0, bdev := 1, blockno := bn, refcnt := 1\<rparr>],
      slocks := locked_by_me b s\<rparr>)"
    using assms(1,4) b(3) bfind_next [of "grab BcacheLock s"] bfind_prev [of "grab BcacheLock s"] ord(1) find
    by (simp add: bget_def calm_simps upd_buf_def spare_def)
  with b show ?thesis by simp
qed

lemma bget_none:
  assumes "calm s" "bc_inv s ord H" "\<And>b. b < NBUF \<Longrightarrow> \<not> holds_block (bufs s) bn b"
    "\<And>b. b < NBUF \<Longrightarrow> \<not> spare (bufs s ! b)"
  shows "bget 1 bn s = Panics ''bget: no buffers''"
proof -
  have ord: "linked (bufs s) ord" "set ord = {..<NBUF}" using bc_invD [OF assms(2)] by (simp_all add: linked_def)
  have "List.find (\<lambda>b. bdev (bufs s ! b) = 1 \<and> blockno (bufs s ! b) = bn) ord = None"
    "List.find (\<lambda>b. refcnt (bufs s ! b) = 0 \<and> bflags (bufs s ! b) AND B_DIRTY = 0) (rev ord) = None"
    using assms(3,4) ord(2) by (auto simp: find_None_iff holds_block_def spare_def)
  then show ?thesis
    using assms(1) bfind_next [of "grab BcacheLock s"] bfind_prev [of "grab BcacheLock s"] ord(1)
    by (simp add: bget_def calm_simps)
qed

section \<open>Reading and writing the disk\<close>

lemma memide_read:
  assumes "calm s" "sl_locked (slocks s (SBuf b))" "sl_pid (slocks s (SBuf b)) = mypid s" "b < length (bufs s)"
    "bflags (bufs s ! b) = 0" "bdev (bufs s ! b) = 1" "blockno (bufs s ! b) < disksize s"
  shows "memide_rw b s = Done () (s\<lparr>bufs := (bufs s)[b := (bufs s ! b)\<lparr>bflags := B_VALID, bdata := disk s (blockno (bufs s ! b))\<rparr>]\<rparr>)"
  using assms by (simp add: memide_rw_def calm_simps upd_buf_def B_VALID_def B_DIRTY_def not_le)

lemma memide_write:
  assumes "calm s" "sl_locked (slocks s (SBuf b))" "sl_pid (slocks s (SBuf b)) = mypid s" "b < length (bufs s)"
    "bflags (bufs s ! b) = B_VALID OR B_DIRTY" "bdev (bufs s ! b) = 1" "blockno (bufs s ! b) < disksize s"
  shows "memide_rw b s = Done () (s\<lparr>bufs := (bufs s)[b := (bufs s ! b)\<lparr>bflags := B_VALID\<rparr>],
    disk := (disk s)(blockno (bufs s ! b) := bdata (bufs s ! b)),
    disk_writes := disk_writes s @ [(blockno (bufs s ! b), bdata (bufs s ! b))]\<rparr>)"
  using assms by (simp add: memide_rw_def calm_simps upd_buf_def B_VALID_def B_DIRTY_def not_le)

lemma bread_miss:
  assumes "calm s" "memfs s" "bc_inv s ord H" "\<And>b. b < NBUF \<Longrightarrow> \<not> holds_block (bufs s) bn b"
    "List.find (\<lambda>b. spare (bufs s ! b)) (rev ord) = Some b" "bn < disksize s"
  shows "bread 1 bn s =
    Done b (s\<lparr>bufs := (bufs s)[b := (bufs s ! b)\<lparr>bflags := B_VALID, bdev := 1, blockno := bn, refcnt := 1, bdata := disk s bn\<rparr>],
      slocks := locked_by_me b s\<rparr>)"
proof -
  note get = bget_miss [OF assms(1,3,4,5)]
  have "b < length (bufs s)" using get bc_invD(5) [OF assms(3)] by simp
  then show ?thesis
    using get assms by (simp add: bread_def iderw_def memide_read taken_def)
qed

lemma bread_hit:
  assumes "calm s" "bc_inv s ord H" "b < NBUF" "b \<notin> H" "holds_block (bufs s) bn b"
  shows "bread 1 bn s = Done b (s\<lparr>bufs := (bufs s)[b := (bufs s ! b)\<lparr>refcnt := 1\<rparr>], slocks := locked_by_me b s\<rparr>)"
proof -
  have "bflags (bufs s ! b) = B_VALID \<or> bflags (bufs s ! b) = B_VALID OR B_DIRTY"
    using bc_invD(3) [OF assms(2,3)] assms(5) by (auto simp: buf_ok_def Let_def holds_block_def)
  then have "bflags (bufs s ! b) AND B_VALID \<noteq> 0" by (auto simp: B_VALID_def B_DIRTY_def)
  then show ?thesis
    using bget_hit [OF assms] assms(3) bc_invD(5) [OF assms(2)] by (simp add: bread_def)
qed

section \<open>Preservation of the invariant\<close>

lemma nth_upd: "i < length bs \<Longrightarrow> bs[b := x] ! i = (if i = b then x else bs ! i)"
  by (simp add: nth_list_update)

lemma linked_upd:
  assumes "linked bs ord" "bnext x = bnext (bs ! b)" "bprev x = bprev (bs ! b)"
  shows "linked (bs[b := x]) ord"
proof (cases "b < length bs")
  case True
  have "bnext (bs[b := x] ! i) = bnext (bs ! i)" "bprev (bs[b := x] ! i) = bprev (bs ! i)" for i
    using True assms(2,3) by (simp_all add: nth_list_update)
  then show ?thesis by (intro linked_cong [OF assms(1)]) simp_all
next
  case False
  then show ?thesis using assms(1) by (simp add: list_update_beyond)
qed

lemma content_cong:
  assumes "\<And>b. b < NBUF \<Longrightarrow> holds_block (bufs t) bn b = holds_block (bufs s) bn b"
    "\<And>b. b < NBUF \<Longrightarrow> holds_block (bufs s) bn b \<Longrightarrow> bdata (bufs t ! b) = bdata (bufs s ! b)" "disk t bn = disk s bn"
  shows "content t bn = content s bn"
proof -
  have eq: "List.find (holds_block (bufs t) bn) [0..<NBUF] = List.find (holds_block (bufs s) bn) [0..<NBUF]"
    using assms(1) by (intro find_cong) auto
  show ?thesis
    unfolding content_def eq using assms(2,3) find_SomeD [of "holds_block (bufs s) bn" "[0..<NBUF]"]
    by (auto split: option.split)
qed

text \<open>What an operation on the cache leaves alone.\<close>

lemma hit_inv:
  assumes "bc_inv s ord H" "b < NBUF" "b \<notin> H" "holds_block (bufs s) bn b"
  defines "t \<equiv> s\<lparr>slocks := locked_by_me b s, bufs := (bufs s)[b := (bufs s ! b)\<lparr>refcnt := 1\<rparr>]\<rparr>"
  shows "bc_inv t ord (insert b H)" "content t = content s" "dirty t = dirty s"
proof -
  have len: "length (bufs s) = Suc NBUF" using assms(1) by (rule bc_invD)
  have hb: "holds_block (bufs t) = holds_block (bufs s)"
    using len assms(2) by (auto simp: t_def holds_block_def fun_eq_iff nth_list_update)
  have "buf_ok t (insert b H) i" if "i < NBUF" for i
    using bc_invD(3) [OF assms(1) that] assms(2-4) len that
    by (auto simp: buf_ok_def Let_def t_def nth_list_update holds_block_def taken_def)
  moreover have "linked (bufs t) ord"
    unfolding t_def using bc_invD(1) [OF assms(1)] by (simp add: linked_upd)
  ultimately show "bc_inv t ord (insert b H)"
    using bc_invD(2,4) [OF assms(1)] assms(2) by (simp add: bc_inv_def no_dup_def hb)
  show "content t = content s"
    by (rule ext, rule content_cong) (use len assms(2) in \<open>simp_all add: hb, simp_all add: t_def nth_list_update\<close>)
  show "dirty t = dirty s"
    using len assms(2) by (auto simp: dirty_def t_def nth_list_update)
qed

lemma miss_inv:
  assumes "bc_inv s ord H" "b < NBUF" "b \<notin> H" "spare (bufs s ! b)" "bn < disksize s"
    "\<And>b. b < NBUF \<Longrightarrow> \<not> holds_block (bufs s) bn b"
  defines "t \<equiv> s\<lparr>slocks := locked_by_me b s, bufs := (bufs s)[b := (bufs s ! b)
      \<lparr>bflags := B_VALID, bdev := 1, blockno := bn, refcnt := 1, bdata := disk s bn\<rparr>]\<rparr>"
  shows "bc_inv t ord (insert b H)" "content t = content s" "dirty t = dirty s"
proof -
  have len: "length (bufs s) = Suc NBUF" using assms(1) by (rule bc_invD)
  have hb: "holds_block (bufs t) n i \<longleftrightarrow> (if i = b then n = bn else holds_block (bufs s) n i)" if "i < NBUF" for n i
    using len assms(2) that by (auto simp: t_def holds_block_def nth_list_update)
  have flags: "B_VALID \<noteq> 0" "B_VALID AND B_DIRTY = 0" by (simp_all add: B_VALID_def B_DIRTY_def)
  have "buf_ok t (insert b H) i" if "i < NBUF" for i
    using bc_invD(3) [OF assms(1) that] assms(2-5) len that flags
    by (auto simp: buf_ok_def Let_def t_def nth_list_update taken_def)
  moreover have "linked (bufs t) ord"
    unfolding t_def using bc_invD(1) [OF assms(1)] by (simp add: linked_upd)
  moreover have "no_dup (bufs t)"
    using assms(6) no_dupD [OF bc_invD(4) [OF assms(1)]] unfolding no_dup_def by (auto simp: hb)
  ultimately show inv: "bc_inv t ord (insert b H)"
    using bc_invD(2) [OF assms(1)] assms(2) by (simp add: bc_inv_def)
  have old: "content s n = disk s n" if "holds_block (bufs s) n b" for n
    using content_cached [OF assms(1,2) that] bc_invD(3) [OF assms(1,2)] assms(3,4) that
    by (auto simp: buf_ok_def Let_def holds_block_def spare_def B_VALID_def B_DIRTY_def)
  have "content t n = content s n" for n
  proof (cases "n = bn \<or> holds_block (bufs s) n b")
    case True
    moreover have "content t n = disk s n"
    proof (cases "n = bn")
      case True
      then show ?thesis using content_cached [OF inv assms(2)] hb [OF assms(2)] assms(2) len by (simp add: t_def)
    next
      case False
      with True have "\<not> holds_block (bufs t) n i" if "i < NBUF" for i
        using hb [OF that] no_dupD [OF bc_invD(4) [OF assms(1)] that assms(2)] by auto
      then show ?thesis by (simp add: content_uncached) (simp add: t_def)
    qed
    ultimately show ?thesis using old content_uncached [OF assms(6)] by auto
  next
    case False
    then show ?thesis
      by (intro content_cong) (use hb len assms(2) in \<open>auto simp: t_def nth_list_update\<close>)
  qed
  then show "content t = content s" by (rule ext)
  show "dirty t = dirty s"
    using len assms(2,4) flags(2) by (auto simp: dirty_def t_def nth_list_update spare_def split: if_splits)
qed

text \<open>Changing the data or the flags of a held buffer.\<close>

lemma set_data_inv:
  fixes d :: block
  assumes "bc_inv s ord H" "b \<in> H"
  defines "t \<equiv> s\<lparr>bufs := (bufs s)[b := (bufs s ! b)\<lparr>bdata := d\<rparr>]\<rparr>"
  shows "bc_inv t ord H" "content t = (content s)(blockno (bufs s ! b) := d)" "dirty t = dirty s"
proof -
  have len: "length (bufs s) = Suc NBUF" using assms(1) by (rule bc_invD)
  have b: "b < NBUF" using bc_invD(2) [OF assms(1)] assms(2) by auto
  have hb: "holds_block (bufs t) = holds_block (bufs s)"
    using len b by (auto simp: t_def holds_block_def fun_eq_iff nth_list_update)
  have "buf_ok t H i" if "i < NBUF" for i
    using bc_invD(3) [OF assms(1) that] assms(2) len that b
    by (auto simp: buf_ok_def Let_def t_def nth_list_update)
  moreover have "linked (bufs t) ord"
    unfolding t_def using bc_invD(1) [OF assms(1)] by (simp add: linked_upd)
  ultimately show inv: "bc_inv t ord H"
    using bc_invD(2,4) [OF assms(1)] by (simp add: bc_inv_def no_dup_def hb)
  have own: "holds_block (bufs s) (blockno (bufs s ! b)) b"
    using bc_invD(3) [OF assms(1) b] assms(2) by (simp add: buf_ok_def Let_def holds_block_def)
  have "content t n = (if n = blockno (bufs s ! b) then d else content s n)" for n
  proof (cases "n = blockno (bufs s ! b)")
    case True
    then show ?thesis using content_cached [OF inv b] own hb len b by (simp add: t_def)
  next
    case False
    then have "content t n = content s n"
      by (intro content_cong) (simp add: hb, use len b in \<open>auto simp: t_def nth_list_update holds_block_def\<close>)
    with False show ?thesis by simp
  qed
  then show "content t = (content s)(blockno (bufs s ! b) := d)" by (auto simp: fun_eq_iff)
  show "dirty t = dirty s"
    using len b by (auto simp: dirty_def t_def nth_list_update)
qed

lemma set_flags_inv:
  assumes "bc_inv s ord H" "b \<in> H" "fl = B_VALID \<or> fl = B_VALID OR B_DIRTY"
  defines "t \<equiv> s\<lparr>bufs := (bufs s)[b := (bufs s ! b)\<lparr>bflags := fl\<rparr>]\<rparr>"
  shows "bc_inv t ord H" "content t = content s" "dirty t = (if fl = B_VALID then dirty s - {b} else insert b (dirty s))"
proof -
  have len: "length (bufs s) = Suc NBUF" using assms(1) by (rule bc_invD)
  have b: "b < NBUF" using bc_invD(2) [OF assms(1)] assms(2) by auto
  have hb: "holds_block (bufs t) = holds_block (bufs s)"
    using len b by (auto simp: t_def holds_block_def fun_eq_iff nth_list_update)
  have fl: "fl \<noteq> 0" "fl AND B_DIRTY \<noteq> 0 \<longleftrightarrow> fl \<noteq> B_VALID" using assms(3) by (auto simp: B_VALID_def B_DIRTY_def)
  have "buf_ok t H i" if "i < NBUF" for i
    using bc_invD(3) [OF assms(1) that] assms(2,3) len that b fl(1)
    by (auto simp: buf_ok_def Let_def t_def nth_list_update)
  moreover have "linked (bufs t) ord"
    unfolding t_def using bc_invD(1) [OF assms(1)] by (simp add: linked_upd)
  ultimately show "bc_inv t ord H"
    using bc_invD(2,4) [OF assms(1)] by (simp add: bc_inv_def no_dup_def hb)
  show "content t = content s"
    by (rule ext, rule content_cong) (use len b in \<open>simp_all add: hb, simp_all add: t_def nth_list_update\<close>)
  show "dirty t = (if fl = B_VALID then dirty s - {b} else insert b (dirty s))"
    using len b fl(2) by (auto simp: dirty_def t_def nth_list_update)
qed

lemma set_disk_inv:
  fixes d :: block and w :: "(u32 \<times> block) list"
  assumes "bc_inv s ord H" "b \<in> H" "n = blockno (bufs s ! b)"
  defines "t \<equiv> s\<lparr>disk := (disk s)(n := d), disk_writes := w\<rparr>"
  shows "bc_inv t ord H" "content t = content s" "dirty t = dirty s"
proof -
  have b: "b < NBUF" using bc_invD(2) [OF assms(1)] assms(2) by auto
  have own: "holds_block (bufs s) n b"
    using bc_invD(3) [OF assms(1) b] assms(2,3) by (simp add: buf_ok_def Let_def holds_block_def)
  have "buf_ok t H i" if i: "i < NBUF" for i
    using bc_invD(3) [OF assms(1) i] no_dupD [OF bc_invD(4) [OF assms(1)] b i own] assms(2)
    by (auto simp: buf_ok_def Let_def t_def holds_block_def B_VALID_def)
  then show inv: "bc_inv t ord H"
    using bc_invD [OF assms(1)] by (simp add: bc_inv_def) (simp add: t_def)
  show "content t = content s"
  proof
    fix m
    show "content t m = content s m"
    proof (cases "m = n")
      case True
      then show ?thesis
        using content_cached [OF assms(1) b] content_cached [OF inv b] own by (simp add: t_def)
    next
      case False
      then show ?thesis by (intro content_cong) (simp_all add: t_def)
    qed
  qed
  show "dirty t = dirty s" by (simp add: dirty_def t_def)
qed

text \<open>Releasing a held buffer: a clean one must agree with the disk.\<close>

lemma release_inv:
  assumes "bc_inv s ord H" "b \<in> H" "bflags (bufs s ! b) = B_VALID \<longrightarrow> bdata (bufs s ! b) = disk s (blockno (bufs s ! b))"
  defines "t \<equiv> s\<lparr>slocks := (slocks s)(SBuf b := untaken (slocks s (SBuf b))),
    bufs := relink b ((bufs s)[b := (bufs s ! b)\<lparr>refcnt := 0\<rparr>])\<rparr>"
  shows "bc_inv t (b # remove1 b ord) (H - {b})" "content t = content s" "dirty t = dirty s"
proof -
  have len: "length (bufs s) = Suc NBUF" using assms(1) by (rule bc_invD)
  have b: "b < NBUF" using bc_invD(2) [OF assms(1)] assms(2) by auto
  let ?bs = "(bufs s)[b := (bufs s ! b)\<lparr>refcnt := 0\<rparr>]"
  have hb: "holds_block (bufs t) = holds_block (bufs s)"
    using len b by (auto simp: t_def holds_block_def fun_eq_iff nth_list_update)
  have "buf_ok t (H - {b}) i" if "i < NBUF" for i
    using bc_invD(3) [OF assms(1) that] assms(2,3) len that b
    by (auto simp: buf_ok_def Let_def t_def nth_list_update untaken_def)
  moreover have "linked (bufs t) (b # remove1 b ord)"
  proof -
    have ord: "linked ?bs ord" using bc_invD(1) [OF assms(1)] by (simp add: linked_upd)
    then have "b \<in> set ord" "distinct ord" using b by (simp_all add: linked_def)
    then obtain xs ys where "ord = xs @ b # ys" "b \<notin> set xs" by (auto dest: split_list_first)
    with ord show ?thesis using linked_relink [of ?bs xs b ys] by (simp add: t_def remove1_append)
  qed
  ultimately show "bc_inv t (b # remove1 b ord) (H - {b})"
    using bc_invD(2,4) [OF assms(1)] by (auto simp: bc_inv_def no_dup_def hb)
  show "content t = content s"
    by (rule ext, rule content_cong) (use len b in \<open>simp_all add: hb, simp_all add: t_def nth_list_update\<close>)
  show "dirty t = dirty s"
    using len b by (auto simp: dirty_def t_def nth_list_update)
qed

lemma brelse_held:
  assumes "calm s" "bc_inv s ord H" "b \<in> H"
  shows "brelse b s = Done () (s\<lparr>slocks := (slocks s)(SBuf b := untaken (slocks s (SBuf b))),
    bufs := relink b ((bufs s)[b := (bufs s ! b)\<lparr>refcnt := 0\<rparr>])\<rparr>)"
proof -
  have b: "b < NBUF" using bc_invD(2) [OF assms(2)] assms(3) by auto
  have "b < length (bufs s)" using b bc_invD(5) [OF assms(2)] by simp
  moreover have "sl_locked (slocks s (SBuf b))" "sl_pid (slocks s (SBuf b)) = mypid s" "refcnt (bufs s ! b) = 1"
    using bc_invD(3) [OF assms(2) b] assms(3) by (simp_all add: buf_ok_def Let_def)
  ultimately show ?thesis
    using assms(1)
    by (simp add: brelse_def calm_simps upd_buf_def link_first_def Let_def relink_def set_nx_def set_pv_def)
qed

end
