(* ===== verification/Blocks.thy ===== *)
theory Blocks
  imports Bcache
begin

text \<open>
  The buffer cache as its clients see it: block contents, the set of pinned blocks, and the blocks
  that the running process holds. The locale states what \<^verbatim>\<open>bread\<close>,
  \<^verbatim>\<open>bwrite\<close> and \<^verbatim>\<open>brelse\<close> promise, and derives the ways in which the log and
  the file system use them. The cache of \<open>Bio\<close> is its instance.
\<close>

section \<open>The interface\<close>

locale block_cache =
  fixes cache :: "'s \<Rightarrow> (nat \<rightharpoonup> u32) \<Rightarrow> (u32 \<Rightarrow> block) \<Rightarrow> u32 set \<Rightarrow> bool"
    and limit :: "'s \<Rightarrow> u32"
    and dsk :: "'s \<Rightarrow> u32 \<Rightarrow> block"
    and trace :: "'s \<Rightarrow> (u32 \<times> block) list"
    and same :: "'s \<Rightarrow> 's \<Rightarrow> bool"
    and get_buf :: "u32 \<Rightarrow> ('s, nat) routine"
    and put_buf :: "nat \<Rightarrow> ('s, unit) routine"
    and rel_buf :: "nat \<Rightarrow> ('s, unit) routine"
    and data_of :: "'s \<Rightarrow> nat \<Rightarrow> block"
    and set_data :: "nat \<Rightarrow> block \<Rightarrow> 's \<Rightarrow> 's"
  assumes same_refl: "same s s"
    and same_trans: "same t s \<Longrightarrow> same u t \<Longrightarrow> same u s"
    and same_limit: "same t s \<Longrightarrow> limit t = limit s"
    and read_law: "cache s h C P \<Longrightarrow> bn < limit s \<Longrightarrow> bn \<notin> ran h \<Longrightarrow> bn \<in> P \<or> card (dom h) + card P < NBUF \<Longrightarrow>
      \<exists>b t. get_buf bn s = Done b t \<and> b \<notin> dom h \<and> cache t (h(b \<mapsto> bn)) C P \<and> same t s \<and> dsk t = dsk s \<and> trace t = trace s"
    and data_law: "cache s h C P \<Longrightarrow> h b = Some bn \<Longrightarrow> data_of s b = C bn"
    and set_law: "cache s h C P \<Longrightarrow> h b = Some bn \<Longrightarrow>
      cache (set_data b d s) h (C(bn := d)) P \<and> same (set_data b d s) s \<and> dsk (set_data b d s) = dsk s \<and> trace (set_data b d s) = trace s"
    and write_law: "cache s h C P \<Longrightarrow> h b = Some bn \<Longrightarrow>
      \<exists>t. put_buf b s = Done () t \<and> cache t h C (P - {bn}) \<and> same t s \<and> dsk t = (dsk s)(bn := C bn) \<and>
        trace t = trace s @ [(bn, C bn)]"
    and release_law: "cache s h C P \<Longrightarrow> h b = Some bn \<Longrightarrow> bn \<in> P \<or> C bn = dsk s bn \<Longrightarrow>
      \<exists>t. rel_buf b s = Done () t \<and> cache t (h(b := None)) C P \<and> same t s \<and> dsk t = dsk s \<and> trace t = trace s"
begin

text \<open>Reading a block and releasing it.\<close>

lemma use_block:
  assumes "cache s Map.empty C P" "bn < limit s" "bn \<in> P \<or> card P < NBUF" "bn \<in> P \<or> C bn = dsk s bn"
  shows "\<exists>t. bnd (get_buf bn) (\<lambda>b. bnd (gets (\<lambda>s. f (data_of s b))) (\<lambda>x. seq (rel_buf b) (ret x))) s = Done (f (C bn)) t \<and>
    cache t Map.empty C P \<and> same t s \<and> dsk t = dsk s \<and> trace t = trace s"
proof -
  obtain b t where 1: "get_buf bn s = Done b t" "cache t [b \<mapsto> bn] C P" "same t s" "dsk t = dsk s" "trace t = trace s"
    using read_law [OF assms(1,2)] assms(3) by auto
  have d: "data_of t b = C bn" using data_law [OF 1(2)] by simp
  obtain u where "rel_buf b t = Done () u" "cache u Map.empty C P" "same u t" "dsk u = dsk t" "trace u = trace t"
    using release_law [OF 1(2), of b bn] assms(4) 1(4) by auto
  with 1 d show ?thesis by (auto intro: same_trans)
qed

text \<open>Changing a block and writing it out.\<close>

lemma update_block:
  assumes "cache s Map.empty C P" "bn < limit s" "bn \<in> P \<or> card P < NBUF"
  shows "\<exists>t. bnd (get_buf bn) (\<lambda>b. seq (modify (\<lambda>s. set_data b (f (data_of s b)) s)) (seq (put_buf b) (rel_buf b))) s = Done () t \<and>
    cache t Map.empty (C(bn := f (C bn))) (P - {bn}) \<and> same t s \<and> dsk t = (dsk s)(bn := f (C bn)) \<and>
    trace t = trace s @ [(bn, f (C bn))]"
proof -
  obtain b t where 1: "get_buf bn s = Done b t" "cache t [b \<mapsto> bn] C P" "same t s" "dsk t = dsk s" "trace t = trace s"
    using read_law [OF assms(1,2)] assms(3) by auto
  have d: "data_of t b = C bn" using data_law [OF 1(2)] by simp
  let ?u = "set_data b (f (C bn)) t"
  have 2: "cache ?u [b \<mapsto> bn] (C(bn := f (C bn))) P" "same ?u t" "dsk ?u = dsk t" "trace ?u = trace t"
    using set_law [OF 1(2), of b bn "f (C bn)"] by simp_all
  obtain v where 3: "put_buf b ?u = Done () v" "cache v [b \<mapsto> bn] (C(bn := f (C bn))) (P - {bn})" "same v ?u"
    "dsk v = (dsk ?u)(bn := f (C bn))" "trace v = trace ?u @ [(bn, f (C bn))]"
    using write_law [OF 2(1), of b bn] by auto
  obtain w where "rel_buf b v = Done () w" "cache w Map.empty (C(bn := f (C bn))) (P - {bn})" "same w v"
    "dsk w = dsk v" "trace w = trace v"
    using release_law [OF 3(2), of b bn] 3(4) by auto
  with 1 2 3 d show ?thesis by (auto intro: same_trans)
qed

text \<open>Copying one block to another, with the buffers taken in either order.\<close>

lemma copy_held:
  assumes "cache s [a \<mapsto> src, b \<mapsto> dst] C P" "a \<noteq> b" "src \<noteq> dst" "src \<in> P \<or> C src = dsk s src"
  shows "\<exists>t. seq (modify (\<lambda>s. set_data b (data_of s a) s)) (seq (put_buf b) (seq (rel_buf a) (rel_buf b))) s = Done () t \<and>
    cache t Map.empty (C(dst := C src)) (P - {dst}) \<and> same t s \<and> dsk t = (dsk s)(dst := C src) \<and>
    trace t = trace s @ [(dst, C src)]"
proof -
  let ?h = "[a \<mapsto> src, b \<mapsto> dst]" and ?C = "C(dst := C src)" and ?u = "set_data b (C src) s"
  have d: "data_of s a = C src" using data_law [OF assms(1), of a src] assms(2) by simp
  have 1: "cache ?u ?h ?C P" "same ?u s" "dsk ?u = dsk s" "trace ?u = trace s"
    using set_law [OF assms(1), of b dst "C src"] by simp_all
  obtain v where 2: "put_buf b ?u = Done () v" "cache v ?h ?C (P - {dst})" "same v ?u"
    "dsk v = (dsk ?u)(dst := C src)" "trace v = trace ?u @ [(dst, C src)]"
    using write_law [OF 1(1), of b dst] by auto
  obtain w where 3: "rel_buf a v = Done () w" "cache w (?h(a := None)) ?C (P - {dst})" "same w v"
    "dsk w = dsk v" "trace w = trace v"
    using release_law [OF 2(2), of a src] 2(4) 1(3) assms(2-4) by auto
  have h: "?h(a := None) = [b \<mapsto> dst]" using assms(2) by auto
  obtain x where "rel_buf b w = Done () x" "cache x Map.empty ?C (P - {dst})" "same x w"
    "dsk x = dsk w" "trace x = trace w"
    using release_law [OF 3(2), of b dst] 3(4) 2(4) assms(2) by (auto simp: h)
  with 1 2 3 d show ?thesis by (auto intro: same_trans)
qed

lemma copy_block:
  assumes "cache s Map.empty C P" "src < limit s" "dst < limit s" "src \<noteq> dst" "src \<in> P \<or> C src = dsk s src"
    "card P < NBUF" "src \<in> P \<or> dst \<in> P \<or> card P + 1 < NBUF"
  defines "tail \<equiv> (\<lambda>a b. seq (modify (\<lambda>s. set_data b (data_of s a) s)) (seq (put_buf b) (seq (rel_buf a) (rel_buf b))))"
  shows "src \<notin> P \<Longrightarrow> \<exists>t. bnd (get_buf src) (\<lambda>a. bnd (get_buf dst) (\<lambda>b. tail a b)) s = Done () t \<and>
      cache t Map.empty (C(dst := C src)) (P - {dst}) \<and> same t s \<and> dsk t = (dsk s)(dst := C src) \<and>
      trace t = trace s @ [(dst, C src)]"
    "dst \<notin> P \<Longrightarrow> \<exists>t. bnd (get_buf dst) (\<lambda>b. bnd (get_buf src) (\<lambda>a. tail a b)) s = Done () t \<and>
      cache t Map.empty (C(dst := C src)) (P - {dst}) \<and> same t s \<and> dsk t = (dsk s)(dst := C src) \<and>
      trace t = trace s @ [(dst, C src)]"
proof -
  have first: "\<exists>b t. get_buf n s = Done b t \<and> cache t [b \<mapsto> n] C P \<and> same t s \<and> dsk t = dsk s \<and> trace t = trace s"
    if "n < limit s" for n using read_law [OF assms(1) that] assms(6) by auto
  show "\<exists>t. bnd (get_buf src) (\<lambda>a. bnd (get_buf dst) (\<lambda>b. tail a b)) s = Done () t \<and>
      cache t Map.empty (C(dst := C src)) (P - {dst}) \<and> same t s \<and> dsk t = (dsk s)(dst := C src) \<and>
      trace t = trace s @ [(dst, C src)]" if nP: "src \<notin> P"
  proof -
    obtain a t where 1: "get_buf src s = Done a t" "cache t [a \<mapsto> src] C P" "same t s" "dsk t = dsk s" "trace t = trace s"
      using first [OF assms(2)] by auto
    obtain b u where 2: "get_buf dst t = Done b u" "b \<noteq> a" "cache u [a \<mapsto> src, b \<mapsto> dst] C P" "same u t"
      "dsk u = dsk t" "trace u = trace t"
      using read_law [OF 1(2), of dst] assms(3,4,7) nP same_limit [OF 1(3)] by auto
    from copy_held [OF 2(3)] 1 2 assms(4,5) show ?thesis by (auto simp: tail_def intro: same_trans)
  qed
  show "\<exists>t. bnd (get_buf dst) (\<lambda>b. bnd (get_buf src) (\<lambda>a. tail a b)) s = Done () t \<and>
      cache t Map.empty (C(dst := C src)) (P - {dst}) \<and> same t s \<and> dsk t = (dsk s)(dst := C src) \<and>
      trace t = trace s @ [(dst, C src)]" if nP: "dst \<notin> P"
  proof -
    obtain b t where 1: "get_buf dst s = Done b t" "cache t [b \<mapsto> dst] C P" "same t s" "dsk t = dsk s" "trace t = trace s"
      using first [OF assms(3)] by auto
    obtain a u where 2: "get_buf src t = Done a u" "a \<noteq> b" "cache u [b \<mapsto> dst, a \<mapsto> src] C P" "same u t"
      "dsk u = dsk t" "trace u = trace t"
      using read_law [OF 1(2), of src] assms(2,4,7) nP same_limit [OF 1(3)] by auto
    have "[b \<mapsto> dst, a \<mapsto> src] = [a \<mapsto> src, b \<mapsto> dst]" using 2(2) by auto
    from copy_held [OF 2(3) [unfolded this]] 1 2 assms(4,5) show ?thesis by (auto simp: tail_def intro: same_trans)
  qed
qed

end

section \<open>The cache of the kernel\<close>

definition pinned :: "'z bstate_scheme \<Rightarrow> u32 set" where
  "pinned s = (\<lambda>b. blockno (bufs s ! b)) ` dirty s"

definition cache :: "'z bstate_scheme \<Rightarrow> (nat \<rightharpoonup> u32) \<Rightarrow> (u32 \<Rightarrow> block) \<Rightarrow> u32 set \<Rightarrow> bool" where
  "cache s h C P \<longleftrightarrow> calm s \<and> memfs s \<and> (\<exists>ord. bc_inv s ord (dom h)) \<and> content s = C \<and> pinned s = P \<and>
     (\<forall>b bn. h b = Some bn \<longrightarrow> blockno (bufs s ! b) = bn)"

definition same_but_cache :: "'z bstate_scheme \<Rightarrow> 'z bstate_scheme \<Rightarrow> bool" where
  "same_but_cache t s \<longleftrightarrow> (\<exists>sl bs d w. t = s\<lparr>slocks := sl, bufs := bs, disk := d, disk_writes := w\<rparr>)"

definition put_data :: "nat \<Rightarrow> block \<Rightarrow> 'z bstate_scheme \<Rightarrow> 'z bstate_scheme" where
  "put_data b d = upd_buf b (\<lambda>x. x\<lparr>bdata := d\<rparr>)"

lemma sameI: "same_but_cache (s\<lparr>slocks := sl, bufs := bs\<rparr>) s" "same_but_cache (s\<lparr>bufs := bs\<rparr>) s"
  "same_but_cache (s\<lparr>bufs := bs, disk := d, disk_writes := w\<rparr>) s"
  unfolding same_but_cache_def
  by (intro exI [of _ sl] exI [of _ "slocks s"] exI [of _ bs] exI [of _ "disk s"] exI [of _ "disk_writes s"]
      exI [of _ d] exI [of _ w], simp)+

lemma dirty_holds:
  assumes "bc_inv s ord H" "b \<in> dirty s"
  shows "b < NBUF" "holds_block (bufs s) (blockno (bufs s ! b)) b"
  using assms bc_invD(3) [OF assms(1), of b] by (auto simp: dirty_def buf_ok_def Let_def holds_block_def B_VALID_def B_DIRTY_def)

lemma card_pinned:
  assumes "bc_inv s ord H"
  shows "card (pinned s) = card (dirty s)"
  unfolding pinned_def
proof (rule card_image, rule inj_onI)
  fix a b assume "a \<in> dirty s" "b \<in> dirty s" "blockno (bufs s ! a) = blockno (bufs s ! b)"
  then show "a = b"
    using no_dupD [OF bc_invD(4) [OF assms]] dirty_holds [OF assms, of a] dirty_holds [OF assms, of b] by simp
qed

lemma spare_exists:
  assumes "bc_inv s ord H" "card H + card (pinned s) < NBUF"
  shows "\<exists>b. List.find (\<lambda>b. spare (bufs s ! b)) (rev ord) = Some b"
proof -
  have "card (H \<union> dirty s) < card {..<NBUF}"
    using card_Un_le [of H "dirty s"] assms(2) card_pinned [OF assms(1)] by simp
  moreover have "H \<union> dirty s \<subseteq> {..<NBUF}" using bc_invD(2) [OF assms(1)] by (auto simp: dirty_def)
  ultimately obtain b where b: "b < NBUF" "b \<notin> H" "b \<notin> dirty s" by (metis Un_iff lessThan_iff less_irrefl subsetI subset_antisym)
  then have "spare (bufs s ! b)" using bc_invD(3) [OF assms(1) b(1)] by (simp add: spare_def dirty_def buf_ok_def Let_def)
  moreover have "b \<in> set (rev ord)" using b bc_invD(1) [OF assms(1)] by (simp add: linked_def)
  ultimately have "List.find (\<lambda>b. spare (bufs s ! b)) (rev ord) \<noteq> None" by (auto simp: find_None_iff)
  then show ?thesis by auto
qed

lemma cacheD:
  assumes "cache s h C P"
  shows "calm s" "memfs s" "content s = C" "pinned s = P" "h b = Some bn \<Longrightarrow> blockno (bufs s ! b) = bn"
  using assms by (simp_all add: cache_def)

lemma bread_law:
  assumes "cache s h C P" "bn < disksize s" "bn \<notin> ran h" "bn \<in> P \<or> card (dom h) + card P < NBUF"
  shows "\<exists>b t. bread 1 bn s = Done b t \<and> b \<notin> dom h \<and> cache t (h(b \<mapsto> bn)) C P \<and> same_but_cache t s \<and>
    disk t = disk s \<and> disk_writes t = disk_writes s"
proof -
  obtain ord where inv: "bc_inv s ord (dom h)" using assms(1) by (auto simp: cache_def)
  have len: "length (bufs s) = Suc NBUF" using inv by (rule bc_invD)
  show ?thesis
  proof (cases "\<exists>b < NBUF. holds_block (bufs s) bn b")
    case True
    then obtain b where b: "b < NBUF" "holds_block (bufs s) bn b" by auto
    then have "b \<notin> dom h" using assms(3) cacheD(5) [OF assms(1)] by (auto simp: holds_block_def ran_def)
    note hit = bread_hit [OF cacheD(1) [OF assms(1)] inv b(1) this b(2)] hit_inv [OF inv b(1) this b(2)]
    let ?t = "s\<lparr>slocks := locked_by_me b s, bufs := (bufs s)[b := (bufs s ! b)\<lparr>refcnt := 1\<rparr>]\<rparr>"
    have no: "blockno (bufs ?t ! i) = blockno (bufs s ! i)" for i using b len by (simp add: nth_list_update)
    then have "pinned ?t = pinned s" using hit(4) by (simp add: pinned_def)
    then have "cache ?t (h(b \<mapsto> bn)) C P"
      using hit(2,3) assms(1) b no by (auto simp: cache_def holds_block_def)
    with hit(1) \<open>b \<notin> dom h\<close> show ?thesis by (intro exI [of _ b] exI [of _ ?t]) (simp add: sameI)
  next
    case False
    then have un: "\<not> holds_block (bufs s) bn b" if "b < NBUF" for b using that by auto
    then have "bn \<notin> P" using dirty_holds [OF inv] cacheD(4) [OF assms(1)] by (auto simp: pinned_def)
    then obtain b where f: "List.find (\<lambda>b. spare (bufs s ! b)) (rev ord) = Some b"
      using spare_exists [OF inv] assms(4) cacheD(4) [OF assms(1)] by auto
    note miss = bread_miss [OF cacheD(1,2) [OF assms(1)] inv un f assms(2)]
    have b: "b < NBUF" "b \<notin> dom h" "spare (bufs s ! b)"
      using bget_miss [OF cacheD(1) [OF assms(1)] inv un f] find_SomeD [OF f] by auto
    note inv' = miss_inv [OF inv b assms(2) un]
    let ?t = "s\<lparr>slocks := locked_by_me b s, bufs := (bufs s)[b := (bufs s ! b)
      \<lparr>bflags := B_VALID, bdev := 1, blockno := bn, refcnt := 1, bdata := disk s bn\<rparr>]\<rparr>"
    have "b \<notin> dirty s" using b(3) by (simp add: dirty_def spare_def)
    then have "pinned ?t = pinned s"
      unfolding pinned_def using b(1) len by (intro image_cong inv'(3)) (auto simp: nth_list_update inv'(3))
    then have "cache ?t (h(b \<mapsto> bn)) C P"
      using inv'(1,2) assms(1) b len by (auto simp: cache_def nth_list_update)
    with miss b(2) show ?thesis by (intro exI [of _ b] exI [of _ ?t]) (simp add: sameI)
  qed
qed

lemma held:
  assumes "cache s h C P" "h b = Some bn"
  shows "b < NBUF" "holds_block (bufs s) bn b" "blockno (bufs s ! b) = bn" "b < length (bufs s)"
    "sl_locked (slocks s (SBuf b))" "sl_pid (slocks s (SBuf b)) = mypid s" "bdev (bufs s ! b) = 1"
    "bflags (bufs s ! b) = B_VALID \<or> bflags (bufs s ! b) = B_VALID OR B_DIRTY" "bn < disksize s"
proof -
  obtain ord where inv: "bc_inv s ord (dom h)" using assms(1) by (auto simp: cache_def)
  show "b < NBUF" using bc_invD(2) [OF inv] assms(2) by auto
  then show "b < length (bufs s)" "sl_locked (slocks s (SBuf b))" "sl_pid (slocks s (SBuf b)) = mypid s"
    "bdev (bufs s ! b) = 1" "bflags (bufs s ! b) = B_VALID \<or> bflags (bufs s ! b) = B_VALID OR B_DIRTY"
    using bc_invD(3) [OF inv, of b] bc_invD(5) [OF inv] assms(2) by (auto simp: buf_ok_def Let_def domI)
  show "blockno (bufs s ! b) = bn" using cacheD(5) [OF assms] .
  then show "holds_block (bufs s) bn b" "bn < disksize s"
    using bc_invD(3) [OF inv \<open>b < NBUF\<close>] assms(2) by (auto simp: buf_ok_def Let_def holds_block_def domI)
qed

lemma bdata_law:
  assumes "cache s h C P" "h b = Some bn"
  shows "bdata (bufs s ! b) = C bn"
proof -
  obtain ord where inv: "bc_inv s ord (dom h)" using assms(1) by (auto simp: cache_def)
  then show ?thesis using content_cached [OF inv held(1,2) [OF assms]] cacheD(3) [OF assms(1)] by simp
qed

lemma put_data_law:
  assumes "cache s h C P" "h b = Some bn"
  shows "cache (put_data b d s) h (C(bn := d)) P \<and> same_but_cache (put_data b d s) s \<and>
    disk (put_data b d s) = disk s \<and> disk_writes (put_data b d s) = disk_writes s"
proof -
  obtain ord where inv: "bc_inv s ord (dom h)" using assms(1) by (auto simp: cache_def)
  have "b \<in> dom h" using assms(2) by (rule domI)
  note inv' = set_data_inv [OF inv this, of d]
  have no: "blockno (bufs (put_data b d s) ! i) = blockno (bufs s ! i)" for i
    using held(4) [OF assms] by (simp add: put_data_def upd_buf_def nth_list_update)
  then have "cache (put_data b d s) h (C(bn := d)) P"
    using inv' assms(1) held(3) [OF assms] by (auto simp: cache_def put_data_def upd_buf_def pinned_def)
  then show ?thesis by (simp add: sameI put_data_def upd_buf_def)
qed

lemma bwrite_law:
  assumes "cache s h C P" "h b = Some bn"
  shows "\<exists>t. bwrite b s = Done () t \<and> cache t h C (P - {bn}) \<and> same_but_cache t s \<and> disk t = (disk s)(bn := C bn) \<and>
    disk_writes t = disk_writes s @ [(bn, C bn)]"
proof -
  obtain ord where inv: "bc_inv s ord (dom h)" using assms(1) by (auto simp: cache_def)
  have b: "b \<in> dom h" using assms(2) by (rule domI)
  note hd = held [OF assms]
  let ?u = "s\<lparr>bufs := (bufs s)[b := (bufs s ! b)\<lparr>bflags := B_VALID\<rparr>]\<rparr>"
  let ?t = "?u\<lparr>disk := (disk s)(bn := C bn), disk_writes := disk_writes s @ [(bn, C bn)]\<rparr>"
  have "bflags (bufs s ! b) OR B_DIRTY = B_VALID OR B_DIRTY" using hd(8) by auto
  then have run: "bwrite b s = Done () ?t"
    using hd cacheD(1,2) [OF assms(1)] bdata_law [OF assms]
    by (simp add: bwrite_def calm_simps iderw_def upd_buf_def memide_write)
  have no: "blockno (bufs ?u ! i) = blockno (bufs s ! i)" for i using hd(4) by (simp add: nth_list_update)
  note 1 = set_flags_inv [OF inv b, of B_VALID, simplified]
  note 2 = set_disk_inv [OF 1(1) b, where n = bn and d = "C bn" and w = "disk_writes s @ [(bn, C bn)]"]
  have "pinned ?t = P - {bn}"
  proof -
    have "dirty ?t = dirty s - {b}" using 1(3) 2(3) no hd(3) by simp
    moreover have "i = b" if "i \<in> dirty s" "blockno (bufs s ! i) = bn" for i
      using no_dupD [OF bc_invD(4) [OF inv]] dirty_holds [OF inv that(1)] hd(1,2) that(2) by simp
    ultimately show ?thesis using no cacheD(4) [OF assms(1)] hd(3) by (auto simp: pinned_def)
  qed
  then have "cache ?t h C (P - {bn})"
    using 1(2) 2(1,2) assms(1) no hd(3) by (auto simp: cache_def)
  with run show ?thesis by (simp add: sameI)
qed

lemma brelse_law:
  assumes "cache s h C P" "h b = Some bn" "bn \<in> P \<or> C bn = disk s bn"
  shows "\<exists>t. brelse b s = Done () t \<and> cache t (h(b := None)) C P \<and> same_but_cache t s \<and> disk t = disk s \<and>
    disk_writes t = disk_writes s"
proof -
  obtain ord where inv: "bc_inv s ord (dom h)" using assms(1) by (auto simp: cache_def)
  have b: "b \<in> dom h" using assms(2) by (rule domI)
  note hd = held [OF assms(1,2)]
  let ?t = "s\<lparr>slocks := (slocks s)(SBuf b := untaken (slocks s (SBuf b))),
    bufs := relink b ((bufs s)[b := (bufs s ! b)\<lparr>refcnt := 0\<rparr>])\<rparr>"
  have "bdata (bufs s ! b) = disk s (blockno (bufs s ! b))" if "bflags (bufs s ! b) = B_VALID"
  proof -
    have "b \<notin> dirty s" using that by (simp add: dirty_def B_VALID_def B_DIRTY_def)
    moreover have "i = b" if "i \<in> dirty s" "blockno (bufs s ! i) = bn" for i
      using no_dupD [OF bc_invD(4) [OF inv]] dirty_holds [OF inv that(1)] hd(1,2) that(2) by simp
    ultimately have "bn \<notin> P" using cacheD(4) [OF assms(1)] by (auto simp: pinned_def)
    then show ?thesis using assms(3) bdata_law [OF assms(1,2)] hd(3) by simp
  qed
  note 1 = release_inv [OF inv b impI [OF this]]
  have no: "blockno (bufs ?t ! i) = blockno (bufs s ! i)" for i using hd(4) by (simp add: nth_list_update)
  have "cache ?t (h(b := None)) C P"
    using 1 assms(1) no by (auto simp: cache_def pinned_def split: if_splits)
  with brelse_held [OF cacheD(1) [OF assms(1)] inv b] show ?thesis by (simp add: sameI)
qed

lemma cache_disk:
  assumes "cache s Map.empty C P" "bn \<notin> P"
  shows "C bn = disk s bn"
proof -
  obtain ord where inv: "bc_inv s ord {}" using assms(1) by (auto simp: cache_def)
  show ?thesis
  proof (cases "\<exists>b < NBUF. holds_block (bufs s) bn b")
    case True
    then obtain b where b: "b < NBUF" "holds_block (bufs s) bn b" by auto
    then have "b \<notin> dirty s" using assms cacheD(4) [OF assms(1)] by (auto simp: pinned_def holds_block_def)
    then have "bdata (bufs s ! b) = disk s bn"
      using bc_invD(3) [OF inv b(1)] b by (auto simp: buf_ok_def Let_def holds_block_def dirty_def B_VALID_def B_DIRTY_def)
    then show ?thesis using content_cached [OF inv b] cacheD(3) [OF assms(1)] by simp
  next
    case False
    then show ?thesis using content_uncached [of s bn] cacheD(3) [OF assms(1)] by auto
  qed
qed

lemma same_cache_refl: "same_but_cache s s"
  using sameI(2) [where s = s and bs = "bufs s"] by simp

lemma same_cache_trans: "same_but_cache t s \<Longrightarrow> same_but_cache u t \<Longrightarrow> same_but_cache u s"
  unfolding same_but_cache_def by (elim exE) (simp, blast)

lemma same_cache_limit: "same_but_cache t s \<Longrightarrow> disksize t = disksize s"
  by (auto simp: same_but_cache_def)

interpretation bc: block_cache cache disksize disk disk_writes same_but_cache "bread 1" bwrite brelse
  "\<lambda>s b. bdata (bufs s ! b)" put_data
  by unfold_locales
    (rule same_cache_refl same_cache_trans same_cache_limit bread_law bdata_law put_data_law bwrite_law brelse_law; assumption)+

end
