(* ===== verification/Codec.thy ===== *)
theory Codec
  imports Inode
begin

text \<open>
  The byte encodings of what the file system keeps in blocks: words, half words, arrays of words,
  the log header and the disk inodes. What is written is read back, and nothing else changes.
\<close>

section \<open>Words and half words\<close>

lemma ranges_disjoint:
  assumes "in_range i a n" "in_range i b k" "k \<le> unat (a - b)" "n \<le> unat (b - a)"
  shows False
proof -
  let ?x = "i - a" and ?y = "i - b"
  have ab: "a - b = ?y - ?x" "b - a = ?x - ?y" by simp_all
  have x: "unat ?x < n" and y: "unat ?y < k" using assms(1,2) by (simp_all add: in_range_def)
  show False
  proof (cases "?x \<le> ?y")
    case True
    then have "unat (a - b) \<le> unat ?y" unfolding ab(1) by (simp only: unat_sub diff_le_self)
    with y assms(3) show False by simp
  next
    case False
    then have "?y \<le> ?x" by simp
    then have "unat (b - a) \<le> unat ?x" unfolding ab(2) by (simp only: unat_sub diff_le_self)
    with x assms(4) show False by simp
  qed
qed

lemma ld32_other: "4 \<le> unat (a - b) \<Longrightarrow> 4 \<le> unat (b - a) \<Longrightarrow> ld32 (st32 m b v) a = ld32 m a"
  by (rule ld32_cong, rule st32_other) (use ranges_disjoint in blast)

lemma put_words_outside:
  assumes "\<not> in_range x a (4 * length ws)"
  shows "put_words ws a d x = d x"
  using assms
proof (induction ws arbitrary: a d)
  case (Cons w ws)
  then have "\<not> in_range x (a + 4) (4 * length ws)" "\<not> in_range x a 4"
    using in_range_4 [of x a "4 * length ws"] in_range_4 [of x a 0] by simp_all
  then show ?case using Cons.IH [of "a + 4"] by (simp add: st32_other)
qed simp

lemma in_range_next:
  assumes "in_range x a 4" "n + 4 \<le> 4294967296"
  shows "\<not> in_range x (a + 4) n"
proof
  assume "in_range x (a + 4) n"
  with assms(1) show False
  proof (rule ranges_disjoint)
    have "a - (a + 4) = (0xFFFFFFFC :: u32)" by simp
    then have "unat (a - (a + 4)) = 4294967292" by (simp only:) simp
    then show "n \<le> unat (a - (a + 4))" using assms(2) by simp
  qed simp
qed

lemma ld32_put_words:
  assumes "i < length ws" "4 * length ws \<le> 4294967296"
  shows "ld32 (put_words ws a d) (a + 4 * of_nat i) = ws ! i"
  using assms
proof (induction ws arbitrary: a d i)
  case (Cons w ws)
  show ?case
  proof (cases i)
    case 0
    have "ld32 (put_words ws (a + 4) (st32 d a w)) a = ld32 (st32 d a w) a"
      by (rule ld32_cong, rule put_words_outside) (use in_range_next Cons.prems(2) in simp)
    then show ?thesis using 0 by simp
  next
    case (Suc j)
    then show ?thesis using Cons.IH [of j "a + 4" "st32 d a w"] Cons.prems by (simp add: algebra_simps)
  qed
qed simp

lemma ld32_put_words_other:
  "4 * length ws \<le> unat (b - a) \<Longrightarrow> 4 \<le> unat (a - b) \<Longrightarrow> ld32 (put_words ws a d) b = ld32 d b"
  by (rule ld32_cong, rule put_words_outside) (use ranges_disjoint in blast)

lemma ld16_st16 [simp]: "ld16 (st16 m a v) a = v"
proof (rule bit_word_eqI)
  fix n assume n: "n < LENGTH(16)"
  consider "n < 8" | "8 \<le> n" by linarith
  then show "bit (ld16 (st16 m a v) a) n = bit v n"
    using n by cases (simp_all add: ld16_def st16_def bit_simps, arith+)
qed

lemma ld16_cong: "m a = m' a \<Longrightarrow> m (a + 1) = m' (a + 1) \<Longrightarrow> ld16 m a = ld16 m' a"
  by (simp add: ld16_def)

section \<open>The log header\<close>

lemma put_head_n:
  assumes "length (lh_block h) \<le> LOGSIZE"
  shows "ld32 (put_head h d) 0 = of_int (lh_n h)"
proof -
  have "unat (0 - 4 :: u32) = 4294967292" by simp
  then show ?thesis
    using assms by (simp add: put_head_def ld32_put_words_other LOGSIZE_def MAXOPBLOCKS_def)
qed

lemma put_head_block:
  assumes "length (lh_block h) \<le> LOGSIZE" "i < nat (lh_n h)" "i < length (lh_block h)"
  shows "ld32 (put_head h d) (4 * of_nat i + 4) = lh_block h ! i"
  using ld32_put_words [of i "take (nat (lh_n h)) (lh_block h)" 4 "st32 d 0 (of_int (lh_n h))"] assms
  by (simp add: put_head_def add.commute LOGSIZE_def MAXOPBLOCKS_def)

section \<open>Disk inodes\<close>

lemma in_range_offset:
  assumes "unat k + n \<le> m" "m \<le> 4294967296" "in_range x (a + k) n"
  shows "in_range x a m"
proof -
  have "x - a = (x - (a + k)) + k" by simp
  moreover have "unat (x - (a + k)) < n" using assms(3) by (simp add: in_range_def)
  ultimately have "unat (x - a) = unat (x - (a + k)) + unat k"
    using assms(1,2) by (subst unat_add_lem [THEN iffD1, symmetric]) simp_all
  with assms show ?thesis by (simp add: in_range_def)
qed

lemma put_dinode_outside:
  assumes "\<not> in_range x a 64" "length (di_addrs y) = NDIRECT + 1"
  shows "put_dinode y d a x = d x"
proof -
  have "\<not> in_range x (a + 12) (4 * length (di_addrs y))" "\<not> in_range x (a + 8) 4"
    using assms in_range_offset [of 12 52 64] in_range_offset [of 8 4 64] by (auto simp: NDIRECT_def)
  moreover have off: "x \<noteq> a + k" if "unat k < 64" for k
    using assms(1) that by (auto simp: in_range_def)
  have "x \<noteq> a" "x \<noteq> a + 1" "x \<noteq> a + 2" "x \<noteq> a + 3" "x \<noteq> a + 4" "x \<noteq> a + 5" "x \<noteq> a + 6" "x \<noteq> a + 7"
    using off [of 0] off [of 1] off [of 2] off [of 3] off [of 4] off [of 5] off [of 6] off [of 7] by simp_all
  ultimately show ?thesis
    by (simp add: put_dinode_def put_words_outside st32_other st16_def add.assoc)
qed

lemma get_dinode_cong:
  assumes "\<And>x. in_range x a 64 \<Longrightarrow> d x = d' x"
  shows "get_dinode d a = get_dinode d' a"
proof -
  have byte: "d (a + k) = d' (a + k)" if "unat k < 64" for k
    using assms [of "a + k"] that by (simp add: in_range_def)
  have word: "ld32 d (a + k) = ld32 d' (a + k)" if "unat k + 4 \<le> 64" for k
    by (rule ld32_cong, rule assms) (use in_range_offset [of k 4 64] that in simp)
  have "d a = d' a" using byte [of 0] by simp
  moreover have "ld32 d (a + 12 + 4 * of_nat i) = ld32 d' (a + 12 + 4 * of_nat i)" if "i < NDIRECT + 1" for i
  proof -
    have "(12 + 4 * of_nat i :: u32) = of_nat (12 + 4 * i)" by simp
    then have "unat (12 + 4 * of_nat i :: u32) = 12 + 4 * i" using that by (simp only: unat_of_nat) (simp add: NDIRECT_def)
    then show ?thesis using word [of "12 + 4 * of_nat i"] that by (simp add: add.assoc NDIRECT_def)
  qed
  ultimately show ?thesis
    using byte [of 1] byte [of 2] byte [of 3] byte [of 4] byte [of 5] byte [of 6] byte [of 7] word [of 8]
    by (simp add: get_dinode_def ld16_def add.assoc)
qed

lemma get_put_dinode:
  assumes "length (di_addrs y) = NDIRECT + 1"
  shows "get_dinode (put_dinode y d a) a = y"
proof -
  let ?w = "\<lambda>d. put_words (di_addrs y) (a + 12) d"
  have far: "a + k - (a + 12) = k - 12" for k :: u32 by simp
  have byte: "?w m (a + k) = m (a + k)" if "52 \<le> unat (k - 12)" for m k
    using that assms by (intro put_words_outside) (simp add: in_range_def far NDIRECT_def)
  have head: "?w m a = m a" "?w m (a + 1) = m (a + 1)" "?w m (a + 2) = m (a + 2)" "?w m (a + 3) = m (a + 3)"
    "?w m (a + 4) = m (a + 4)" "?w m (a + 5) = m (a + 5)" "?w m (a + 6) = m (a + 6)" "?w m (a + 7) = m (a + 7)" for m
    using byte [of 0 m] byte [of 1 m] byte [of 2 m] byte [of 3 m] byte [of 4 m] byte [of 5 m] byte [of 6 m] byte [of 7 m]
    by simp_all
  have size: "ld32 (?w m) (a + 8) = ld32 m (a + 8)" for m
    using assms by (intro ld32_put_words_other) (simp_all add: NDIRECT_def)
  have "ld32 (?w m) (a + 12 + 4 * of_nat i) = di_addrs y ! i" if "i < NDIRECT + 1" for m i
    using ld32_put_words [of i "di_addrs y"] that assms by (simp add: NDIRECT_def)
  then have addrs: "map (\<lambda>i. ld32 (?w m) (a + 12 + 4 * of_nat i)) [0..<NDIRECT + 1] = di_addrs y" for m
    using assms by (intro nth_equalityI) (simp_all del: upt_Suc)
  have half: "ld16 m b = v" if "m b = ucast v" "m (b + 1) = ucast (drop_bit 8 v)" for m b and v :: u16
    using ld16_st16 [of m b v] that by (simp add: ld16_def st16_def)
  show ?thesis
    unfolding get_dinode_def put_dinode_def addrs size ld32_st32
    by (rule dinode.equality) (auto intro!: half simp: head st32_def st16_def add.assoc)
qed

lemma in_range_bounds:
  assumes "in_range x a n" "unat a + n \<le> 4294967296"
  shows "unat a \<le> unat x" "unat x < unat a + n"
proof -
  have "x = a + (x - a)" by simp
  moreover have "unat (a + (x - a)) = unat a + unat (x - a)"
    using assms by (subst unat_add_lem [THEN iffD1]) (simp_all add: in_range_def)
  ultimately have "unat x = unat a + unat (x - a)" by metis
  with assms show "unat a \<le> unat x" "unat x < unat a + n" by (simp_all add: in_range_def)
qed

lemma unat_dip_off: "unat (dip_off i) = 64 * (unat i mod 8)"
proof -
  have "unat (i mod IPB) = unat i mod 8" by (simp add: IPB_def BSIZE_def unat_mod)
  moreover have "unat (64 * (i mod IPB)) = 64 * unat (i mod IPB)"
    by (subst unat_mult_lem [THEN iffD1]) (simp_all add: calculation)
  ultimately show ?thesis by (simp add: dip_off_def)
qed

text \<open>
  \<^bold>\<open>(C37)\<close> Disk inodes survive the way to disk and back. Storing an inode in its slot of a
  block and reading the slot gives the inode, and no other slot of the block is disturbed.
\<close>

theorem dinode_roundtrip:
  assumes "length (di_addrs x) = NDIRECT + 1"
  shows "get_dinode (put_dinode x d (dip_off i)) (dip_off j) =
    (if unat i mod 8 = unat j mod 8 then x else get_dinode d (dip_off j))"
proof (cases "unat i mod 8 = unat j mod 8")
  case True
  then have "dip_off i = dip_off j" by (simp add: unat_dip_off word_unat_eq_iff)
  with True show ?thesis by (simp add: get_put_dinode assms)
next
  case False
  have "get_dinode (put_dinode x d (dip_off i)) (dip_off j) = get_dinode d (dip_off j)"
  proof (rule get_dinode_cong, rule put_dinode_outside [OF _ assms], rule notI)
    fix p assume p: "in_range p (dip_off j) 64" "in_range p (dip_off i) 64"
    have "unat (dip_off k) + 64 \<le> 4294967296" for k
      using mod_less_divisor [of 8 "unat k"] unfolding unat_dip_off by linarith
    from in_range_bounds [OF p(1) this] in_range_bounds [OF p(2) this] False show False
      unfolding unat_dip_off by linarith
  qed
  with False show ?thesis by simp
qed

theorem dinode_roundtrip_witness:
  "get_dinode (put_dinode \<lparr>di_type = 2, di_major = 0, di_minor = 0, di_nlink = 1, di_size = 700,
      di_addrs = 60 # 61 # replicate 11 0\<rparr> (\<lambda>_. 7) (dip_off 18)) (dip_off 10) =
    \<lparr>di_type = 2, di_major = 0, di_minor = 0, di_nlink = 1, di_size = 700, di_addrs = 60 # 61 # replicate 11 0\<rparr>"
  by (subst dinode_roundtrip) (simp_all add: NDIRECT_def)

end
