(* ===== verification/Redo.thy ===== *)
theory Redo
  imports Blocks Codec Demo
begin

text \<open>
  Correctness of the redo log: \<^verbatim>\<open>commit\<close> carries the cached changes of a transaction to
  disk, and a crash between any two of its disk writes, followed by recovery, leaves either none or
  all of them.
\<close>

section \<open>Sequences of block writes\<close>

definition apply_writes :: "(u32 \<Rightarrow> block) \<Rightarrow> (u32 \<times> block) list \<Rightarrow> u32 \<Rightarrow> block" where
  "apply_writes D ws = fold (\<lambda>(b, d) D. D(b := d)) ws D"

lemma apply_writes_simps [simp]:
  "apply_writes D [] = D" "apply_writes D (ws @ [(b, d)]) = (apply_writes D ws)(b := d)"
  "apply_writes D ((b, d) # ws) = apply_writes (D(b := d)) ws"
  by (simp_all add: apply_writes_def)

lemma apply_writes_append: "apply_writes D (vs @ ws) = apply_writes (apply_writes D vs) ws"
  by (simp add: apply_writes_def)

lemma apply_writes_other: "b \<notin> fst ` set ws \<Longrightarrow> apply_writes D ws b = D b"
  by (induction ws arbitrary: D) auto

lemma apply_writes_at:
  assumes "distinct (map fst ws)" "(b, d) \<in> set ws"
  shows "apply_writes D ws b = d"
  using assms
proof (induction ws arbitrary: D)
  case (Cons w ws)
  then show ?case by (cases w) (auto simp: apply_writes_other rev_image_eqI)
qed simp

lemma for_each_append: "for_each (xs @ ys) f = seq (for_each xs f) (for_each ys f)"
proof (induction xs)
  case (Cons x xs)
  then show ?case by (simp only: append_Cons for_each.simps seq_def bnd_assoc)
qed (simp add: fun_eq_iff)

lemma for_each_run:
  assumes "I 0 s" "\<And>i t. i < n \<Longrightarrow> I i t \<Longrightarrow> \<exists>u. f i t = Done () u \<and> I (Suc i) u"
  shows "\<exists>u. for_each [0..<n] f s = Done () u \<and> I n u"
  using assms(2)
proof (induction n)
  case 0
  then show ?case using assms(1) by simp
next
  case (Suc n)
  then obtain u where u: "for_each [0..<n] f s = Done () u" "I n u" by (meson less_SucI)
  with Suc.prems [of n u] obtain v where v: "f n u = Done () v" "I (Suc n) v" by auto
  with u show ?case by (simp add: for_each_append)
qed

section \<open>The layout of the log\<close>

definition log_at :: "log \<Rightarrow> nat \<Rightarrow> u32" where
  "log_at l i = lg_start l + of_nat i + 1"

definition log_area :: "log \<Rightarrow> u32 set" where
  "log_area l = insert (lg_start l) (log_at l ` {..<LOGSIZE})"

text \<open>
  \<open>log_ok\<close>: the log lies on the disk and its header lists distinct blocks outside the log.
  \<open>homes\<close> are the blocks that the header lists.
\<close>

definition homes :: "log \<Rightarrow> u32 list" where
  "homes l = take (nat (lh_n (lg_lh l))) (lh_block (lg_lh l))"

definition log_ok :: "log \<Rightarrow> u32 \<Rightarrow> bool" where
  "log_ok l n \<longleftrightarrow> lg_dev l = 1 \<and> unat (lg_start l) + LOGSIZE < unat n \<and> length (lh_block (lg_lh l)) = LOGSIZE \<and>
     0 \<le> lh_n (lg_lh l) \<and> lh_n (lg_lh l) \<le> int LOGSIZE \<and> distinct (homes l) \<and>
     (\<forall>b \<in> set (homes l). b < n \<and> b \<notin> log_area l)"

lemma unat_log_at:
  assumes "unat (lg_start l) + LOGSIZE < unat (n :: u32)" "i < LOGSIZE"
  shows "unat (log_at l i) = unat (lg_start l) + i + 1"
proof -
  have "unat n < 4294967296" using unsigned_less [of n] by simp
  then have lt: "unat (lg_start l) + i + 1 < 4294967296" using assms by linarith
  have "log_at l i = of_nat (unat (lg_start l) + i + 1)" by (simp add: log_at_def)
  then have "unat (log_at l i) = (unat (lg_start l) + i + 1) mod 4294967296" by (simp only: unat_of_nat) simp
  with lt show ?thesis by (simp only: mod_less)
qed

lemma log_okD:
  assumes "log_ok l n"
  shows "lg_dev l = 1" "lg_start l < n" "length (homes l) = nat (lh_n (lg_lh l))" "nat (lh_n (lg_lh l)) \<le> LOGSIZE"
    "distinct (homes l)" "b \<in> set (homes l) \<Longrightarrow> b < n" "b \<in> set (homes l) \<Longrightarrow> b \<notin> log_area l"
    "i < nat (lh_n (lg_lh l)) \<Longrightarrow> lh_block (lg_lh l) ! i = homes l ! i"
    "length (lh_block (lg_lh l)) = LOGSIZE"
proof -
  show "lg_start l < n" using assms by (simp add: log_ok_def word_less_nat_alt)
  show le: "nat (lh_n (lg_lh l)) \<le> LOGSIZE" using assms by (simp add: log_ok_def nat_le_iff)
  then show "length (homes l) = nat (lh_n (lg_lh l))" using assms by (simp add: log_ok_def homes_def)
qed (use assms in \<open>simp_all add: log_ok_def homes_def\<close>)

lemma log_at_ok:
  assumes "log_ok l n" "i < LOGSIZE"
  shows "log_at l i < n" "log_at l i \<noteq> lg_start l" "log_at l i \<in> log_area l"
proof -
  have s: "unat (lg_start l) + LOGSIZE < unat n" using assms(1) by (simp add: log_ok_def)
  note u = unat_log_at [OF s assms(2)]
  show "log_at l i < n" using u s assms(2) by (simp add: word_less_nat_alt)
  show "log_at l i \<noteq> lg_start l"
  proof
    assume "log_at l i = lg_start l"
    then show False using u by simp
  qed
  show "log_at l i \<in> log_area l" using assms(2) by (simp add: log_area_def)
qed

lemma log_at_inj:
  assumes "log_ok l n" "i < LOGSIZE" "j < LOGSIZE" "log_at l i = log_at l j"
  shows "i = j"
proof -
  have s: "unat (lg_start l) + LOGSIZE < unat n" using assms(1) by (simp add: log_ok_def)
  from arg_cong [OF assms(4), of unat] show ?thesis
    unfolding unat_log_at [OF s assms(2)] unat_log_at [OF s assms(3)] by simp
qed

section \<open>The three passes of a commit\<close>

lemma klog_same: "same_but_cache t s \<Longrightarrow> klog t = klog s"
  by (auto simp: same_but_cache_def)

text \<open>The writes of the two copying passes: contents \<open>C\<close> go to the log, and back to their homes.\<close>

definition to_log :: "log \<Rightarrow> (u32 \<Rightarrow> block) \<Rightarrow> (u32 \<times> block) list" where
  "to_log l C = map (\<lambda>i. (log_at l i, C (homes l ! i))) [0..<length (homes l)]"

definition to_homes :: "log \<Rightarrow> (u32 \<Rightarrow> block) \<Rightarrow> (u32 \<times> block) list" where
  "to_homes l C = map (\<lambda>i. (homes l ! i, C (log_at l i))) [0..<length (homes l)]"

lemma take_to_log: "i < length (homes l) \<Longrightarrow> take (Suc i) (to_log l C) = take i (to_log l C) @ [(log_at l i, C (homes l ! i))]"
  by (simp add: to_log_def take_map take_Suc_conv_app_nth)

lemma take_to_homes: "i < length (homes l) \<Longrightarrow> take (Suc i) (to_homes l C) = take i (to_homes l C) @ [(homes l ! i, C (log_at l i))]"
  by (simp add: to_homes_def take_map take_Suc_conv_app_nth)

lemma take_range: "take i [0..<n] = [0..<min i n]"
  by (cases "i \<le> n") simp_all

lemma in_to_log: "b \<in> fst ` set (take i (to_log l C)) \<Longrightarrow> \<exists>j < i. j < length (homes l) \<and> b = log_at l j"
  by (auto simp: to_log_def take_map take_range)

lemma in_to_homes: "b \<in> fst ` set (take i (to_homes l C)) \<Longrightarrow> \<exists>j < i. j < length (homes l) \<and> b = homes l ! j"
  by (auto simp: to_homes_def take_map take_range)

lemma write_log_run:
  assumes "cache s Map.empty C P" "log_ok (klog s) (disksize s)" "set (homes (klog s)) \<subseteq> P"
    "P \<inter> log_area (klog s) = {}" "card P < NBUF"
  defines "ws \<equiv> to_log (klog s) C"
  shows "\<exists>t. write_log s = Done () t \<and> cache t Map.empty (apply_writes C ws) P \<and> same_but_cache t s \<and>
    disk t = apply_writes (disk s) ws \<and> disk_writes t = disk_writes s @ ws"
proof -
  let ?l = "klog s" and ?n = "length (homes (klog s))"
  let ?I = "\<lambda>i t. cache t Map.empty (apply_writes C (take i ws)) P \<and> same_but_cache t s \<and>
    disk t = apply_writes (disk s) (take i ws) \<and> disk_writes t = disk_writes s @ take i ws"
  have step: "\<exists>u. bnd (bread 1 (log_at ?l i)) (\<lambda>to. bnd (bread 1 (homes ?l ! i)) (\<lambda>from.
       seq (modify (\<lambda>s. put_data to (bdata (bufs s ! from)) s)) (seq (bwrite to) (seq (brelse from) (brelse to))))) t = Done () u \<and> ?I (Suc i) u"
    if i: "i < ?n" and t: "?I i t" for i t
  proof -
    note ok = log_okD [OF assms(2)]
    have il: "i < LOGSIZE" using i ok(3,4) by simp
    have h: "homes ?l ! i \<in> set (homes ?l)" using i by simp
    have "apply_writes C (take i ws) (homes ?l ! i) = C (homes ?l ! i)"
    proof (rule apply_writes_other, rule notI)
      assume "homes ?l ! i \<in> fst ` set (take i ws)"
      then obtain j where "j < i" "homes ?l ! i = log_at ?l j" unfolding ws_def using in_to_log by blast
      then show False using ok(7) [OF h] log_at_ok(3) [OF assms(2), of j] il by simp
    qed
    moreover have "log_at ?l i \<notin> P" using assms(4) log_at_ok(3) [OF assms(2) il] by auto
    moreover have "disksize t = disksize s" using t same_cache_limit by blast
    moreover have "homes ?l ! i \<noteq> log_at ?l i" using ok(7) [OF h] log_at_ok(3) [OF assms(2) il] by auto
    moreover have "homes ?l ! i \<in> P" using h assms(3) by auto
    ultimately obtain u where "bnd (bread 1 (log_at ?l i)) (\<lambda>to. bnd (bread 1 (homes ?l ! i)) (\<lambda>from.
       seq (modify (\<lambda>s. put_data to (bdata (bufs s ! from)) s)) (seq (bwrite to) (seq (brelse from) (brelse to))))) t = Done () u"
      "cache u Map.empty (apply_writes C (take (Suc i) ws)) P" "same_but_cache u t"
      "disk u = apply_writes (disk s) (take (Suc i) ws)" "disk_writes u = disk_writes s @ take (Suc i) ws"
      using bc.copy_block(2) [of t "apply_writes C (take i ws)" P "homes ?l ! i" "log_at ?l i"]
        t assms(5) ok(6) [OF h] log_at_ok(1) [OF assms(2) il] take_to_log [OF i, of C]
      unfolding ws_def by auto
    then show ?thesis using t same_cache_trans by blast
  qed
  let ?body = "\<lambda>i. bnd (bread (lg_dev ?l) (lg_start ?l + of_nat i + 1)) (\<lambda>to. bnd (bread (lg_dev ?l) (lh_block (lg_lh ?l) ! i)) (\<lambda>from.
       seq (modify (\<lambda>s. upd_buf to (\<lambda>x. x\<lparr>bdata := bdata (bufs s ! from)\<rparr>) s)) (seq (bwrite to) (seq (brelse from) (brelse to)))))"
  have body: "?body i = bnd (bread 1 (log_at ?l i)) (\<lambda>to. bnd (bread 1 (homes ?l ! i)) (\<lambda>from.
       seq (modify (\<lambda>s. put_data to (bdata (bufs s ! from)) s)) (seq (bwrite to) (seq (brelse from) (brelse to)))))"
    if "i < ?n" for i
    using that log_okD(3) [OF assms(2)] by (simp only: log_okD(1,8) [OF assms(2)] log_at_def put_data_def)
  have "?I 0 s" using assms(1) same_cache_refl by simp
  from for_each_run [of ?I, OF this, of ?n ?body] step show ?thesis
    unfolding write_log_def bnd_apply [of "gets _"] gets_apply andthen.simps log_okD(3) [OF assms(2), symmetric]
    by (simp only: body) (simp add: ws_def to_log_def)
qed

lemma install_trans_run:
  assumes "cache s Map.empty C P" "log_ok (klog s) (disksize s)" "P \<inter> log_area (klog s) = {}"
    "card P < NBUF" "set (homes (klog s)) \<subseteq> P \<or> card P + 1 < NBUF"
  defines "ws \<equiv> to_homes (klog s) C"
  shows "\<exists>t. install_trans s = Done () t \<and> cache t Map.empty (apply_writes C ws) (P - set (homes (klog s))) \<and>
    same_but_cache t s \<and> disk t = apply_writes (disk s) ws \<and> disk_writes t = disk_writes s @ ws"
proof -
  let ?l = "klog s" and ?n = "length (homes (klog s))"
  let ?P = "\<lambda>i. P - set (take i (homes ?l))"
  let ?I = "\<lambda>i t. cache t Map.empty (apply_writes C (take i ws)) (?P i) \<and> same_but_cache t s \<and>
    disk t = apply_writes (disk s) (take i ws) \<and> disk_writes t = disk_writes s @ take i ws"
  have fin: "finite P" using cacheD(4) [OF assms(1)] by (auto simp: pinned_def dirty_def)
  have step: "\<exists>u. bnd (bread 1 (log_at ?l i)) (\<lambda>lbuf. bnd (bread 1 (homes ?l ! i)) (\<lambda>dbuf.
       seq (modify (\<lambda>s. put_data dbuf (bdata (bufs s ! lbuf)) s)) (seq (bwrite dbuf) (seq (brelse lbuf) (brelse dbuf))))) t = Done () u \<and> ?I (Suc i) u"
    if i: "i < ?n" and t: "?I i t" for i t
  proof -
    note ok = log_okD [OF assms(2)]
    have il: "i < LOGSIZE" using i ok(3,4) by simp
    have h: "homes ?l ! i \<in> set (homes ?l)" using i by simp
    have new: "homes ?l ! i \<notin> set (take i (homes ?l))"
      using ok(5) i by (auto simp: in_set_conv_nth nth_eq_iff_index_eq)
    have "apply_writes C (take i ws) (log_at ?l i) = C (log_at ?l i)"
    proof (rule apply_writes_other, rule notI)
      assume "log_at ?l i \<in> fst ` set (take i ws)"
      then obtain j where "j < ?n" "log_at ?l i = homes ?l ! j" unfolding ws_def using in_to_homes by blast
      then show False using ok(7) [of "homes ?l ! j"] log_at_ok(3) [OF assms(2) il] by simp
    qed
    moreover have src: "log_at ?l i \<notin> ?P i" using assms(3) log_at_ok(3) [OF assms(2) il] by auto
    moreover have "disksize t = disksize s" using t same_cache_limit by blast
    moreover have "log_at ?l i \<noteq> homes ?l ! i" using ok(7) [OF h] log_at_ok(3) [OF assms(2) il] by auto
    moreover have "card (?P i) < NBUF" using card_mono [OF fin, of "?P i"] assms(4) by auto
    moreover have "homes ?l ! i \<in> ?P i \<or> card (?P i) + 1 < NBUF"
      using assms(5) h new card_mono [OF fin, of "?P i"] by auto
    moreover have "?P i - {homes ?l ! i} = ?P (Suc i)" using i by (auto simp: take_Suc_conv_app_nth)
    moreover have "apply_writes C (take i ws) (log_at ?l i) = disk t (log_at ?l i)"
      using cache_disk [OF _ src] t by blast
    ultimately obtain u where "bnd (bread 1 (log_at ?l i)) (\<lambda>lbuf. bnd (bread 1 (homes ?l ! i)) (\<lambda>dbuf.
       seq (modify (\<lambda>s. put_data dbuf (bdata (bufs s ! lbuf)) s)) (seq (bwrite dbuf) (seq (brelse lbuf) (brelse dbuf))))) t = Done () u"
      "cache u Map.empty (apply_writes C (take (Suc i) ws)) (?P (Suc i))" "same_but_cache u t"
      "disk u = apply_writes (disk s) (take (Suc i) ws)" "disk_writes u = disk_writes s @ take (Suc i) ws"
      using bc.copy_block(1) [of t "apply_writes C (take i ws)" "?P i" "log_at ?l i" "homes ?l ! i"]
        t ok(6) [OF h] log_at_ok(1) [OF assms(2) il] take_to_homes [OF i, of C]
      unfolding ws_def by auto
    then show ?thesis using t same_cache_trans by blast
  qed
  let ?body = "\<lambda>i. bnd (bread (lg_dev ?l) (lg_start ?l + of_nat i + 1)) (\<lambda>lbuf. bnd (bread (lg_dev ?l) (lh_block (lg_lh ?l) ! i)) (\<lambda>dbuf.
       seq (modify (\<lambda>s. upd_buf dbuf (\<lambda>x. x\<lparr>bdata := bdata (bufs s ! lbuf)\<rparr>) s)) (seq (bwrite dbuf) (seq (brelse lbuf) (brelse dbuf)))))"
  have body: "?body i = bnd (bread 1 (log_at ?l i)) (\<lambda>lbuf. bnd (bread 1 (homes ?l ! i)) (\<lambda>dbuf.
       seq (modify (\<lambda>s. put_data dbuf (bdata (bufs s ! lbuf)) s)) (seq (bwrite dbuf) (seq (brelse lbuf) (brelse dbuf)))))"
    if "i < ?n" for i
    using that log_okD(3) [OF assms(2)] by (simp only: log_okD(1,8) [OF assms(2)] log_at_def put_data_def)
  have "?I 0 s" using assms(1) same_cache_refl by simp
  from for_each_run [of ?I, OF this, of ?n ?body] step show ?thesis
    unfolding install_trans_def bnd_apply [of "gets _"] gets_apply andthen.simps log_okD(3) [OF assms(2), symmetric]
    by (simp only: body) (simp add: ws_def to_homes_def)
qed

lemma put_data_upd: "(\<lambda>s. put_data b (f (bdata (bufs s ! b))) s) = upd_buf b (\<lambda>x. x\<lparr>bdata := f (bdata x)\<rparr>)"
  by (simp add: fun_eq_iff put_data_def upd_buf_def)

lemma write_head_run:
  assumes "cache s Map.empty C P" "lg_dev (klog s) = 1" "lg_start (klog s) < disksize s" "lg_start (klog s) \<notin> P" "card P < NBUF"
  defines "d \<equiv> put_head (lg_lh (klog s)) (C (lg_start (klog s)))"
  shows "\<exists>t. write_head s = Done () t \<and> cache t Map.empty (C(lg_start (klog s) := d)) P \<and> same_but_cache t s \<and>
    disk t = (disk s)(lg_start (klog s) := d) \<and> disk_writes t = disk_writes s @ [(lg_start (klog s), d)]"
  using bc.update_block [OF assms(1,3), of "put_head (lg_lh (klog s))", unfolded put_data_upd] assms(2,4,5)
  by (simp add: write_head_def d_def)

lemma cache_klog [simp]: "cache (s\<lparr>klog := l\<rparr>) h C P = cache s h C P"
proof -
  have "content (s\<lparr>klog := l\<rparr>) = content s" by (simp add: content_def fun_eq_iff split: option.split)
  moreover have "pinned (s\<lparr>klog := l\<rparr>) = pinned s" by (simp add: pinned_def dirty_def)
  moreover have "bc_inv (s\<lparr>klog := l\<rparr>) ord H = bc_inv s ord H" for ord H by (simp add: bc_inv_def buf_ok_def)
  ultimately show ?thesis by (simp add: cache_def)
qed

lemma homes_set_n [simp]: "homes (set_n 0 l) = []" "lg_start (set_n n l) = lg_start l" "lg_dev (set_n n l) = lg_dev l"
  "log_area (set_n n l) = log_area l" "log_at (set_n n l) = log_at l"
  by (simp_all add: homes_def set_n_def log_area_def log_at_def fun_eq_iff)

lemma apply_to_log:
  assumes "log_ok l n"
  shows "i < length (homes l) \<Longrightarrow> apply_writes D (to_log l C) (log_at l i) = C (homes l ! i)"
    "b \<notin> log_area l \<Longrightarrow> apply_writes D (take k (to_log l C)) b = D b"
    "apply_writes D (take k (to_log l C)) (lg_start l) = D (lg_start l)"
proof -
  note ok = log_okD [OF assms]
  show "apply_writes D (to_log l C) (log_at l i) = C (homes l ! i)" if i: "i < length (homes l)"
  proof (rule apply_writes_at)
    show "distinct (map fst (to_log l C))"
      using log_at_inj [OF assms] ok(3,4) by (auto simp: to_log_def distinct_map comp_def inj_on_def)
    show "(log_at l i, C (homes l ! i)) \<in> set (to_log l C)" using i by (auto simp: to_log_def)
  qed
  have "b \<in> log_area l \<and> b \<noteq> lg_start l" if "b \<in> fst ` set (take k (to_log l C))" for b
    using in_to_log [OF that] ok(3,4) log_at_ok(2,3) [OF assms] by auto
  then show "b \<notin> log_area l \<Longrightarrow> apply_writes D (take k (to_log l C)) b = D b"
    "apply_writes D (take k (to_log l C)) (lg_start l) = D (lg_start l)"
    by (auto intro!: apply_writes_other)
qed

text \<open>The disk writes of a commit of contents \<open>C\<close>: the blocks to the log, the header, the blocks
  to their homes, and the empty header.\<close>

definition commit_writes :: "log \<Rightarrow> (u32 \<Rightarrow> block) \<Rightarrow> (u32 \<times> block) list" where
  "commit_writes l C = (let h = put_head (lg_lh l) (C (lg_start l)) in
     to_log l C @ (lg_start l, h) # map (\<lambda>b. (b, C b)) (homes l) @
     [(lg_start l, put_head (lg_lh (set_n 0 l)) h)])"

lemma commit_run:
  assumes "cache s Map.empty C (set (homes (klog s)))" "log_ok (klog s) (disksize s)" "0 < lh_n (lg_lh (klog s))"
    "lh_n (lg_lh (klog s)) < int NBUF"
  shows "\<exists>t. commit s = Done () t \<and> disk t = apply_writes (disk s) (commit_writes (klog s) C) \<and>
    disk_writes t = disk_writes s @ commit_writes (klog s) C \<and> pinned t = {} \<and> klog t = set_n 0 (klog s)"
proof -
  let ?l = "klog s" and ?P = "set (homes (klog s))" and ?a = "lg_start (klog s)"
  note ok = log_okD [OF assms(2)]
  have dis: "?P \<inter> log_area ?l = {}" "?a \<notin> ?P" using ok(7) by (auto simp: log_area_def)
  have cd: "card ?P < NBUF" using distinct_card [OF ok(5)] ok(3) assms(3,4) by simp
  obtain t where t: "write_log s = Done () t" "cache t Map.empty (apply_writes C (to_log ?l C)) ?P" "same_but_cache t s"
    "disk t = apply_writes (disk s) (to_log ?l C)" "disk_writes t = disk_writes s @ to_log ?l C"
    using write_log_run [OF assms(1,2) order_refl dis(1) cd] by blast
  note kt = klog_same [OF t(3)] same_cache_limit [OF t(3)]
  let ?h = "put_head (lg_lh ?l) (C ?a)" and ?C1 = "apply_writes C (to_log ?l C)"
  have a1: "?C1 ?a = C ?a" using apply_to_log(3) [OF assms(2), where D = C and C = C and k = "length (to_log ?l C)"] by simp
  obtain u where u: "write_head t = Done () u" "cache u Map.empty (?C1(?a := ?h)) ?P" "same_but_cache u t"
    "disk u = (disk t)(?a := ?h)" "disk_writes u = disk_writes t @ [(?a, ?h)]"
    using write_head_run [OF t(2)] kt ok(1,2) dis(2) cd a1 by auto
  note ku = klog_same [OF u(3)] same_cache_limit [OF u(3)]
  have "to_homes ?l (?C1(?a := ?h)) = map (\<lambda>i. (homes ?l ! i, C (homes ?l ! i))) [0..<length (homes ?l)]"
    using apply_to_log(1) [OF assms(2)] log_at_ok(2) [OF assms(2)] ok(3,4) by (auto simp: to_homes_def)
  also have "\<dots> = map (\<lambda>b. (b, C b)) (homes ?l)" by (rule nth_equalityI) simp_all
  finally have th: "to_homes ?l (?C1(?a := ?h)) = map (\<lambda>b. (b, C b)) (homes ?l)" .
  let ?w = "map (\<lambda>b. (b, C b)) (homes ?l)" and ?C2 = "apply_writes (?C1(?a := ?h)) (map (\<lambda>b. (b, C b)) (homes ?l))"
  obtain v where v: "install_trans u = Done () v" "cache v Map.empty ?C2 {}" "same_but_cache v u"
    "disk v = apply_writes (disk u) ?w" "disk_writes v = disk_writes u @ ?w"
    using install_trans_run [OF u(2)] ku kt assms(2) dis(1) cd th by auto
  note kv = klog_same [OF v(3)] same_cache_limit [OF v(3)]
  have "?a \<notin> fst ` set ?w" using dis(2) by auto
  then have a2: "?C2 ?a = ?h" using apply_writes_other [of ?a ?w "?C1(?a := ?h)"] by simp
  let ?v = "v\<lparr>klog := set_n 0 ?l\<rparr>" and ?h0 = "put_head (lg_lh (set_n 0 ?l)) ?h"
  have "cache ?v Map.empty ?C2 {}" using v(2) by simp
  then obtain x where x: "write_head ?v = Done () x" "cache x Map.empty (?C2(?a := ?h0)) {}" "same_but_cache x ?v"
    "disk x = (disk v)(?a := ?h0)" "disk_writes x = disk_writes v @ [(?a, ?h0)]"
    using write_head_run [of ?v ?C2 "{}"] kv ku kt ok(1,2) a2 by (auto simp: NBUF_def)
  have "commit s = Done () x"
    using assms(3) t(1) u(1) v(1) x(1) kv ku kt by (simp add: commit_def upd_log_def)
  moreover have "klog x = set_n 0 ?l" using klog_same [OF x(3)] by simp
  moreover have "pinned x = {}" using cacheD(4) [OF x(2)] .
  ultimately show ?thesis
    using t(4,5) u(4,5) v(4,5) x(4,5) by (auto simp: commit_writes_def Let_def apply_writes_append)
qed

section \<open>Recovery\<close>

text \<open>What \<^verbatim>\<open>read_head\<close> makes of a header block.\<close>

definition head_blocks :: "block \<Rightarrow> u32 list" where
  "head_blocks d = map (\<lambda>i. ld32 d (4 * of_nat i + 4)) [0..<nat (sint (ld32 d 0))]"

definition load_head :: "block \<Rightarrow> log \<Rightarrow> log" where
  "load_head d l = l\<lparr>lg_lh := (lg_lh l)\<lparr>lh_n := sint (ld32 d 0),
     lh_block := head_blocks d @ drop (nat (sint (ld32 d 0))) (lh_block (lg_lh l))\<rparr>\<rparr>"

lemma fill_blocks:
  assumes "n \<le> length (lh_block (lg_lh (klog s)))"
  shows "for_each [0..<n] (\<lambda>i. modify (upd_log (\<lambda>l. l\<lparr>lg_lh := (lg_lh l)\<lparr>lh_block := (lh_block (lg_lh l))[i := w i]\<rparr>\<rparr>))) s =
    Done () (s\<lparr>klog := (klog s)\<lparr>lg_lh := (lg_lh (klog s))\<lparr>lh_block := map w [0..<n] @ drop n (lh_block (lg_lh (klog s)))\<rparr>\<rparr>\<rparr>)"
  using assms
proof (induction n)
  case (Suc n)
  let ?b = "lh_block (lg_lh (klog s))"
  have "(map w [0..<n] @ drop n ?b)[n := w n] = map w [0..<n] @ w n # drop (Suc n) ?b"
    using Suc.prems by (simp add: list_update_append Cons_nth_drop_Suc [symmetric])
  with Suc show ?case by (simp add: for_each_append upd_log_def)
qed (simp add: upd_log_def)

lemma read_head_run:
  assumes "cache s Map.empty C P" "lg_dev (klog s) = 1" "lg_start (klog s) < disksize s" "lg_start (klog s) \<notin> P"
    "card P < NBUF" "length (lh_block (lg_lh (klog s))) = LOGSIZE"
  defines "d \<equiv> C (lg_start (klog s))"
  assumes "sint (ld32 d 0) \<le> int LOGSIZE"
  shows "\<exists>t. read_head s = Done () t \<and> cache t Map.empty C P \<and> same_but_cache t (s\<lparr>klog := load_head d (klog s)\<rparr>) \<and>
    disk t = disk s \<and> disk_writes t = disk_writes s"
proof -
  let ?a = "lg_start (klog s)" and ?l = "klog s"
  obtain b t where 1: "bread 1 ?a s = Done b t" "cache t [b \<mapsto> ?a] C P" "same_but_cache t s" "disk t = disk s"
    "disk_writes t = disk_writes s"
    using bc.read_law [OF assms(1,3)] assms(5) by auto
  have d: "bdata (bufs t ! b) = d" using bc.data_law [OF 1(2)] by (simp add: d_def)
  let ?u = "t\<lparr>klog := load_head d ?l\<rparr>"
  have "cache ?u [b \<mapsto> ?a] C P" using 1(2) by simp
  from bc.release_law [OF this, of b ?a] obtain v where 2: "brelse b ?u = Done () v" "cache v Map.empty C P"
    "same_but_cache v ?u" "disk v = disk ?u" "disk_writes v = disk_writes ?u"
    using cache_disk [OF assms(1,4)] 1(4) by auto
  have "for_each [0..<nat (sint (ld32 d 0))] (\<lambda>i. modify (upd_log (\<lambda>l. l\<lparr>lg_lh := (lg_lh l)
      \<lparr>lh_block := (lh_block (lg_lh l))[i := ld32 d (4 * of_nat i + 4)]\<rparr>\<rparr>))) (upd_log (set_n (sint (ld32 d 0))) t) = Done () ?u"
    using assms(6,8) klog_same [OF 1(3)]
    by (subst fill_blocks) (simp_all add: upd_log_def set_n_def load_head_def head_blocks_def nat_le_iff)
  then have "read_head s = Done () v"
    using 1(1) 2(1) d assms(2,8) by (simp add: read_head_def)
  moreover have "same_but_cache v (s\<lparr>klog := load_head d ?l\<rparr>)"
  proof -
    have "same_but_cache ?u (s\<lparr>klog := load_head d ?l\<rparr>)"
      using 1(3) by (auto simp: same_but_cache_def)
    then show ?thesis using 2(3) same_cache_trans by blast
  qed
  ultimately show ?thesis using 1 2 by auto
qed

lemma load_head_simps [simp]: "lg_start (load_head d l) = lg_start l" "lg_dev (load_head d l) = lg_dev l"
  "log_at (load_head d l) = log_at l" "log_area (load_head d l) = log_area l" "homes (load_head d l) = head_blocks d"
  by (simp_all add: load_head_def log_at_def log_area_def homes_def head_blocks_def fun_eq_iff)

lemma recover_run:
  assumes "cache s Map.empty C {}" "length (lh_block (lg_lh (klog s))) = LOGSIZE"
  defines "l \<equiv> load_head (C (lg_start (klog s))) (klog s)"
  assumes "log_ok l (disksize s)"
  shows "\<exists>t. recover_from_log s = Done () t \<and>
    (\<forall>b. b \<noteq> lg_start (klog s) \<longrightarrow> disk t b = apply_writes (disk s) (to_homes l C) b) \<and> pinned t = {} \<and> homes (klog t) = []"
proof -
  let ?a = "lg_start (klog s)"
  note ok = log_okD [OF assms(4)]
  have n: "sint (ld32 (C ?a) 0) \<le> int LOGSIZE" using assms(4) by (simp add: log_ok_def l_def load_head_def)
  have dev: "lg_dev (klog s) = 1" "?a < disksize s" using ok(1,2) by (simp_all add: l_def)
  obtain t where t: "read_head s = Done () t" "cache t Map.empty C {}" "same_but_cache t (s\<lparr>klog := l\<rparr>)" "disk t = disk s"
    using read_head_run [OF assms(1) dev _ _ assms(2) n] by (auto simp: NBUF_def l_def)
  note kt = klog_same [OF t(3)] same_cache_limit [OF t(3)]
  obtain u where u: "install_trans t = Done () u" "cache u Map.empty (apply_writes C (to_homes l C)) {}" "same_but_cache u t"
    "disk u = apply_writes (disk s) (to_homes l C)"
    using install_trans_run [OF t(2)] assms(4) kt t(4) by (auto simp: NBUF_def)
  note ku = klog_same [OF u(3)] same_cache_limit [OF u(3)]
  let ?u = "u\<lparr>klog := set_n 0 l\<rparr>"
  have "cache ?u Map.empty (apply_writes C (to_homes l C)) {}" using u(2) by simp
  from write_head_run [OF this] obtain v C' d where v: "write_head ?u = Done () v" "cache v Map.empty C' {}" "same_but_cache v ?u"
    "disk v = (disk u)(?a := d)"
    using ok(1,2) ku kt by (auto simp: NBUF_def l_def)
  have "recover_from_log s = Done () v"
    using t(1) u(1) v(1) ku kt by (simp add: recover_from_log_def upd_log_def)
  moreover have "homes (klog v) = []" using klog_same [OF v(3)] by simp
  ultimately show ?thesis using v(4) u(4) cacheD(4) [OF v(2)] by auto
qed

section \<open>Crash safety\<close>

lemma apply_self_writes: "apply_writes D (map (\<lambda>b. (b, C b)) xs) b = (if b \<in> set xs then C b else D b)"
  by (induction xs arbitrary: D) auto

text \<open>The state after a crash that left disk \<open>D\<close>: an empty cache, and the log where it was.\<close>

definition rebooted :: "'z gstate_scheme \<Rightarrow> log \<Rightarrow> u32 \<Rightarrow> (u32 \<Rightarrow> block) \<Rightarrow> bool" where
  "rebooted s l n D \<longleftrightarrow> cache s Map.empty D {} \<and> disksize s = n \<and> lg_start (klog s) = lg_start l \<and>
     lg_dev (klog s) = lg_dev l \<and> length (lh_block (lg_lh (klog s))) = LOGSIZE"

lemma empty_head:
  assumes "log_ok l n" "ld32 d 0 = 0" "lg_start l' = lg_start l" "lg_dev l' = lg_dev l" "length (lh_block (lg_lh l')) = LOGSIZE"
  shows "head_blocks d = []" "log_ok (load_head d l') n"
proof -
  show e: "head_blocks d = []" using assms(2) by (simp add: head_blocks_def)
  then show "log_ok (load_head d l') n" using assms
    unfolding log_ok_def load_head_simps(5) by (simp add: load_head_def)
qed

lemma full_head:
  fixes d0 :: block
  assumes "log_ok l n" "lg_start l' = lg_start l" "lg_dev l' = lg_dev l" "length (lh_block (lg_lh l')) = LOGSIZE"
  defines "d \<equiv> put_head (lg_lh l) d0"
  shows "head_blocks d = homes l" "log_ok (load_head d l') n"
proof -
  note ok = log_okD [OF assms(1)]
  have n: "0 \<le> lh_n (lg_lh l)" "lh_n (lg_lh l) \<le> int LOGSIZE" using assms(1) by (simp_all add: log_ok_def)
  have "ld32 d 0 = of_int (lh_n (lg_lh l))" using ok(9) by (simp add: d_def put_head_n)
  moreover have "sint (of_int (lh_n (lg_lh l)) :: u32) = lh_n (lg_lh l)"
    using n by (simp add: sint_sbintrunc' signed_take_bit_int_eq_self_iff LOGSIZE_def MAXOPBLOCKS_def)
  ultimately have s: "sint (ld32 d 0) = lh_n (lg_lh l)" by simp
  have "ld32 d (4 * of_nat i + 4) = homes l ! i" if "i < nat (lh_n (lg_lh l))" for i
    using that ok(4,8,9) unfolding d_def by (subst put_head_block) simp_all
  then show e: "head_blocks d = homes l"
    using ok(3) s by (intro nth_equalityI) (simp_all add: head_blocks_def)
  have "log_area l' = log_area l" using assms(2) by (simp add: log_area_def log_at_def)
  then show "log_ok (load_head d l') n"
    using assms(1-4) s ok(3,4) n(1) unfolding log_ok_def load_head_simps e by (auto simp: load_head_def e)
qed

text \<open>The disk after the first \<open>k\<close> writes of a commit.\<close>

abbreviation crash_disk :: "(u32 \<Rightarrow> block) \<Rightarrow> log \<Rightarrow> (u32 \<Rightarrow> block) \<Rightarrow> nat \<Rightarrow> u32 \<Rightarrow> block" where
  "crash_disk D l C k \<equiv> apply_writes D (take k (commit_writes l C))"

lemma crash_early:
  assumes "log_ok l n" "k \<le> length (homes l)"
  shows "crash_disk D l C k (lg_start l) = D (lg_start l)" "b \<notin> log_area l \<Longrightarrow> crash_disk D l C k b = D b"
  using assms(2) apply_to_log(2,3) [OF assms(1)] by (simp_all add: commit_writes_def Let_def to_log_def [of l C] to_log_def)

lemma crash_late:
  assumes "log_ok l n" "length (homes l) < k" "k \<le> 2 * length (homes l) + 1"
  shows "crash_disk D l C k (lg_start l) = put_head (lg_lh l) (C (lg_start l))"
    "i < length (homes l) \<Longrightarrow> crash_disk D l C k (log_at l i) = C (homes l ! i)"
    "b \<notin> log_area l \<Longrightarrow> b \<notin> set (homes l) \<Longrightarrow> crash_disk D l C k b = D b"
proof -
  note ok = log_okD [OF assms(1)]
  let ?h = "put_head (lg_lh l) (C (lg_start l))"
  obtain j where j: "k = length (homes l) + Suc j" "j \<le> length (homes l)"
    using assms(2,3) less_imp_Suc_add [of "length (homes l)" k] by auto
  have "take k (commit_writes l C) = to_log l C @ (lg_start l, ?h) # map (\<lambda>b. (b, C b)) (take j (homes l))"
    using j by (simp add: commit_writes_def Let_def to_log_def take_map)
  then have eq: "crash_disk D l C k b = (if b \<in> set (take j (homes l)) then C b
      else if b = lg_start l then ?h else apply_writes D (to_log l C) b)" for b
    by (simp add: apply_writes_append apply_self_writes)
  have away: "b \<notin> set (take j (homes l))" if "b \<in> log_area l" for b
    using that ok(7) in_set_takeD [of b j "homes l"] by auto
  show "crash_disk D l C k (lg_start l) = ?h"
    using away [of "lg_start l"] by (simp add: eq log_area_def)
  show "crash_disk D l C k (log_at l i) = C (homes l ! i)" if "i < length (homes l)"
    using that away [of "log_at l i"] log_at_ok(2,3) [OF assms(1), of i] ok(3,4) apply_to_log(1) [OF assms(1) that]
    by (simp add: eq)
  show "crash_disk D l C k b = D b" if "b \<notin> log_area l" "b \<notin> set (homes l)"
    using that apply_to_log(2) [OF assms(1) that(1), of D "length (to_log l C)" C] in_set_takeD [of b j "homes l"]
    by (auto simp: eq log_area_def)
qed

lemma crash_end:
  assumes "log_ok l n" "k = 2 * length (homes l) + 2"
  shows "ld32 (crash_disk D l C k (lg_start l)) 0 = 0"
    "b \<notin> log_area l \<Longrightarrow> crash_disk D l C k b = (if b \<in> set (homes l) then C b else D b)"
proof -
  let ?h = "put_head (lg_lh l) (C (lg_start l))"
  have all: "crash_disk D l C k = (apply_writes ((apply_writes D (to_log l C))(lg_start l := ?h)) (map (\<lambda>b. (b, C b)) (homes l)))
      (lg_start l := put_head (lg_lh (set_n 0 l)) ?h)"
    using assms(2) by (simp add: commit_writes_def Let_def to_log_def apply_writes_append)
  show "ld32 (crash_disk D l C k (lg_start l)) 0 = 0"
    using log_okD(9) [OF assms(1)] by (simp add: all put_head_n set_n_def)
  show "crash_disk D l C k b = (if b \<in> set (homes l) then C b else D b)" if "b \<notin> log_area l"
    using that apply_to_log(2) [OF assms(1) that, of D "length (to_log l C)" C]
    by (auto simp: all apply_self_writes log_area_def)
qed

lemma recovered:
  assumes "rebooted s l n D" "log_ok (load_head (D (lg_start l)) (klog s)) n"
  shows "\<exists>t. recover_from_log s = Done () t \<and> (\<forall>b. b \<notin> log_area l \<longrightarrow>
    disk t b = apply_writes D (to_homes (load_head (D (lg_start l)) (klog s)) D) b)"
proof -
  have 1: "cache s Map.empty D {}" "disksize s = n" "lg_start (klog s) = lg_start l" "length (lh_block (lg_lh (klog s))) = LOGSIZE"
    using assms(1) by (simp_all add: rebooted_def)
  have "disk s = D" using cache_disk [OF 1(1)] by (auto simp: fun_eq_iff)
  with recover_run [OF 1(1,4)] assms(2) 1(2,3) show ?thesis by (auto simp: log_area_def)
qed

text \<open>Recovery from the disk after the first \<open>k\<close> writes.\<close>

lemma crash_recovery:
  assumes "log_ok l n" "rebooted s l n (crash_disk D l C k)" "ld32 (D (lg_start l)) 0 = 0" "k \<le> 2 * length (homes l) + 2"
    "\<And>b. b \<notin> set (homes l) \<Longrightarrow> D b = C b"
  shows "\<exists>t. recover_from_log s = Done () t \<and> (\<forall>b. b \<notin> log_area l \<longrightarrow>
    disk t b = (if k \<le> length (homes l) then D b else C b))"
proof -
  let ?D = "crash_disk D l C k"
  let ?l = "load_head (?D (lg_start l)) (klog s)"
  have s: "lg_start (klog s) = lg_start l" "lg_dev (klog s) = lg_dev l" "length (lh_block (lg_lh (klog s))) = LOGSIZE"
    using assms(2) by (simp_all add: rebooted_def)
  consider "k \<le> length (homes l)" | "length (homes l) < k" "k \<le> 2 * length (homes l) + 1" | "k = 2 * length (homes l) + 2"
    using assms(4) by linarith
  then show ?thesis
  proof cases
    case 1
    have e: "ld32 (?D (lg_start l)) 0 = 0" using crash_early(1) [OF assms(1) 1] assms(3) by simp
    note h = empty_head [OF assms(1) e s]
    show ?thesis using recovered [OF assms(2) h(2)] h(1) crash_early(2) [OF assms(1) 1] 1 by (simp add: to_homes_def)
  next
    case 2
    note late = crash_late [OF assms(1) 2]
    note h = full_head [OF assms(1) s, of "C (lg_start l)", folded late(1) [where D = D]]
    have "log_at (klog s) = log_at l" using s(1) by (simp add: log_at_def fun_eq_iff)
    then have "to_homes ?l ?D = map (\<lambda>i. (homes l ! i, C (homes l ! i))) [0..<length (homes l)]"
      using late(2) by (simp add: to_homes_def h(1))
    also have "\<dots> = map (\<lambda>b. (b, C b)) (homes l)" by (rule nth_equalityI) simp_all
    finally show ?thesis
      using recovered [OF assms(2) h(2)] late(3) 2(1) assms(5) by (auto simp: apply_self_writes)
  next
    case 3
    note fin = crash_end [OF assms(1) 3, where D = D and C = C]
    note h = empty_head [OF assms(1) fin(1) s]
    show ?thesis using recovered [OF assms(2) h(2)] h(1) fin(2) 3 assms(5) by (auto simp: to_homes_def)
  qed
qed


section \<open>A transaction of one block\<close>

lemma demo_linked: "linked demo_bufs (rev [0..<30])"
  by code_simp

lemma demo_bufs_nth:
  "demo_bufs ! 0 = \<lparr>bflags = 6, bdev = 1, blockno = 40, refcnt = 0, bprev = 1, bnext = 30, qnext = None, bdata = (\<lambda>_. 7)\<rparr>"
  "0 < i \<Longrightarrow> i < NBUF \<Longrightarrow> bflags (demo_bufs ! i) = 0 \<and> bdev (demo_bufs ! i) = 0 \<and> refcnt (demo_bufs ! i) = 0"
  by (simp_all add: demo_bufs_def NBUF_def del: upt_Suc)

lemma demo_bc_inv: "bc_inv demo_gstate (rev [0..<30]) {}"
proof -
  have "buf_ok demo_gstate {} b" if "b < NBUF" for b
    using that demo_bufs_nth by (cases "b = 0") (simp_all add: buf_ok_def B_VALID_def B_DIRTY_def)
  moreover have "no_dup demo_bufs"
    unfolding no_dup_def holds_block_def using demo_bufs_nth(2) by (metis gr0I zero_neq_one)
  ultimately show ?thesis using demo_linked by (simp add: bc_inv_def)
qed

definition demo_content :: "u32 \<Rightarrow> block" where
  "demo_content b = (if b = 40 then (\<lambda>_. 7) else (\<lambda>_. 0))"

lemma demo_cache: "cache demo_gstate Map.empty demo_content {40}"
proof -
  have hb: "holds_block demo_bufs bn b \<longleftrightarrow> b = 0 \<and> bn = 40" if "b < NBUF" for b bn
    using that demo_bufs_nth by (cases "b = 0") (auto simp: holds_block_def)
  have "content demo_gstate = demo_content"
  proof
    fix bn
    show "content demo_gstate bn = demo_content bn"
      using content_cached [OF demo_bc_inv, of 0 bn] content_uncached [of demo_gstate bn] hb demo_bufs_nth(1)
      by (cases "bn = 40") (auto simp: demo_content_def NBUF_def)
  qed
  moreover have "dirty demo_gstate = {0}"
  proof -
    have "bflags (demo_bufs ! b) AND B_DIRTY \<noteq> 0 \<longleftrightarrow> b = 0" if "b < NBUF" for b
      using that demo_bufs_nth by (cases "b = 0") (simp_all add: B_DIRTY_def)
    then have "{b. b < NBUF \<and> bflags (demo_bufs ! b) AND B_DIRTY \<noteq> 0} = {b. b < NBUF \<and> b = 0}"
      by (intro Collect_cong conj_cong) simp_all
    then have "dirty demo_gstate = {b. b < NBUF \<and> b = 0}" by (simp only: dirty_def demo_fields)
    also have "\<dots> = {0}" by (auto simp: NBUF_def)
    finally show ?thesis .
  qed
  ultimately show ?thesis
    using demo_calm(1) demo_bc_inv by (auto simp: cache_def pinned_def demo_bufs_nth)
qed

text \<open>The same system started on disk \<open>D\<close> with nothing in its cache.\<close>

definition demo_start :: "(u32 \<Rightarrow> block) \<Rightarrow> gstate" where
  "demo_start D = demo_gstate\<lparr>bufs := demo_bufs[0 := (demo_bufs ! 0)\<lparr>bflags := 0, bdev := 0\<rparr>], disk := D\<rparr>"

lemma demo_start_linked: "linked (demo_bufs[0 := (demo_bufs ! 0)\<lparr>bflags := 0, bdev := 0\<rparr>]) (rev [0..<30])"
  by code_simp

lemma length_demo_bufs [simp]: "length demo_bufs = 31"
  by (simp add: demo_bufs_def)

lemma demo_start_bufs:
  "b < NBUF \<Longrightarrow> bflags (bufs (demo_start D) ! b) = 0 \<and> bdev (bufs (demo_start D) ! b) = 0 \<and> refcnt (bufs (demo_start D) ! b) = 0"
  using demo_bufs_nth by (cases "b = 0") (simp_all add: demo_start_def)

lemma demo_start_rebooted: "rebooted (demo_start D) demo_log 1000 D"
proof -
  let ?s = "demo_start D"
  have "calm ?s" using demo_calm(1) by (simp add: demo_start_def)
  moreover have inv: "bc_inv ?s (rev [0..<30]) {}"
  proof -
    have "buf_ok ?s {} b" if "b < NBUF" for b
      using demo_start_bufs [OF that] by (simp add: buf_ok_def demo_start_def B_VALID_def)
    moreover have "no_dup (bufs ?s)"
      unfolding no_dup_def holds_block_def using demo_start_bufs by (metis zero_neq_one)
    ultimately show ?thesis using demo_start_linked by (simp add: bc_inv_def demo_start_def)
  qed
  moreover have "content ?s = D"
  proof
    fix bn
    show "content ?s bn = D bn"
      using content_uncached [of ?s bn] demo_start_bufs by (auto simp: holds_block_def demo_start_def)
  qed
  moreover have "dirty ?s = {}" using demo_start_bufs by (auto simp: dirty_def)
  ultimately show ?thesis
    by (auto simp: rebooted_def cache_def pinned_def) (simp_all add: demo_start_def demo_log_def LOGSIZE_def MAXOPBLOCKS_def)
qed


end
