(* ===== verification/Pipes.thy ===== *)
theory Pipes
  imports Ring Sleepers
begin

text \<open>
  Pipes are bounded queues of bytes. A pipe is a ring of \<^verbatim>\<open>PIPESIZE\<close> bytes;
  \<^verbatim>\<open>pipewrite\<close> appends the caller's bytes and \<^verbatim>\<open>piperead\<close> takes bytes from the front.
\<close>

section \<open>The ring of a pipe\<close>

definition pipe_queue :: "pipe \<Rightarrow> byte list" where
  "pipe_queue x = ring (p_data x) PIPESIZE (p_nread x) (p_nwrite x)"

definition pipe_ok :: "pipe \<Rightarrow> bool" where
  "pipe_ok x \<longleftrightarrow> unat (p_nwrite x - p_nread x) \<le> unat PIPESIZE"

definition pipe_enq :: "byte \<Rightarrow> pipe \<Rightarrow> pipe" where
  "pipe_enq b x = x\<lparr>p_data := (p_data x)(p_nwrite x mod PIPESIZE := b), p_nwrite := p_nwrite x + 1\<rparr>"

definition pipe_front :: "pipe \<Rightarrow> byte" where
  "pipe_front x = p_data x (p_nread x mod PIPESIZE)"

definition pipe_deq :: "pipe \<Rightarrow> pipe" where
  "pipe_deq x = x\<lparr>p_nread := p_nread x + 1\<rparr>"

lemma unat_PIPESIZE [simp]: "unat PIPESIZE = 512"
  by (simp add: PIPESIZE_def)

interpretation pq: bounded_queue pipe_queue pipe_ok 512 pipe_enq pipe_front pipe_deq
proof
  fix x b
  assume ok: "pipe_ok x" and room: "length (pipe_queue x) < 512"
  then have "unat (p_nwrite x + 1 - p_nread x) = Suc (unat (p_nwrite x - p_nread x))"
    by (intro unat_next) (simp add: pipe_queue_def)
  then show "pipe_ok (pipe_enq b x) \<and> pipe_queue (pipe_enq b x) = pipe_queue x @ [b]"
    using room ring_snoc [of PIPESIZE "p_nwrite x" "p_nread x" "p_data x" b] by (simp add: pipe_ok_def pipe_queue_def pipe_enq_def)
next
  fix x
  assume ok: "pipe_ok x" and ne: "pipe_queue x \<noteq> []"
  then have "p_nwrite x \<noteq> p_nread x" by (simp add: pipe_queue_def)
  from ring_cons [OF this] unat_prev [OF this] ok
  show "pipe_ok (pipe_deq x) \<and> pipe_queue x = pipe_front x # pipe_queue (pipe_deq x)"
    by (simp add: pipe_ok_def pipe_queue_def pipe_deq_def pipe_front_def)
qed (simp add: pipe_ok_def pipe_queue_def)

lemma pipe_full: "pipe_ok x \<Longrightarrow> p_nwrite x = p_nread x + PIPESIZE \<longleftrightarrow> length (pipe_queue x) = 512"
proof -
  have "p_nwrite x = p_nread x + PIPESIZE \<longleftrightarrow> p_nwrite x - p_nread x = 512" by (auto simp: PIPESIZE_def algebra_simps)
  also have "\<dots> \<longleftrightarrow> unat (p_nwrite x - p_nread x) = unat (512 :: u32)" by (simp only: word_unat_eq_iff)
  finally show ?thesis by (simp add: pipe_queue_def)
qed

lemma pipe_empty: "p_nread x = p_nwrite x \<longleftrightarrow> pipe_queue x = []"
  by (auto simp: pipe_queue_def)

lemma pipe_put_eq: "pipe_put p b = modify (upd_pipe p (pipe_enq b))"
  by (simp add: pipe_put_def pipe_enq_def [abs_def])

lemma pipe_take_eq: "pipe_take p s = Done (pipe_front (pipes s p)) (upd_pipe p pipe_deq s)"
  by (simp add: pipe_take_def pipe_front_def pipe_deq_def [abs_def])

section \<open>Writing\<close>

lemma loop_step: "body x s = Done (Inl y) t \<Longrightarrow> loop (Suc n) x body s = loop n y body t"
  and loop_stop: "body x s = Done (Inr r) t \<Longrightarrow> loop (Suc n) x body s = Done r t"
  by simp_all

lemma sint_index: "i \<le> nat (sint n) \<Longrightarrow> sint (of_nat i :: u32) = int i" for n :: u32
proof -
  assume "i \<le> nat (sint n)"
  moreover have "sint n < 2147483648" using sint_lt [of n] by simp
  ultimately have "i < 2147483648" by linarith
  then show ?thesis using sint_nonneg [of "of_nat i"] by (simp add: unat_of_nat take_bit_nat_eq_self)
qed

text \<open>The state with the lock of the pipe taken and the pipe replaced.\<close>

definition in_pipe :: "u32 \<Rightarrow> 'z fstate_scheme \<Rightarrow> pipe \<Rightarrow> 'z fstate_scheme" where
  "in_pipe p s x = grab (PipeLock p) (s\<lparr>pipes := (pipes s)(p := x)\<rparr>)"

lemma in_pipe_simps [simp]:
  "pipes (in_pipe p s x) p = x" "ram (in_pipe p s x) = ram s" "wait_rounds (in_pipe p s x) = wait_rounds s"
  "upd_pipe p f (in_pipe p s x) = in_pipe p s (f x)"
  by (simp_all add: in_pipe_def upd_pipe_def)

lemma in_pipe_ram: "(in_pipe p s x)\<lparr>ram := m\<rparr> = in_pipe p (s\<lparr>ram := m\<rparr>) x"
  by (simp add: in_pipe_def) (cases s, simp)

lemma kva_in_pipe [simp]: "kva (in_pipe p s x) a = kva s a"
  by (simp add: kva_def in_pipe_def) (simp add: lock_frame_defs)

lemma pipe_room_run:
  assumes "calm s" "pipe_ok x" "length (pipe_queue x) < 512"
  shows "pipe_room p (in_pipe p s x) = Done True (in_pipe p s x)"
proof -
  obtain n where n: "wait_rounds s = Suc n" using calmD(5) [OF assms(1)] by (cases "wait_rounds s") auto
  then show ?thesis using assms pipe_full [OF assms(2)] by (simp add: pipe_room_def wait_loop_def)
qed

lemma write_loop:
  fixes n :: u32
  assumes "calm s" "\<And>j. j < nat (sint n) \<Longrightarrow> kva s (addr + of_nat j) = Some (a j)"
  shows "i + k = nat (sint n) \<Longrightarrow> pipe_ok x \<Longrightarrow> length (pipe_queue x) + k \<le> 512 \<Longrightarrow>
    loop (Suc k) (of_nat i) (\<lambda>i.
        if \<not> sint i < sint n then ret (Inr True)
        else
          bnd (pipe_room p) (\<lambda>ok.
          if \<not> ok then ret (Inr False)
          else
            bnd (deref8 (addr + i)) (\<lambda>b.
            seq (pipe_put p b)
              (ret (Inl (i + 1)))))) (in_pipe p s x) =
    Done True (in_pipe p s (fold pipe_enq (map (\<lambda>j. ram s (a j)) [i..<i + k]) x))" (is "_ \<Longrightarrow> _ \<Longrightarrow> _ \<Longrightarrow> loop _ _ ?body _ = _")
proof (induction k arbitrary: i x)
  case 0
  then have "sint (of_nat i :: u32) = int i" by (intro sint_index [of _ n]) simp
  with 0 show ?case by simp
next
  case (Suc k)
  let ?y = "pipe_enq (ram s (a i)) x"
  from Suc.prems(1) have lt: "int i < sint n" by linarith
  then have "sint (of_nat i :: u32) = int i" by (intro sint_index [of _ n]) simp
  moreover have "pipe_room p (in_pipe p s x) = Done True (in_pipe p s x)" using assms(1) Suc.prems by (intro pipe_room_run) simp_all
  moreover have "deref8 (addr + of_nat i) (in_pipe p s x) = Done (ram s (a i)) (in_pipe p s x)"
    using assms(2) [of i] lt by (simp add: deref8_def)
  ultimately have "?body (of_nat i) (in_pipe p s x) = Done (Inl (of_nat (Suc i))) (in_pipe p s ?y)"
    using lt by (simp add: pipe_put_eq add.commute)
  from loop_step [of ?body, OF this] show ?case
    using Suc.prems Suc.IH [of "Suc i" ?y] pq.enq [of x "ram s (a i)"] by (simp add: upt_conv_Cons del: upt_Suc loop.simps)
qed

lemma pipewrite_run:
  fixes n :: u32
  assumes "calm s" "0 \<le> sint n" "\<And>j. j < nat (sint n) \<Longrightarrow> kva s (addr + of_nat j) = Some (a j)"
    "pipe_ok (pipes s p)" "length (pipe_queue (pipes s p)) + nat (sint n) \<le> 512"
  shows "pipewrite p addr n s = Done n (woken (ChanPipeRead p)
    (s\<lparr>pipes := (pipes s)(p := fold pipe_enq (map (\<lambda>j. ram s (a j)) [0..<nat (sint n)]) (pipes s p))\<rparr>))"
proof -
  have g: "grab (PipeLock p) s = in_pipe p s (pipes s p)" by (simp add: in_pipe_def)
  show ?thesis
    using write_loop [OF assms(1,3), of n 0 "nat (sint n)" "pipes s p" p] assms
    unfolding pipewrite_def by (simp add: calm_acquire g del: loop.simps) (simp add: in_pipe_def calm_simps calm_wakeup)
qed

section \<open>Reading\<close>

text \<open>Bytes stored one after the other at the addresses \<open>a 0\<close>, \<open>a 1\<close>, \<open>\<dots>\<close>\<close>

definition put_bytes :: "(nat \<Rightarrow> u32) \<Rightarrow> byte list \<Rightarrow> nat \<Rightarrow> mem \<Rightarrow> mem" where
  "put_bytes a bs k m = fold (\<lambda>j m. m(a j := bs ! j)) [0..<k] m"

lemma put_bytes_simps [simp]: "put_bytes a bs 0 m = m" "put_bytes a bs (Suc i) m = (put_bytes a bs i m)(a i := bs ! i)"
  by (simp_all add: put_bytes_def)

lemma put_bytes_other: "x \<notin> a ` {..<k} \<Longrightarrow> put_bytes a bs k m x = m x"
  by (induction k) (auto simp: lessThan_Suc)

lemma put_bytes_at: "inj_on a {..<k} \<Longrightarrow> i < k \<Longrightarrow> put_bytes a bs k m (a i) = bs ! i"
  by (induction k) (auto simp: less_Suc_eq lessThan_Suc inj_on_def)

text \<open>The buffer of a reader: \<open>k\<close> bytes from \<open>addr\<close> on are mapped to distinct places, and writing
  them does not change where they are mapped.\<close>

definition buffer :: "'z mstate_scheme \<Rightarrow> u32 \<Rightarrow> nat \<Rightarrow> (nat \<Rightarrow> u32) \<Rightarrow> bool" where
  "buffer s addr k a \<longleftrightarrow> inj_on a {..<k} \<and>
     (\<forall>m. (\<forall>x. x \<notin> a ` {..<k} \<longrightarrow> m x = ram s x) \<longrightarrow> (\<forall>i < k. kva (s\<lparr>ram := m\<rparr>) (addr + of_nat i) = Some (a i)))"

lemma buffer_put:
  assumes "buffer s addr k a" "i < k"
  shows "kva (s\<lparr>ram := put_bytes a bs i (ram s)\<rparr>) (addr + of_nat i) = Some (a i)"
proof -
  have "put_bytes a bs i (ram s) x = ram s x" if "x \<notin> a ` {..<k}" for x
    using that assms(2) by (intro put_bytes_other) auto
  then show ?thesis using assms by (simp add: buffer_def)
qed

lemma read_loop:
  fixes n :: u32 and s :: "'z fstate_scheme"
  assumes "pipe_ok x" "k = min (nat (sint n)) (length (pipe_queue x))" "buffer s addr k a"
  shows "i + d = k \<Longrightarrow>
    loop (Suc (nat (sint n) - i)) (of_nat i) (\<lambda>i.
          if \<not> sint i < sint n then ret (Inr i)
          else
            bnd (gets (\<lambda>s. p_nread (pipes s p) = p_nwrite (pipes s p))) (\<lambda>empty.
            if empty then ret (Inr i)
            else
              bnd (pipe_take p) (\<lambda>b.
              seq (store8 (addr + i) b)
                (ret (Inl (i + 1)))))) (in_pipe p (s\<lparr>ram := put_bytes a (pipe_queue x) i (ram s)\<rparr>) ((pipe_deq ^^ i) x)) =
    Done (of_nat k) (in_pipe p (s\<lparr>ram := put_bytes a (pipe_queue x) k (ram s)\<rparr>) ((pipe_deq ^^ k) x))"
    (is "_ \<Longrightarrow> loop _ _ ?body (?st i) = _")
proof (induction d arbitrary: i)
  case 0
  then have k: "i = k" and "k \<le> nat (sint n)" using assms(2) by simp_all
  then have "sint (of_nat k :: u32) = int k" by (intro sint_index [of _ n]) simp
  moreover have "\<not> int k < sint n \<or> pipe_queue ((pipe_deq ^^ k) x) = []"
    using assms(2) pq.deq_many [OF assms(1), of k] by (auto simp: min_def split: if_splits)
  ultimately have "?body (of_nat k) (?st k) = Done (Inr (of_nat k)) (?st k)"
    using pipe_empty [of "(pipe_deq ^^ k) x"] by auto
  from loop_stop [of ?body, OF this] show ?case using k by blast
next
  case (Suc d)
  then have i: "i < k" "i < nat (sint n)" "i < length (pipe_queue x)" using assms(2) by linarith+
  then have "sint (of_nat i :: u32) = int i" by (intro sint_index [of _ n]) simp
  moreover have "int i < sint n" using i(2) by simp
  moreover have "pipe_queue ((pipe_deq ^^ i) x) \<noteq> []" using i pq.deq_many [OF assms(1), of i] by simp
  moreover have "pipe_front ((pipe_deq ^^ i) x) = pipe_queue x ! i" using i by (intro pq.front_many assms(1))
  moreover note buffer_put [OF assms(3) i(1), of "pipe_queue x"]
  ultimately have "?body (of_nat i) (?st i) = Done (Inl (of_nat (Suc i)))
      (in_pipe p (s\<lparr>ram := (put_bytes a (pipe_queue x) i (ram s))(a i := pipe_queue x ! i)\<rparr>) (pipe_deq ((pipe_deq ^^ i) x)))"
    using pipe_empty [of "(pipe_deq ^^ i) x"] by (simp add: pipe_take_eq add.commute store8_def in_pipe_ram)
  then have "?body (of_nat i) (?st i) = Done (Inl (of_nat (Suc i))) (?st (Suc i))"
    by (simp only: put_bytes_simps funpow.simps comp_def)
  note step = loop_step [of ?body, OF this, of "nat (sint n) - i"]
  have m: "nat (sint n) - i = Suc (nat (sint n) - Suc i)" using i(2) by simp
  have "Suc i + d = k" using Suc.prems by simp
  then show ?case unfolding step unfolding m by (rule Suc.IH)
qed

lemma pipe_data_run:
  assumes "calm s" "pipe_queue x \<noteq> [] \<or> \<not> p_writeopen x"
  shows "pipe_data p (in_pipe p s x) = Done True (in_pipe p s x)"
proof -
  obtain n where n: "wait_rounds s = Suc n" using calmD(5) [OF assms(1)] by (cases "wait_rounds s") auto
  then show ?thesis using assms(2) pipe_empty [of x] by (auto simp: pipe_data_def wait_loop_def)
qed

lemma piperead_run:
  fixes n :: u32
  assumes "calm s" "pipe_queue (pipes s p) \<noteq> [] \<or> \<not> p_writeopen (pipes s p)" "pipe_ok (pipes s p)" "buffer s addr k a"
    "k = min (nat (sint n)) (length (pipe_queue (pipes s p)))"
  shows "piperead p addr n s = Done (of_nat k) (woken (ChanPipeWrite p)
    (s\<lparr>ram := put_bytes a (pipe_queue (pipes s p)) k (ram s), pipes := (pipes s)(p := (pipe_deq ^^ k) (pipes s p))\<rparr>))"
proof -
  have g: "grab (PipeLock p) s = in_pipe p s (pipes s p)" by (simp add: in_pipe_def)
  show ?thesis
    using read_loop [OF assms(3,5,4), of 0 k p] pipe_data_run [OF assms(1,2)] assms
    unfolding piperead_def by (simp add: calm_acquire g del: loop.simps) (simp add: in_pipe_def calm_simps calm_wakeup)
qed

section \<open>Pipes as queues\<close>


text \<open>A pipe whose counters are about to wrap around.\<close>

definition demo_pipe :: "byte list \<Rightarrow> pipe" where
  "demo_pipe bs = fold pipe_enq bs \<lparr>p_data = (\<lambda>_. 0), p_nread = - 1, p_nwrite = - 1, p_readopen = True, p_writeopen = True\<rparr>"

lemma demo_pipe: "length bs \<le> 512 \<Longrightarrow> pipe_ok (demo_pipe bs) \<and> pipe_queue (demo_pipe bs) = bs"
  unfolding demo_pipe_def
  using pq.enq_all [of "\<lparr>p_data = (\<lambda>_. 0), p_nread = - 1, p_nwrite = - 1, p_readopen = True, p_writeopen = True\<rparr>" bs]
  by (simp add: pipe_ok_def pipe_queue_def ring_def)


text \<open>
  \<^bold>\<open>(C29)\<close> A read takes from the front. When the pipe is not empty, or its write end is closed,
  \<^verbatim>\<open>piperead\<close> returns the smaller of \<open>n\<close> and the number of bytes in the pipe, puts that many bytes
  from the front of the queue in the caller's buffer in order, leaves the rest in the queue, and
  changes no other byte of memory and no other pipe.
\<close>

theorem piperead_dequeues:
  fixes n :: u32
  assumes "calm s" "pipe_queue (pipes s p) \<noteq> [] \<or> \<not> p_writeopen (pipes s p)" "pipe_ok (pipes s p)" "buffer s addr k a"
    "k = min (nat (sint n)) (length (pipe_queue (pipes s p)))"
  shows "\<exists>t. piperead p addr n s = Done (of_nat k) t \<and> pipe_ok (pipes t p) \<and>
    pipe_queue (pipes t p) = drop k (pipe_queue (pipes s p)) \<and> (\<forall>i < k. ram t (a i) = pipe_queue (pipes s p) ! i) \<and>
    (\<forall>x. x \<notin> a ` {..<k} \<longrightarrow> ram t x = ram s x) \<and> (\<forall>q. q \<noteq> p \<longrightarrow> pipes t q = pipes s q)"
proof -
  have "pipes (woken ch t) = pipes t" for ch and t :: "'a fstate_scheme" by (simp add: woken_def)
  moreover have "inj_on a {..<k}" using assms(4) by (simp add: buffer_def)
  ultimately show ?thesis
    using piperead_run [OF assms] pq.deq_many [OF assms(3), of k] assms(5) put_bytes_at [of a k] put_bytes_other [of _ a k]
    by simp
qed

theorem piperead_dequeues_witness:
  "\<exists>t. piperead 0x80300000 0x80400000 2 (demo_fstate\<lparr>pipes := (\<lambda>_. demo_pipe [5, 6, 7])\<rparr>) = Done 2 t \<and>
    pipe_queue (pipes t 0x80300000) = [7] \<and> ram t 0x80400000 = 5 \<and> ram t 0x80400001 = 6"
proof -
  let ?s = "demo_fstate\<lparr>pipes := (\<lambda>_. demo_pipe [5, 6, 7])\<rparr>"
  have "kva (?s\<lparr>ram := m\<rparr>) (0x80400000 + of_nat i) = Some (0x80400000 + of_nat i)" if "i < 2" for i m
    using that by (auto simp: kva_def less_2_cases_iff)
  moreover have "inj_on (\<lambda>j. 0x80400000 + of_nat j :: u32) {..<2}" by (auto simp: inj_on_def less_2_cases_iff)
  ultimately have "buffer ?s 0x80400000 2 (\<lambda>j. 0x80400000 + of_nat j)" unfolding buffer_def by blast
  moreover have "calm ?s" "pipe_ok (demo_pipe [5, 6, 7])" "pipe_queue (demo_pipe [5, 6, 7]) = [5, 6, 7]"
    using demo_pipe [of "[5, 6, 7]"] demo_calm(2) by simp_all
  ultimately have "\<exists>t. piperead 0x80300000 0x80400000 2 ?s = Done (of_nat 2) t \<and> pipe_ok (pipes t 0x80300000) \<and>
    pipe_queue (pipes t 0x80300000) = drop 2 (pipe_queue (pipes ?s 0x80300000)) \<and>
    (\<forall>i < 2. ram t (0x80400000 + of_nat i) = pipe_queue (pipes ?s 0x80300000) ! i) \<and>
    (\<forall>x. x \<notin> (\<lambda>j. 0x80400000 + of_nat j) ` {..<2} \<longrightarrow> ram t x = ram ?s x) \<and> (\<forall>q. q \<noteq> 0x80300000 \<longrightarrow> pipes t q = pipes ?s q)"
    by (intro piperead_dequeues) simp_all
  then obtain t where t: "piperead 0x80300000 0x80400000 2 ?s = Done 2 t" "pipe_queue (pipes t 0x80300000) = drop 2 (pipe_queue (pipes ?s 0x80300000))"
    "\<And>i. i < 2 \<Longrightarrow> ram t (0x80400000 + of_nat i) = pipe_queue (pipes ?s 0x80300000) ! i"
    by (metis of_nat_numeral)
  show ?thesis using t(1,2) t(3) [of 0] t(3) [of 1] demo_pipe [of "[5, 6, 7]"] by simp
qed

end
