(* ===== verification/Grep.thy ===== *)
theory Grep
  imports Machine
begin

text \<open>
  The program \<^verbatim>\<open>grep\<close> (\<^verbatim>\<open>grep.c\<close>): the matcher of Kernighan and Pike and the loop that
  cuts the input into lines. A C string is the list of its bytes before the terminating zero. The
  matcher is shown equivalent to the usual meaning of a regular expression, and the loop to
  printing the matching lines.
\<close>

section \<open>The matcher\<close>

function matchhere :: "byte list \<Rightarrow> byte list \<Rightarrow> bool" and matchstar :: "byte \<Rightarrow> byte list \<Rightarrow> byte list \<Rightarrow> bool" where
  "matchhere [] str = True"
| "matchhere (c # re) str =
     (if re \<noteq> [] \<and> hd re = 42 then matchstar c (tl re) str
      else if c = 36 \<and> re = [] then str = []
      else if str \<noteq> [] \<and> (c = 46 \<or> c = hd str) then matchhere re (tl str)
      else False)"
| "matchstar c re str =
     (if matchhere re str then True
      else if str \<noteq> [] \<and> (hd str = c \<or> c = 46) then matchstar c re (tl str)
      else False)"
  by pat_completeness auto
termination
  by (relation "measure (\<lambda>x. case x of Inl (re, str) \<Rightarrow> 2 * length re + length str
    | Inr (c, re, str) \<Rightarrow> 2 * length re + length str + 1)") (auto simp: neq_Nil_conv)

fun match_from :: "byte list \<Rightarrow> byte list \<Rightarrow> bool" where
  "match_from re [] = matchhere re []"
| "match_from re (t # str) = (if matchhere re (t # str) then True else match_from re str)"

definition match :: "byte list \<Rightarrow> byte list \<Rightarrow> bool" where
  "match re str = (if re \<noteq> [] \<and> hd re = 94 then matchhere (tl re) str else match_from re str)"

section \<open>What a pattern means\<close>

datatype item = One byte | Star byte | AtEnd

fun items :: "byte list \<Rightarrow> item list" where
  "items [] = []"
| "items (c # re) = (if re \<noteq> [] \<and> hd re = 42 then Star c # items (tl re)
     else if c = 36 \<and> re = [] then [AtEnd] else One c # items re)"

text \<open>A byte in a pattern stands for itself, and a dot for any byte.\<close>

definition fits :: "byte \<Rightarrow> byte \<Rightarrow> bool" where
  "fits c b \<longleftrightarrow> c = 46 \<or> c = b"

text \<open>\<open>means is u v\<close>: the items describe the text \<open>u\<close> when \<open>v\<close> follows it.\<close>

inductive means :: "item list \<Rightarrow> byte list \<Rightarrow> byte list \<Rightarrow> bool" where
  means_nil: "means [] [] v"
| means_one: "fits c b \<Longrightarrow> means is u v \<Longrightarrow> means (One c # is) (b # u) v"
| means_star: "list_all (fits c) w \<Longrightarrow> means is u v \<Longrightarrow> means (Star c # is) (w @ u) v"
| means_end: "means is u [] \<Longrightarrow> means (AtEnd # is) u []"

inductive_cases means_nilE: "means [] u v"
inductive_cases means_oneE: "means (One c # is) u v"
inductive_cases means_starE: "means (Star c # is) u v"
inductive_cases means_endE: "means (AtEnd # is) u v"

definition here :: "byte list \<Rightarrow> byte list \<Rightarrow> bool" where
  "here re str \<longleftrightarrow> (\<exists>u v. str = u @ v \<and> means (items re) u v)"

lemma star_unfold:
  "(\<exists>w x. str = w @ x \<and> list_all (fits c) w \<and> P x) \<longleftrightarrow>
   P str \<or> (str \<noteq> [] \<and> fits c (hd str) \<and> (\<exists>w x. tl str = w @ x \<and> list_all (fits c) w \<and> P x))"
  (is "?L = ?R")
proof
  assume ?L
  then obtain w x where w: "str = w @ x" "list_all (fits c) w" "P x" by blast
  then show ?R by (cases w) auto
next
  assume ?R
  then show ?L
  proof
    assume "P str"
    then show ?L by (intro exI [of _ "[]"] exI [of _ str]) simp
  next
    assume "str \<noteq> [] \<and> fits c (hd str) \<and> (\<exists>w x. tl str = w @ x \<and> list_all (fits c) w \<and> P x)"
    then obtain w x where "str \<noteq> []" "fits c (hd str)" "tl str = w @ x" "list_all (fits c) w" "P x" by blast
    then show ?L by (intro exI [of _ "hd str # w"] exI [of _ x]) (simp add: neq_Nil_conv, auto)
  qed
qed

lemma here_star: "re \<noteq> [] \<Longrightarrow> hd re = 42 \<Longrightarrow>
  here (c # re) str \<longleftrightarrow> (\<exists>w x. str = w @ x \<and> list_all (fits c) w \<and> here (tl re) x)"
proof -
  assume "re \<noteq> []" "hd re = 42"
  then have "items (c # re) = Star c # items (tl re)" by simp
  moreover have "means (Star c # is) u v \<longleftrightarrow> (\<exists>w x. u = w @ x \<and> list_all (fits c) w \<and> means is x v)" for "is" u v
    by (blast elim: means_starE intro: means_star)
  ultimately show ?thesis unfolding here_def by (metis (no_types, lifting) append_assoc)
qed

lemma matcher:
  "matchhere re str \<longleftrightarrow> here re str"
  "matchstar c re str \<longleftrightarrow> (\<exists>w x. str = w @ x \<and> list_all (fits c) w \<and> here re x)"
proof (induction re str and c re str rule: matchhere_matchstar.induct)
  case (1 str)
  then show ?case by (auto simp: here_def intro: means_nil)
next
  case (2 c re str)
  show ?case
  proof (cases "re \<noteq> [] \<and> hd re = 42")
    case True
    then show ?thesis using 2 by (simp add: here_star)
  next
    case False
    then have it: "items (c # re) = (if c = 36 \<and> re = [] then [AtEnd] else One c # items re)" by auto
    show ?thesis
    proof (cases "c = 36 \<and> re = []")
      case True
      then show ?thesis using False it
        by (auto simp: here_def elim!: means_endE means_nilE intro: means.intros)
    next
      case F2: False
      have "here (c # re) str \<longleftrightarrow> str \<noteq> [] \<and> fits c (hd str) \<and> here re (tl str)"
        unfolding here_def it using F2
        by (cases str) (auto simp: Cons_eq_append_conv elim!: means_oneE intro: means_one)
      then show ?thesis using False F2 2 by (auto simp: fits_def)
    qed
  qed
next
  case (3 c re str)
  define Q where "Q y \<longleftrightarrow> (\<exists>w x. y = w @ x \<and> list_all (fits c) w \<and> here re x)" for y
  have "Q str \<longleftrightarrow> here re str \<or> str \<noteq> [] \<and> fits c (hd str) \<and> Q (tl str)" unfolding Q_def by (rule star_unfold)
  moreover have "fits c b \<longleftrightarrow> b = c \<or> c = 46" for b by (auto simp: fits_def)
  ultimately show ?case using 3 unfolding Q_def [symmetric] by (subst matchstar.simps) auto
qed

lemma match_from_iff: "match_from re str \<longleftrightarrow> (\<exists>p x. str = p @ x \<and> here re x)"
proof (induction str)
  case (Cons t str)
  have "(\<exists>p x. t # str = p @ x \<and> here re x) \<longleftrightarrow> here re (t # str) \<or> (\<exists>p x. str = p @ x \<and> here re x)"
    by (auto simp: Cons_eq_append_conv)
  then show ?case using Cons by (simp add: matcher)
qed (simp add: matcher)

text \<open>
  \<^bold>\<open>(C30)\<close> The matcher of \<^verbatim>\<open>grep\<close> is right. \<^verbatim>\<open>match\<close> accepts a line exactly when some part
  of it is described by the pattern, where a byte stands for itself, a dot for any byte, an
  element with a star for any number of bytes that it fits, a final dollar for the end of the
  line, and a leading caret ties the part to the start of the line.
\<close>

theorem match_correct:
  "match re str \<longleftrightarrow> (\<exists>p u v. str = p @ u @ v \<and>
     (if re \<noteq> [] \<and> hd re = 94 then p = [] \<and> means (items (tl re)) u v else means (items re) u v))"
  by (auto simp: match_def match_from_iff matcher here_def)

section \<open>Lines\<close>

text \<open>\<^verbatim>\<open>strchr(p, '\n')\<close>: the bytes before the first newline and those after it, unless a zero
  byte or the end comes first.\<close>

fun cut :: "byte list \<Rightarrow> (byte list \<times> byte list) option" where
  "cut [] = None"
| "cut (b # bs) = (if b = 0 then None else if b = 10 then Some ([], bs)
     else map_option (\<lambda>(l, r). (b # l, r)) (cut bs))"

lemma cut_shorter: "cut bs = Some (l, r) \<Longrightarrow> length r < length bs"
  by (induction bs arbitrary: l r) (auto split: if_splits)

text \<open>The inner loop: the lines written, and what is left of the buffer.\<close>

function grep_lines :: "byte list \<Rightarrow> byte list \<Rightarrow> byte list list \<times> byte list" where
  "grep_lines pattern p =
     (case cut p of
        None \<Rightarrow> ([], p)
      | Some (l, r) \<Rightarrow>
          let (out, rest) = grep_lines pattern r in
          (if match pattern l then (l @ [10]) # out else out, rest))"
  by pat_completeness auto
termination
  by (relation "measure (\<lambda>(_, p). length p)") (auto dest: cut_shorter)

declare grep_lines.simps [simp del]

text \<open>
  The input arrives in pieces. A read of \<open>n\<close> bytes returns at most that many of the first piece;
  nothing is the end of the input.
\<close>

fun read_piece :: "nat \<Rightarrow> byte list list \<Rightarrow> byte list \<times> byte list list" where
  "read_piece n [] = ([], [])"
| "read_piece n (a # as) = (take n a, if length a \<le> n then as else drop n a # as)"

lemma read_piece_shorter:
  "read_piece n as = (chunk, as') \<Longrightarrow> chunk \<noteq> [] \<Longrightarrow> sum_list (map length as') + length as' < sum_list (map length as) + length as"
  by (cases as) (auto split: if_splits)

function grep_loop :: "byte list \<Rightarrow> byte list \<Rightarrow> byte list list \<Rightarrow> byte list list" where
  "grep_loop pattern buf as =
     (let (chunk, as') = read_piece (1024 - length buf - 1) as in
      if chunk = [] then []
      else
        let p = buf @ chunk; (out, rest) = grep_lines pattern p in
        out @ grep_loop pattern (if length rest = length p then [] else rest) as')"
  by pat_completeness auto
termination
  by (relation "measure (\<lambda>(_, _, as). sum_list (map length as) + length as)") (use read_piece_shorter in \<open>auto simp: eq_commute [of "(_, _)"]\<close>)

declare grep_loop.simps [simp del]

definition grep :: "byte list \<Rightarrow> byte list list \<Rightarrow> byte list list" where
  "grep pattern as = grep_loop pattern [] as"

section \<open>The lines of a file\<close>

text \<open>The complete lines of a text that starts with the unfinished line \<open>acc\<close>, and the unfinished
  line at its end.\<close>

fun lines :: "byte list \<Rightarrow> byte list \<Rightarrow> byte list list \<times> byte list" where
  "lines acc [] = ([], acc)"
| "lines acc (b # bs) = (if b = 10 then let (ls, r) = lines [] bs in (acc # ls, r) else lines (acc @ [b]) bs)"

definition matching :: "byte list \<Rightarrow> byte list list \<Rightarrow> byte list list" where
  "matching pattern ls = map (\<lambda>l. l @ [10]) (filter (match pattern) ls)"

lemma matching_append [simp]: "matching pattern (xs @ ys) = matching pattern xs @ matching pattern ys"
  and matching_nil [simp]: "matching pattern [] = []"
  by (simp_all add: matching_def)

lemma lines_append: "lines acc (xs @ ys) = (let (l1, a) = lines acc xs; (l2, r) = lines a ys in (l1 @ l2, r))"
  by (induction acc xs rule: lines.induct) (auto split: prod.splits)

lemma lines_unfinished: "10 \<notin> set bs \<Longrightarrow> lines acc bs = ([], acc @ bs)"
  by (induction bs arbitrary: acc) auto

lemma lines_rest: "lines acc bs = (ls, r) \<Longrightarrow> 10 \<notin> set acc \<Longrightarrow> 10 \<notin> set r"
  by (induction acc bs arbitrary: ls rule: lines.induct) (auto split: prod.splits if_splits)

lemma lines_none: "fst (lines acc bs) = [] \<longleftrightarrow> 10 \<notin> set bs"
  by (induction acc bs rule: lines.induct) (auto split: prod.splits)

lemma lines_first: "fst (lines acc bs) \<noteq> [] \<Longrightarrow> hd (fst (lines acc bs)) = acc @ takeWhile (\<lambda>b. b \<noteq> 10) bs"
  by (induction acc bs rule: lines.induct) (auto split: prod.splits)

lemma lines_shorter: "length (snd (lines acc bs)) + length (fst (lines acc bs)) \<le> length acc + length bs"
  by (induction acc bs rule: lines.induct) (auto split: prod.splits)

lemma lines_set: "set (snd (lines acc bs)) \<subseteq> set acc \<union> set bs"
  by (induction acc bs rule: lines.induct) (auto split: prod.splits)

lemma cut_lines:
  "0 \<notin> set bs \<Longrightarrow> lines acc bs = (case cut bs of None \<Rightarrow> ([], acc @ bs) | Some (l, r) \<Rightarrow> let (ls, t) = lines [] r in ((acc @ l) # ls, t))"
  by (induction bs arbitrary: acc) (auto split: option.splits prod.splits)

lemma cut_set: "cut bs = Some (l, r) \<Longrightarrow> set r \<subseteq> set bs"
  by (induction bs arbitrary: l r) (auto split: if_splits)

lemma grep_lines_eq: "0 \<notin> set p \<Longrightarrow> grep_lines pattern p = (matching pattern (fst (lines [] p)), snd (lines [] p))"
proof (induction pattern p rule: grep_lines.induct)
  case (1 pattern p)
  show ?case
  proof (cases "cut p")
    case None
    then show ?thesis using 1 cut_lines [of p "[]"] by (simp add: grep_lines.simps)
  next
    case (Some x)
    obtain l r where x: "x = (l, r)" by (cases x)
    then have "0 \<notin> set r" using 1 cut_set Some by blast
    then show ?thesis
      using 1 Some x cut_lines [of p "[]"] by (auto simp: grep_lines.simps [of pattern p] matching_def split: prod.splits)
  qed
qed

lemma grep_loop_file:
  assumes "10 \<notin> set buf" "0 \<notin> set buf \<union> set data" "length buf \<le> 1022"
    "\<forall>l \<in> set (fst (lines buf data)). length l \<le> 1022" "length (snd (lines buf data)) \<le> 1022"
  shows "grep_loop pattern buf (if data = [] then [] else [data]) = matching pattern (fst (lines buf data))"
  using assms
proof (induction "length data" arbitrary: buf data rule: less_induct)
  case less
  show ?case
  proof (cases "data = []")
    case True
    then show ?thesis by (simp add: grep_loop.simps)
  next
    case False
    let ?n = "1023 - length buf"
    let ?p = "buf @ take ?n data"
    obtain ls r where lr: "lines [] ?p = (ls, r)" by (cases "lines [] ?p")
    have ne: "take ?n data \<noteq> []" using False less.prems(3) by simp
    have lb: "lines [] buf = ([], buf)" using less.prems(1) by (simp add: lines_unfinished)
    then have lb2: "lines buf xs = lines [] (buf @ xs)" for xs by (simp add: lines_append split: prod.split)
    have all: "lines buf data = (let (l2, t) = lines r (drop ?n data) in (ls @ l2, t))"
      using lines_append [of "[]" ?p "drop ?n data"] lr by (simp add: lb2 Let_def)
    have gl: "grep_lines pattern ?p = (matching pattern ls, r)"
      using less.prems(2) lr by (subst grep_lines_eq) (auto dest: in_set_takeD)
    show ?thesis
    proof (cases "length data \<le> ?n")
      case True
      then show ?thesis
        using False ne gl all by (subst grep_loop.simps) (simp add: grep_loop.simps [of _ _ "[]"] Let_def)
    next
      case more: False
      obtain l2 t where lt: "lines r (drop ?n data) = (l2, t)" by (cases "lines r (drop ?n data)")
      have len: "length ?p = 1023" using more less.prems(3) by simp
      have "ls \<noteq> []"
      proof
        assume "ls = []"
        then have r: "r = ?p" using lr lines_none [of "[]" ?p] lines_unfinished [of ?p "[]"] by simp
        show False
        proof (cases l2)
          case Nil
          then have "t = r @ drop ?n data" using lt lines_none [of r "drop ?n data"] lines_unfinished [of "drop ?n data" r] by simp
          then show False using less.prems(5) all lt len r by simp
        next
          case (Cons l l2')
          then have "l = r @ takeWhile (\<lambda>b. b \<noteq> 10) (drop ?n data)" using lines_first [of r "drop ?n data"] lt by simp
          moreover have "length l \<le> 1022" using less.prems(4) all lt Cons by simp
          ultimately show False using len r by simp
        qed
      qed
      then have "0 < length ls" by simp
      moreover have "length r + length ls \<le> length ?p" using lines_shorter [of "[]" ?p] unfolding lr by simp
      ultimately have r: "length r < length ?p" by linarith
      have "grep_loop pattern r (if drop ?n data = [] then [] else [drop ?n data]) = matching pattern (fst (lines r (drop ?n data)))"
      proof (rule less.hyps)
        show "length (drop ?n data) < length data" using False less.prems(3) by (cases data) auto
        show "10 \<notin> set r" using lines_rest [OF lr] by simp
        show "0 \<notin> set r \<union> set (drop ?n data)"
          using lines_set [of "[]" ?p] lr less.prems(2) by (auto dest: in_set_dropD in_set_takeD)
        show "length r \<le> 1022" using r len by simp
      qed (use less.prems(4,5) all lt in simp_all)
      moreover have "drop ?n data \<noteq> []" using more by simp
      ultimately show ?thesis
        using False ne gl all lt more r by (subst grep_loop.simps) (simp add: Let_def)
    qed
  qed
qed

text \<open>
  \<^bold>\<open>(C31)\<close> On a file, \<^verbatim>\<open>grep\<close> prints the matching lines. A file is read in full buffers; when no
  line of it is longer than 1022 bytes and it has no zero byte, the output is the complete lines
  that match, in order, however the reads cut them.
\<close>

theorem grep_file:
  assumes "0 \<notin> set data" "\<forall>l \<in> set (fst (lines [] data)). length l \<le> 1022" "length (snd (lines [] data)) \<le> 1022"
  shows "grep pattern (if data = [] then [] else [data]) = matching pattern (fst (lines [] data))"
  unfolding grep_def by (rule grep_loop_file) (use assms in simp_all)

theorem grep_file_witness:
  "grep [97, 42, 98] [[97, 97, 98, 10, 99, 10, 98]] = [[97, 97, 98, 10]]"
  using grep_file [of "[97, 97, 98, 10, 99, 10, 98]" "[97, 42, 98]"] by (simp add: matching_def match_def)

text \<open>
  \<^bold>\<open>(C32)\<close> On a pipe, \<^verbatim>\<open>grep\<close> can lose the start of a line. A piece of input without a newline is
  thrown away (\<^verbatim>\<open>if(p == buf) m = 0\<close>) although the buffer has room, so of a line that arrives
  in two pieces only the second is matched and printed.
\<close>

theorem grep_drops_partial_line:
  assumes "0 \<notin> set a \<union> set b" "10 \<notin> set a \<union> set b" "a \<noteq> []" "length a \<le> 1023" "length b < 1023"
  shows "grep pattern [a, b @ [10]] = (if match pattern b then [b @ [10]] else [])"
proof -
  have a: "lines [] a = ([], a)" using assms by (simp add: lines_unfinished)
  have b: "lines [] (b @ [10]) = ([b], [])" using assms by (simp add: lines_append lines_unfinished)
  have "grep_lines pattern a = ([], a)" "grep_lines pattern (b @ [10]) = (matching pattern [b], [])"
    using assms a b by (simp_all add: grep_lines_eq)
  then show ?thesis
    using assms unfolding grep_def
    by (simp add: grep_loop.simps [of _ _ "[a, b @ [10]]"] grep_loop.simps [of _ _ "[b @ [10]]"] grep_loop.simps [of _ _ "[]"] matching_def)
qed

theorem grep_drops_partial_line_witness:
  "grep [94, 98] [[97], [98, 10]] = [[98, 10]]"
  using grep_drops_partial_line [of "[97]" "[98]" "[94, 98]"] by (simp add: match_def)

end
