(* ===== verification/Shell.thy ===== *)
theory Shell
  imports Machine
begin

text \<open>
  The shell's parser (\<^verbatim>\<open>sh.c\<close>). The parser works in the line buffer: a word is a pair of
  positions, and \<^verbatim>\<open>nulterminate\<close> cuts the buffer into strings when the whole line is parsed.
  The buffer is a byte list with a zero byte at the position \<open>es\<close> of its end; a \<^verbatim>\<open>panic\<close> is an
  \<open>Err\<close>. Recursion through parentheses carries a depth bound; the theorems show which bound is
  always enough.
\<close>

section \<open>Tokens\<close>

definition whitespace :: "byte list" where "whitespace = [32, 9, 13, 10, 11]"
definition symbols :: "byte list" where "symbols = [60, 124, 62, 38, 59, 40, 41]"

definition chr_at :: "byte list \<Rightarrow> nat \<Rightarrow> byte" where
  "chr_at b s = (if s < length b then b ! s else 0)"

function skip_while :: "(byte \<Rightarrow> bool) \<Rightarrow> byte list \<Rightarrow> nat \<Rightarrow> nat \<Rightarrow> nat" where
  "skip_while P b es s = (if s < es \<and> P (chr_at b s) then skip_while P b es (s + 1) else s)"
  by pat_completeness auto
termination
  by (relation "measure (\<lambda>(_, _, es, s). es - s)") auto

declare skip_while.simps [simp del]

definition skip_ws :: "byte list \<Rightarrow> nat \<Rightarrow> nat \<Rightarrow> nat" where
  "skip_ws = skip_while (\<lambda>c. c \<in> set whitespace)"

text \<open>The token's kind, its start, its end and the position after the following white space.\<close>

definition gettoken :: "byte list \<Rightarrow> nat \<Rightarrow> nat \<Rightarrow> byte \<times> nat \<times> nat \<times> nat" where
  "gettoken b es s =
     (let q = skip_ws b es s; c = chr_at b q;
          (r, eq) = (if c = 0 then (c, q)
            else if c \<in> {124, 40, 41, 59, 38, 60} then (c, q + 1)
            else if c = 62 then (if chr_at b (q + 1) = 62 then (43, q + 2) else (c, q + 1))
            else (97, skip_while (\<lambda>x. x \<notin> set whitespace \<and> x \<notin> set symbols) b es q))
      in (r, q, eq, skip_ws b es eq))"

definition peek :: "byte list \<Rightarrow> nat \<Rightarrow> nat \<Rightarrow> byte list \<Rightarrow> bool \<times> nat" where
  "peek b es s toks = (let q = skip_ws b es s; c = chr_at b q in (c \<noteq> 0 \<and> c \<in> set toks, q))"

section \<open>Commands\<close>

text \<open>A word is its start and end position. The mode and descriptor of a redirection follow from
  its token.\<close>

type_synonym slice = "nat \<times> nat"

datatype 'w cmd =
    ExecCmd "'w list"
  | RedirCmd "'w cmd" 'w u32 nat
  | PipeCmd "'w cmd" "'w cmd"
  | ListCmd "'w cmd" "'w cmd"
  | BackCmd "'w cmd"

text \<open>A result and the position after it, or the message of a panic.\<close>

datatype 'a parse = Ok 'a nat | Err string

fun and_then :: "'a parse \<Rightarrow> ('a \<Rightarrow> nat \<Rightarrow> 'b parse) \<Rightarrow> 'b parse" where
  "and_then (Ok x s) f = f x s"
| "and_then (Err e) f = Err e"

lemma and_then_Ok: "and_then m f = Ok y t \<longleftrightarrow> (\<exists>x s. m = Ok x s \<and> f x s = Ok y t)"
  by (cases m) auto

lemma and_then_Err: "and_then m f = Err e \<longleftrightarrow> m = Err e \<or> (\<exists>x s. m = Ok x s \<and> f x s = Err e)"
  by (cases m) auto

definition MAXARGS :: nat where "MAXARGS = 10"

definition redirect :: "byte \<Rightarrow> slice \<Rightarrow> slice cmd \<Rightarrow> slice cmd" where
  "redirect tok w cmd =
     (if tok = 60 then RedirCmd cmd w O_RDONLY 0
      else if tok = 62 then RedirCmd cmd w (O_WRONLY OR O_CREATE) 1
      else if tok = 43 then RedirCmd cmd w (O_WRONLY OR O_CREATE) 1
      else cmd)"

section \<open>Positions only grow\<close>

lemma skip_while_ge: "s \<le> skip_while P b es s"
  by (induction P b es s rule: skip_while.induct) (subst skip_while.simps, auto)

lemma skip_while_le: "s \<le> es \<Longrightarrow> skip_while P b es s \<le> es"
  by (induction P b es s rule: skip_while.induct) (subst skip_while.simps, auto)

lemma skip_while_stop: "skip_while P b es s < es \<Longrightarrow> \<not> P (chr_at b (skip_while P b es s))"
proof (induction P b es s rule: skip_while.induct)
  case (1 P b es s)
  then show ?case by (cases "s < es \<and> P (chr_at b s)") (auto simp: skip_while.simps [of P b es s])
qed

lemma skip_while_all: "s \<le> i \<Longrightarrow> i < skip_while P b es s \<Longrightarrow> P (chr_at b i)"
proof (induction P b es s rule: skip_while.induct)
  case (1 P b es s)
  show ?case
  proof (cases "s < es \<and> P (chr_at b s)")
    case True
    with 1 show ?thesis by (cases "i = s") (auto simp: skip_while.simps [of P b es s])
  next
    case False
    then have "skip_while P b es s = s" by (subst skip_while.simps) auto
    with 1 show ?thesis by simp
  qed
qed

text \<open>A line: a zero byte at its end and nowhere before.\<close>

definition line :: "byte list \<Rightarrow> nat \<Rightarrow> bool" where
  "line b es \<longleftrightarrow> es < length b \<and> chr_at b es = 0 \<and> (\<forall>i < es. chr_at b i \<noteq> 0)"

lemma skip_ws_bounds: "s \<le> es \<Longrightarrow> s \<le> skip_ws b es s \<and> skip_ws b es s \<le> es"
  by (simp add: skip_ws_def skip_while_ge skip_while_le)

lemma chr_at_end: "line b es \<Longrightarrow> s \<le> es \<Longrightarrow> chr_at b s = 0 \<longleftrightarrow> s = es"
  by (auto simp: line_def le_less)

lemma word_chars: "0 \<notin> set whitespace" "0 \<notin> set symbols" "set symbols = {60, 124, 62, 38, 59, 40, 41}"
  by (auto simp: whitespace_def symbols_def)

lemma gettoken_bounds:
  assumes "line b es" "s \<le> es" "gettoken b es s = (r, q, eq, s')"
  shows "q = skip_ws b es s" "s \<le> q" "q \<le> eq" "eq \<le> es" "s' = skip_ws b es eq" "r = 0 \<longleftrightarrow> q = es" "q < es \<Longrightarrow> q < eq"
    "r = 97 \<Longrightarrow> q < es \<and> eq = skip_while (\<lambda>x. x \<notin> set whitespace \<and> x \<notin> set symbols) b es q"
proof -
  let ?w = "\<lambda>x. x \<notin> set whitespace \<and> x \<notin> set symbols"
  show q: "q = skip_ws b es s" and s': "s' = skip_ws b es eq" using assms(3) by (auto simp: gettoken_def Let_def split: prod.splits)
  have q2: "s \<le> q" "q \<le> es" using skip_ws_bounds [OF assms(2), of b] q by simp_all
  then show "s \<le> q" by simp
  have z: "chr_at b q = 0 \<longleftrightarrow> q = es" using chr_at_end [OF assms(1) q2(2)] .
  have ws: "q < es \<Longrightarrow> chr_at b q \<notin> set whitespace"
    using skip_while_stop [of "\<lambda>c. c \<in> set whitespace" b es s] q by (simp add: skip_ws_def)
  have w: "q < skip_while ?w b es q" if "q < es" "chr_at b q \<notin> set symbols"
    using ws that skip_while_ge [of "q + 1" ?w b es] by (subst skip_while.simps) auto
  have two: "q + 2 \<le> es" if "q < es" "chr_at b (q + 1) = 62"
    using that chr_at_end [OF assms(1), of "q + 1"] by (cases "q + 1 = es") auto
  have eq: "(r, eq) = (if chr_at b q = 0 then (0, q)
            else if chr_at b q \<in> {124, 40, 41, 59, 38, 60} then (chr_at b q, q + 1)
            else if chr_at b q = 62 then (if chr_at b (q + 1) = 62 then (43, q + 2) else (62, q + 1))
            else (97, skip_while ?w b es q))"
    using assms(3) q by (auto simp: gettoken_def Let_def split: prod.splits if_splits)
  show "q \<le> eq" "eq \<le> es" "r = 0 \<longleftrightarrow> q = es" "q < es \<Longrightarrow> q < eq" "r = 97 \<Longrightarrow> q < es \<and> eq = skip_while ?w b es q"
    using eq q2 z w two skip_while_ge [of q ?w b es] skip_while_le [OF q2(2), of ?w b]
    by (auto simp: word_chars(3) split: if_splits)
qed

section \<open>The parser\<close>

lemma gettoken_ge: "gettoken b es s = (r, q, eq, s') \<Longrightarrow> s \<le> s'"
  and gettoken_symbol: "gettoken b es s = (r, q, eq, s') \<Longrightarrow> chr_at b (skip_ws b es s) \<in> set symbols \<Longrightarrow> s < s'"
proof -
  have g: "s \<le> skip_ws b es s" "e \<le> skip_ws b es e" "q' \<le> skip_while P b es q'" for e q' P
    by (simp_all add: skip_ws_def skip_while_ge)
  show "gettoken b es s = (r, q, eq, s') \<Longrightarrow> s \<le> s'"
    using g(1) g(2) [of eq] g(3) [of q] by (auto simp: gettoken_def Let_def split: prod.splits if_splits intro: order_trans)
  show "gettoken b es s = (r, q, eq, s') \<Longrightarrow> chr_at b (skip_ws b es s) \<in> set symbols \<Longrightarrow> s < s'"
    using g(1) g(2) [of eq] by (auto simp: gettoken_def Let_def word_chars(3) split: prod.splits if_splits)
qed

lemma peek_symbol: "peek b es s toks = (True, s1) \<Longrightarrow> set toks \<subseteq> set symbols \<Longrightarrow>
    s \<le> s1 \<and> s1 < length b \<and> chr_at b (skip_ws b es s1) \<in> set symbols"
proof -
  assume p: "peek b es s toks = (True, s1)" and t: "set toks \<subseteq> set symbols"
  then have s1: "s1 = skip_ws b es s" and c: "chr_at b s1 \<noteq> 0" "chr_at b s1 \<in> set symbols" by (auto simp: peek_def Let_def)
  then have "chr_at b s1 \<notin> set whitespace" by (auto simp: symbols_def whitespace_def)
  then have "skip_ws b es s1 = s1" by (simp add: skip_ws_def skip_while.simps [of _ b es s1])
  then show ?thesis using s1 c skip_while_ge [of s _ b es] by (auto simp: skip_ws_def chr_at_def split: if_splits)
qed

lemma token_progress:
  assumes "(m, s1) = peek b es s toks" "m" "set toks \<subseteq> set symbols" "(r, q, e, s2) = gettoken b es s1"
  shows "s < s2 \<and> s < length b"
proof -
  have p: "s \<le> s1" "s1 < length b" "chr_at b (skip_ws b es s1) \<in> set symbols"
    using peek_symbol [of b es s toks s1] assms by simp_all
  show ?thesis using gettoken_symbol [OF assms(4) [symmetric] p(3)] p(1,2) by simp
qed

lemma redirs_progress:
  "(m, s1) = peek b es s [60, 62] \<Longrightarrow> m \<Longrightarrow> (tok, u, v, s2) = gettoken b es s1 \<Longrightarrow> (t, q, eq, s3) = gettoken b es s2 \<Longrightarrow>
   length b - s3 < length b - s"
  using token_progress [of m s1 b es s "[60, 62]" tok u v s2] gettoken_ge [of b es s2 t q eq s3] by (auto simp: symbols_def)

lemma backs_progress:
  "(m, s1) = peek b es s [38] \<Longrightarrow> m \<Longrightarrow> (tok, u, v, s2) = gettoken b es s1 \<Longrightarrow> length b - s2 < length b - s"
  using token_progress [of m s1 b es s "[38]" tok u v s2] by (auto simp: symbols_def)

text \<open>The redirections from a position on, in the order of the line.\<close>

function parseredirs :: "byte list \<Rightarrow> nat \<Rightarrow> nat \<Rightarrow> (byte \<times> slice) list parse" where
  "parseredirs b es s =
     (let (more, s1) = peek b es s [60, 62] in
      if \<not> more then Ok [] s1
      else
        let (tok, _, _, s2) = gettoken b es s1; (t, q, eq, s3) = gettoken b es s2 in
        if t \<noteq> 97 then Err ''missing file for redirection''
        else and_then (parseredirs b es s3) (\<lambda>rs. Ok ((tok, q, eq) # rs)))"
  by pat_completeness auto
termination
  by (relation "measure (\<lambda>(b, _, s). length b - s)") (auto intro: redirs_progress)

declare parseredirs.simps [simp del]

text \<open>The loop of \<^verbatim>\<open>parseline\<close> over ampersands.\<close>

function parsebacks :: "byte list \<Rightarrow> nat \<Rightarrow> nat \<Rightarrow> slice cmd \<Rightarrow> slice cmd \<times> nat" where
  "parsebacks b es s cmd =
     (let (more, s1) = peek b es s [38] in
      if \<not> more then (cmd, s1)
      else let (_, _, _, s2) = gettoken b es s1 in parsebacks b es s2 (BackCmd cmd))"
  by pat_completeness auto
termination
  by (relation "measure (\<lambda>(b, _, s, _). length b - s)") (auto intro: backs_progress)

declare parsebacks.simps [simp del]

text \<open>The loop of \<^verbatim>\<open>parseexec\<close> over arguments: the words and the redirections between them.\<close>

function parseargs :: "byte list \<Rightarrow> nat \<Rightarrow> nat \<Rightarrow> nat \<Rightarrow> (slice list \<times> (byte \<times> slice) list) parse" where
  "parseargs b es s argc =
     (let (stop, s1) = peek b es s [124, 41, 38, 59] in
      if stop then Ok ([], []) s1
      else
        let (tok, q, eq, s2) = gettoken b es s1 in
        if tok = 0 then Ok ([], []) s2
        else if tok \<noteq> 97 then Err ''syntax''
        else if MAXARGS \<le> argc + 1 then Err ''too many args''
        else
          and_then (parseredirs b es s2) (\<lambda>rs s3.
          and_then (parseargs b es s3 (argc + 1)) (\<lambda>(ws, rs').
          Ok ((q, eq) # ws, rs @ rs'))))"
  by pat_completeness auto
termination
  by (relation "measure (\<lambda>(_, _, _, argc). MAXARGS - argc)") auto

declare parseargs.simps [simp del]

definition wrap :: "slice cmd \<Rightarrow> (byte \<times> slice) list \<Rightarrow> slice cmd" where
  "wrap = foldl (\<lambda>c (tok, w). redirect tok w c)"

text \<open>The position after a token whose text does not matter.\<close>

definition skip_token :: "byte list \<Rightarrow> nat \<Rightarrow> nat \<Rightarrow> nat" where
  "skip_token b es s = snd (snd (snd (gettoken b es s)))"

function (sequential) parseline :: "nat \<Rightarrow> byte list \<Rightarrow> nat \<Rightarrow> nat \<Rightarrow> slice cmd parse"
  and parsepipe :: "nat \<Rightarrow> byte list \<Rightarrow> nat \<Rightarrow> nat \<Rightarrow> slice cmd parse"
  and parseexec :: "nat \<Rightarrow> byte list \<Rightarrow> nat \<Rightarrow> nat \<Rightarrow> slice cmd parse"
  and parseblock :: "nat \<Rightarrow> byte list \<Rightarrow> nat \<Rightarrow> nat \<Rightarrow> slice cmd parse"
where
  "parseline 0 b es s = Err ''depth''"
| "parseline (Suc n) b es s =
     and_then (parsepipe n b es s) (\<lambda>cmd s.
     let r = parsebacks b es s cmd; semi = peek b es (snd r) [59] in
     if fst semi then
       and_then (parseline n b es (skip_token b es (snd semi))) (\<lambda>right. Ok (ListCmd (fst r) right))
     else Ok (fst r) (snd semi))"
| "parsepipe 0 b es s = Err ''depth''"
| "parsepipe (Suc n) b es s =
     and_then (parseexec n b es s) (\<lambda>cmd s.
     let bar = peek b es s [124] in
     if fst bar then
       and_then (parsepipe n b es (skip_token b es (snd bar))) (\<lambda>right. Ok (PipeCmd cmd right))
     else Ok cmd (snd bar))"
| "parseexec 0 b es s = Err ''depth''"
| "parseexec (Suc n) b es s =
     (let paren = peek b es s [40] in
      if fst paren then parseblock n b es (snd paren)
      else
        and_then (parseredirs b es (snd paren)) (\<lambda>rs s.
        and_then (parseargs b es s 0) (\<lambda>w. Ok (wrap (ExecCmd (fst w)) (rs @ snd w)))))"
| "parseblock 0 b es s = Err ''depth''"
| "parseblock (Suc n) b es s =
     (let paren = peek b es s [40] in
      if \<not> fst paren then Err ''parseblock''
      else
        and_then (parseline n b es (skip_token b es (snd paren))) (\<lambda>cmd s.
        let close = peek b es s [41] in
        if \<not> fst close then Err ''syntax - missing )''
        else and_then (parseredirs b es (skip_token b es (snd close))) (\<lambda>rs. Ok (wrap cmd rs))))"
  by pat_completeness auto
termination
  by (relation "measure (\<lambda>x. case x of Inl (Inl (n, _)) \<Rightarrow> n | Inl (Inr (n, _)) \<Rightarrow> n | Inr (Inl (n, _)) \<Rightarrow> n | Inr (Inr (n, _)) \<Rightarrow> n)") simp_all

text \<open>The depth bound that \<^verbatim>\<open>parsecmd\<close> needs at most.\<close>

definition parsecmd :: "byte list \<Rightarrow> nat \<Rightarrow> slice cmd parse" where
  "parsecmd b es =
     and_then (parseline (4 * es + 4) b es 0) (\<lambda>cmd s.
     let s = snd (peek b es s []) in
     if s \<noteq> es then Err ''syntax'' else Ok cmd s)"

section \<open>Cutting the buffer into strings\<close>

fun nulterminate :: "slice cmd \<Rightarrow> byte list \<Rightarrow> byte list" where
  "nulterminate (ExecCmd ws) b = fold (\<lambda>(q, eq) b. b[eq := 0]) ws b"
| "nulterminate (RedirCmd cmd (q, eq) mode fd) b = (nulterminate cmd b)[eq := 0]"
| "nulterminate (PipeCmd l r) b = nulterminate r (nulterminate l b)"
| "nulterminate (ListCmd l r) b = nulterminate r (nulterminate l b)"
| "nulterminate (BackCmd cmd) b = nulterminate cmd b"

text \<open>The string that starts at a position.\<close>

definition c_string :: "byte list \<Rightarrow> nat \<Rightarrow> byte list" where
  "c_string b q = takeWhile (\<lambda>c. c \<noteq> 0) (drop q b)"

section \<open>Positions and words of the result\<close>

definition word_char :: "byte \<Rightarrow> bool" where
  "word_char c \<longleftrightarrow> c \<noteq> 0 \<and> c \<notin> set whitespace \<and> c \<notin> set symbols"

text \<open>A whole word of the line.\<close>

definition word_slice :: "byte list \<Rightarrow> nat \<Rightarrow> slice \<Rightarrow> bool" where
  "word_slice b es w \<longleftrightarrow> fst w < snd w \<and> snd w \<le> es \<and> (\<forall>i. fst w \<le> i \<and> i < snd w \<longrightarrow> word_char (chr_at b i)) \<and>
     \<not> word_char (chr_at b (snd w))"

definition moved :: "nat \<Rightarrow> nat \<Rightarrow> nat \<Rightarrow> bool" where
  "moved es s t \<longleftrightarrow> s \<le> t \<and> t \<le> es"

lemma peek_moved: "s \<le> es \<Longrightarrow> moved es s (snd (peek b es s toks))"
  using skip_ws_bounds [of s es b] by (simp add: moved_def peek_def Let_def)

lemma gettoken_moved: "line b es \<Longrightarrow> s \<le> es \<Longrightarrow> gettoken b es s = (r, q, e, t) \<Longrightarrow> moved es s t"
  using gettoken_bounds [of b es s r q e t] skip_ws_bounds [of e es b] by (simp add: moved_def)

lemma skip_token_moved: "line b es \<Longrightarrow> s \<le> es \<Longrightarrow> moved es s (skip_token b es s)"
  by (cases "gettoken b es s") (simp add: skip_token_def gettoken_moved)

lemma skip_token_progress:
  "set toks \<subseteq> set symbols \<Longrightarrow> fst (peek b es s toks) \<Longrightarrow> s < skip_token b es (snd (peek b es s toks))"
  using token_progress [of "fst (peek b es s toks)" "snd (peek b es s toks)" b es s toks]
  by (cases "gettoken b es (snd (peek b es s toks))") (metis prod.collapse skip_token_def snd_conv)

lemma gettoken_word:
  assumes "line b es" "s \<le> es" "gettoken b es s = (97, q, e, t)"
  shows "word_slice b es (q, e)"
proof -
  let ?w = "\<lambda>x. x \<notin> set whitespace \<and> x \<notin> set symbols"
  note g = gettoken_bounds [OF assms]
  have e: "q < es" "e = skip_while ?w b es q" using g(8) by simp_all
  have "word_char (chr_at b i)" if "q \<le> i" "i < e" for i
    using skip_while_all [of q i ?w b es] that e g(4) assms(1) by (auto simp: word_char_def line_def)
  moreover have "\<not> word_char (chr_at b e)"
    using skip_while_stop [of ?w b es q] e g(4) assms(1) by (cases "e = es") (auto simp: word_char_def line_def)
  ultimately show ?thesis using g e by (auto simp: word_slice_def)
qed

lemma movedD: "moved es s t \<Longrightarrow> t \<le> es" "moved es s t \<Longrightarrow> moved es t u \<Longrightarrow> moved es s u"
  by (auto simp: moved_def)

lemma parseredirs_ok:
  "line b es \<Longrightarrow> s \<le> es \<Longrightarrow> parseredirs b es s = Ok rs t \<Longrightarrow> moved es s t \<and> list_all (\<lambda>r. word_slice b es (snd r)) rs"
proof (induction b es s arbitrary: rs t rule: parseredirs.induct)
  case (1 b es s)
  obtain m s1 where p: "peek b es s [60, 62] = (m, s1)" by (cases "peek b es s [60, 62]")
  obtain k u v s2 where g1: "gettoken b es s1 = (k, u, v, s2)" by (cases "gettoken b es s1")
  obtain k2 q e s3 where g2: "gettoken b es s2 = (k2, q, e, s3)" by (cases "gettoken b es s2")
  have m1: "moved es s s1" using peek_moved [of s es b "[60, 62]"] 1 p by simp
  then have m2: "moved es s s2" "s2 \<le> es" using gettoken_moved [OF 1(2) _ g1] movedD by blast+
  have m3: "moved es s s3" "s3 \<le> es" using gettoken_moved [OF 1(2) m2(2) g2] m2 movedD by blast+
  show ?case
  proof (cases m)
    case True
    then have "k2 = 97" and "\<exists>rs'. parseredirs b es s3 = Ok rs' t \<and> rs = (k, q, e) # rs'"
      using 1(4) p g1 g2 by (auto simp: parseredirs.simps [of b es s] and_then_Ok split: if_splits)
    then show ?thesis using 1(1) [OF p [symmetric] refl _ g1 [symmetric] refl refl refl g2 [symmetric] refl refl refl] True 1(2) m3 gettoken_word [OF 1(2) m2(2)] g2
      by (auto dest: movedD)
  next
    case False
    then show ?thesis using 1(4) p m1 by (auto simp: parseredirs.simps [of b es s])
  qed
qed

lemma parseredirs_depth: "parseredirs b es s \<noteq> Err ''depth''"
  by (induction b es s rule: parseredirs.induct) (subst parseredirs.simps, auto simp: and_then_Err split: prod.splits)

lemma parsebacks_ok:
  "line b es \<Longrightarrow> s \<le> es \<Longrightarrow> parsebacks b es s c = (c', t) \<Longrightarrow> moved es s t \<and> set_cmd c' = set_cmd c"
proof (induction b es s c arbitrary: c' t rule: parsebacks.induct)
  case (1 b es s c)
  obtain m s1 where p: "peek b es s [38] = (m, s1)" by (cases "peek b es s [38]")
  obtain k u v s2 where g: "gettoken b es s1 = (k, u, v, s2)" by (cases "gettoken b es s1")
  have m1: "moved es s s1" using peek_moved [of s es b "[38]"] 1 p by simp
  then have m2: "moved es s s2" "s2 \<le> es" using gettoken_moved [OF 1(2) _ g] movedD by blast+
  show ?case
  proof (cases m)
    case True
    then have "parsebacks b es s2 (BackCmd c) = (c', t)" using 1(4) p g by (simp add: parsebacks.simps [of b es s])
    then show ?thesis using 1(1) [OF p [symmetric] refl _ g [symmetric] refl refl refl, of c' t] True 1(2) m2 by (auto dest: movedD)
  next
    case False
    then show ?thesis using 1(4) p m1 by (simp add: parsebacks.simps [of b es s])
  qed
qed

lemma parseargs_ok:
  "line b es \<Longrightarrow> s \<le> es \<Longrightarrow> parseargs b es s argc = Ok w t \<Longrightarrow>
   moved es s t \<and> list_all (word_slice b es) (fst w) \<and> list_all (\<lambda>r. word_slice b es (snd r)) (snd w)"
proof (induction b es s argc arbitrary: w t rule: parseargs.induct)
  case (1 b es s argc)
  obtain m s1 where p: "peek b es s [124, 41, 38, 59] = (m, s1)" by (cases "peek b es s [124, 41, 38, 59]")
  obtain k q e s2 where g: "gettoken b es s1 = (k, q, e, s2)" by (cases "gettoken b es s1")
  have m1: "moved es s s1" "s1 \<le> es" using peek_moved [of s es b "[124, 41, 38, 59]"] 1(3) p movedD by auto
  then have m2: "moved es s s2" "s2 \<le> es" using gettoken_moved [OF 1(2) _ g] movedD by blast+
  note eq = 1(4) [unfolded parseargs.simps [of b es s] p Let_def prod.case g]
  show ?case
  proof (cases "m \<or> k = 0")
    case True
    then show ?thesis using eq m1 m2 by (auto split: if_splits)
  next
    case False
    then obtain rs s3 w' where r: "parseredirs b es s2 = Ok rs s3" "parseargs b es s3 (Suc argc) = Ok w' t"
      and k: "k = 97" "\<not> MAXARGS \<le> argc + 1" and w: "w = ((q, e) # fst w', rs @ snd w')"
      using eq by (auto simp: and_then_Ok split: if_splits prod.splits)
    have m3: "moved es s s3" "s3 \<le> es" "list_all (\<lambda>r. word_slice b es (snd r)) rs"
      using parseredirs_ok [OF 1(2) m2(2) r(1)] m2 movedD by blast+
    have "moved es s3 t \<and> list_all (word_slice b es) (fst w') \<and> list_all (\<lambda>r. word_slice b es (snd r)) (snd w')"
      using 1(1) [OF p [symmetric] refl _ g [symmetric] refl refl refl, of s3 w' t] False k 1(2) m3 r(2) by simp
    then show ?thesis using w m3 k gettoken_word [OF 1(2) m1(2), of q e s2] g movedD by auto
  qed
qed

lemma parseargs_depth: "parseargs b es s argc \<noteq> Err ''depth''"
  by (induction b es s argc rule: parseargs.induct)
    (subst parseargs.simps, auto simp: and_then_Err parseredirs_depth split: prod.splits)

lemma set_wrap: "set_cmd (wrap c rs) \<subseteq> set_cmd c \<union> snd ` set rs"
proof (induction rs arbitrary: c)
  case (Cons r rs)
  have "set_cmd (redirect (fst r) (snd r) c) \<subseteq> insert (snd r) (set_cmd c)" by (auto simp: redirect_def)
  moreover have "wrap c (r # rs) = wrap (redirect (fst r) (snd r) c) rs" by (simp add: wrap_def split_beta)
  ultimately show ?case using Cons [of "redirect (fst r) (snd r) c"] by fastforce
qed (simp add: wrap_def)

definition sound :: "byte list \<Rightarrow> nat \<Rightarrow> nat \<Rightarrow> slice cmd parse \<Rightarrow> bool" where
  "sound b es s p \<longleftrightarrow> (\<forall>c t. p = Ok c t \<longrightarrow> moved es s t \<and> (\<forall>w \<in> set_cmd c. word_slice b es w))"

lemma soundD: "sound b es s (Ok c t) \<Longrightarrow> moved es s t \<and> (\<forall>w \<in> set_cmd c. word_slice b es w)"
  by (simp add: sound_def)

lemma sound_andthen:
  "(\<And>x t. m = Ok x t \<Longrightarrow> sound b es s (f x t)) \<Longrightarrow> sound b es s (and_then m f)"
  by (cases m) (auto simp: sound_def)

lemma sound_moved: "moved es s t \<Longrightarrow> sound b es t p \<Longrightarrow> sound b es s p"
  by (auto simp: sound_def moved_def)

lemma sound_wrap: "moved es s t \<Longrightarrow> \<forall>w \<in> set_cmd c. word_slice b es w \<Longrightarrow> list_all (\<lambda>r. word_slice b es (snd r)) rs \<Longrightarrow>
  sound b es s (Ok (wrap c rs) t)"
proof -
  assume m: "moved es s t" and c: "\<forall>w \<in> set_cmd c. word_slice b es w" and r: "list_all (\<lambda>r. word_slice b es (snd r)) rs"
  have "word_slice b es w" if "w \<in> set_cmd c \<union> snd ` set rs" for w using that c r unfolding list_all_iff by blast
  with set_wrap [of c rs] have "\<forall>w \<in> set_cmd (wrap c rs). word_slice b es w" by blast
  with m show ?thesis by (simp add: sound_def)
qed

definition sound_at :: "nat \<Rightarrow> byte list \<Rightarrow> nat \<Rightarrow> bool" where
  "sound_at n b es \<longleftrightarrow> (\<forall>s \<le> es. sound b es s (parseline n b es s) \<and> sound b es s (parsepipe n b es s) \<and>
     sound b es s (parseexec n b es s) \<and> sound b es s (parseblock n b es s))"

lemma sound_atD:
  assumes "sound_at n b es" "s \<le> es"
  shows "sound b es s (parseline n b es s)" "sound b es s (parsepipe n b es s)"
    "sound b es s (parseexec n b es s)" "sound b es s (parseblock n b es s)"
  using assms by (simp_all add: sound_at_def)

lemma sound_list: "sound b es s (and_then p (\<lambda>r. Ok (f c r)))"
  if "moved es s t" "sound b es t p" "\<forall>w \<in> set_cmd c. word_slice b es w" "\<And>r. set_cmd (f c r) = set_cmd c \<union> set_cmd r"
  using that by (cases p) (auto simp: sound_def moved_def)

lemma sound_line:
  assumes "line b es" "sound_at n b es" "s \<le> es"
  shows "sound b es s (parseline (Suc n) b es s)"
  unfolding parseline.simps
proof (rule sound_andthen)
  fix c t
  assume "parsepipe n b es s = Ok c t"
  then have c: "moved es s t" "\<forall>w \<in> set_cmd c. word_slice b es w" using sound_atD(2) [OF assms(2,3)] soundD by auto
  obtain c' t' where r: "parsebacks b es t c = (c', t')" by (cases "parsebacks b es t c")
  let ?p = "peek b es t' [59]"
  have r2: "moved es t t'" "set_cmd c' = set_cmd c" using parsebacks_ok [OF assms(1) movedD(1) [OF c(1)] r] by auto
  then have p: "moved es s (snd ?p)" using peek_moved [of t' es b] c(1) movedD by blast
  then have k: "moved es s (skip_token b es (snd ?p))" using skip_token_moved [OF assms(1)] movedD by blast
  have "sound b es s (and_then (parseline n b es (skip_token b es (snd ?p))) (\<lambda>right. Ok (ListCmd c' right)))"
    using c(2) r2(2) sound_atD(1) [OF assms(2) movedD(1) [OF k]] by (intro sound_list [OF k]) auto
  then show "sound b es s (let r = parsebacks b es t c; semi = peek b es (snd r) [59]
     in if fst semi then and_then (parseline n b es (skip_token b es (snd semi))) (\<lambda>right. Ok (ListCmd (fst r) right))
        else Ok (fst r) (snd semi))"
    using p c(2) r2(2) by (simp add: r Let_def sound_def)
qed

lemma sound_pipe:
  assumes "line b es" "sound_at n b es" "s \<le> es"
  shows "sound b es s (parsepipe (Suc n) b es s)"
  unfolding parsepipe.simps
proof (rule sound_andthen)
  fix c t
  assume "parseexec n b es s = Ok c t"
  then have c: "moved es s t" "\<forall>w \<in> set_cmd c. word_slice b es w" using sound_atD(3) [OF assms(2,3)] soundD by auto
  let ?p = "peek b es t [124]"
  have p: "moved es s (snd ?p)" using peek_moved [of t es b] c(1) movedD by blast
  then have k: "moved es s (skip_token b es (snd ?p))" using skip_token_moved [OF assms(1)] movedD by blast
  have "sound b es s (and_then (parsepipe n b es (skip_token b es (snd ?p))) (\<lambda>right. Ok (PipeCmd c right)))"
    using c(2) sound_atD(2) [OF assms(2) movedD(1) [OF k]] by (intro sound_list [OF k]) auto
  then show "sound b es s (let bar = peek b es t [124]
     in if fst bar then and_then (parsepipe n b es (skip_token b es (snd bar))) (\<lambda>right. Ok (PipeCmd c right))
        else Ok c (snd bar))"
    using p c(2) by (simp add: Let_def sound_def)
qed

lemma sound_exec:
  assumes "line b es" "sound_at n b es" "s \<le> es"
  shows "sound b es s (parseexec (Suc n) b es s)"
proof -
  let ?p = "peek b es s [40]"
  have p: "moved es s (snd ?p)" using peek_moved [OF assms(3)] .
  have "sound b es s (parseblock n b es (snd ?p))" using sound_moved [OF p] sound_atD(4) [OF assms(2) movedD(1) [OF p]] .
  moreover have "sound b es s (and_then (parseredirs b es (snd ?p)) (\<lambda>rs s. and_then (parseargs b es s 0) (\<lambda>w. Ok (wrap (ExecCmd (fst w)) (rs @ snd w)))))"
  proof (rule sound_andthen, rule sound_andthen)
    fix rs t w u
    assume "parseredirs b es (snd ?p) = Ok rs t" and a: "parseargs b es t 0 = Ok w u"
    then have t: "moved es s t" "list_all (\<lambda>r. word_slice b es (snd r)) rs"
      using parseredirs_ok [OF assms(1) movedD(1) [OF p]] p movedD by blast+
    show "sound b es s (Ok (wrap (ExecCmd (fst w)) (rs @ snd w)) u)"
      using parseargs_ok [OF assms(1) movedD(1) [OF t(1)] a] t movedD(2) [OF t(1)]
      by (intro sound_wrap) (auto simp: list_all_iff)
  qed
  ultimately show ?thesis by (simp add: Let_def)
qed

lemma sound_block:
  assumes "line b es" "sound_at n b es" "s \<le> es"
  shows "sound b es s (parseblock (Suc n) b es s)"
proof -
  let ?p = "peek b es s [40]"
  have p: "moved es s (skip_token b es (snd ?p))"
    using peek_moved [OF assms(3)] skip_token_moved [OF assms(1)] movedD by blast
  have "sound b es s (and_then (parseline n b es (skip_token b es (snd ?p))) (\<lambda>cmd s.
        let close = peek b es s [41] in
        if \<not> fst close then Err ''syntax - missing )''
        else and_then (parseredirs b es (skip_token b es (snd close))) (\<lambda>rs. Ok (wrap cmd rs))))"
  proof (rule sound_andthen)
    fix c t
    let ?c = "peek b es t [41]"
    assume "parseline n b es (skip_token b es (snd ?p)) = Ok c t"
    with sound_atD(1) [OF assms(2) movedD(1) [OF p]] have "sound b es (skip_token b es (snd ?p)) (Ok c t)" by simp
    from soundD [OF sound_moved [OF p this]] have c: "moved es s t" "\<forall>w \<in> set_cmd c. word_slice b es w" by blast+
    have "moved es t (snd ?c)" using peek_moved [OF movedD(1) [OF c(1)]] .
    with c(1) have "moved es s (snd ?c)" by (rule movedD)
    with skip_token_moved [OF assms(1) movedD(1) [OF this]] have k: "moved es s (skip_token b es (snd ?c))" using movedD(2) by blast
    have "sound b es s (and_then (parseredirs b es (skip_token b es (snd ?c))) (\<lambda>rs. Ok (wrap c rs)))"
    proof (rule sound_andthen)
      fix rs u
      assume "parseredirs b es (skip_token b es (snd ?c)) = Ok rs u"
      from parseredirs_ok [OF assms(1) movedD(1) [OF k] this] show "sound b es s (Ok (wrap c rs) u)"
        using movedD(2) [OF k, of u] c(2) by (intro sound_wrap) simp_all
    qed
    then show "sound b es s (let close = peek b es t [41] in
        if \<not> fst close then Err ''syntax - missing )''
        else and_then (parseredirs b es (skip_token b es (snd close))) (\<lambda>rs. Ok (wrap c rs)))"
      by (simp add: Let_def) (simp add: sound_def)
  qed
  then show ?thesis by (simp add: Let_def) (simp add: sound_def)
qed

lemma parse_sound: "line b es \<Longrightarrow> sound_at n b es"
proof (induction n)
  case 0
  then show ?case by (simp add: sound_at_def sound_def)
next
  case (Suc n)
  then show ?case
    using sound_line sound_pipe sound_exec sound_block unfolding sound_at_def [of "Suc n"] by blast
qed

section \<open>The depth bound is enough\<close>

text \<open>Every parenthesis, bar and semicolon uses up a byte of the line.\<close>

definition deep :: "nat \<Rightarrow> byte list \<Rightarrow> nat \<Rightarrow> bool" where
  "deep n b es \<longleftrightarrow> (\<forall>s \<le> es.
     (4 * (es - s) + 4 \<le> n \<longrightarrow> parseline n b es s \<noteq> Err ''depth'') \<and>
     (4 * (es - s) + 3 \<le> n \<longrightarrow> parsepipe n b es s \<noteq> Err ''depth'') \<and>
     (4 * (es - s) + 2 \<le> n \<longrightarrow> parseexec n b es s \<noteq> Err ''depth'') \<and>
     (4 * (es - s) + 1 \<le> n \<longrightarrow> parseblock n b es s \<noteq> Err ''depth''))"

lemma deepD:
  assumes "deep n b es" "s \<le> es"
  shows "4 * (es - s) + 4 \<le> n \<Longrightarrow> parseline n b es s \<noteq> Err ''depth''"
    "4 * (es - s) + 3 \<le> n \<Longrightarrow> parsepipe n b es s \<noteq> Err ''depth''"
    "4 * (es - s) + 2 \<le> n \<Longrightarrow> parseexec n b es s \<noteq> Err ''depth''"
    "4 * (es - s) + 1 \<le> n \<Longrightarrow> parseblock n b es s \<noteq> Err ''depth''"
  using assms by (simp_all add: deep_def)

lemma after_token:
  assumes "line b es" "s \<le> es" "set toks \<subseteq> set symbols" "fst (peek b es s toks)"
  shows "skip_token b es (snd (peek b es s toks)) \<le> es" "es - skip_token b es (snd (peek b es s toks)) < es - s"
proof -
  show k: "skip_token b es (snd (peek b es s toks)) \<le> es"
    using peek_moved [OF assms(2)] skip_token_moved [OF assms(1)] movedD by blast
  show "es - skip_token b es (snd (peek b es s toks)) < es - s"
    using k skip_token_progress [OF assms(3,4)] by simp
qed

lemma deep_line:
  assumes "line b es" "deep n b es" "s \<le> es" "4 * (es - s) + 4 \<le> Suc n"
  shows "parseline (Suc n) b es s \<noteq> Err ''depth''"
proof
  assume "parseline (Suc n) b es s = Err ''depth''"
  moreover have "parsepipe n b es s \<noteq> Err ''depth''" using deepD(2) [OF assms(2,3)] assms(4) by simp
  ultimately obtain c t where c: "parsepipe n b es s = Ok c t"
    and e: "fst (peek b es (snd (parsebacks b es t c)) [59])"
    "parseline n b es (skip_token b es (snd (peek b es (snd (parsebacks b es t c)) [59]))) = Err ''depth''"
    by (auto simp: and_then_Err Let_def split: if_splits)
  have "moved es s t" using soundD sound_atD(2) [OF parse_sound [OF assms(1)] assms(3), of n] c by auto
  moreover obtain c' t' where r: "parsebacks b es t c = (c', t')" by (cases "parsebacks b es t c")
  ultimately have t': "s \<le> t'" "t' \<le> es" using parsebacks_ok [OF assms(1) _ r] by (auto simp: moved_def)
  have "skip_token b es (snd (peek b es t' [59])) \<le> es" "es - skip_token b es (snd (peek b es t' [59])) < es - t'"
    using e(1) r by (intro after_token [OF assms(1) t'(2)]; simp add: symbols_def)+
  moreover from this(2) t'(1) assms(4) have "4 * (es - skip_token b es (snd (peek b es t' [59]))) + 4 \<le> n" by linarith
  ultimately show False using deepD(1) [OF assms(2), of "skip_token b es (snd (peek b es t' [59]))"] e(2) r by simp
qed

lemma deep_pipe:
  assumes "line b es" "deep n b es" "s \<le> es" "4 * (es - s) + 3 \<le> Suc n"
  shows "parsepipe (Suc n) b es s \<noteq> Err ''depth''"
proof
  assume "parsepipe (Suc n) b es s = Err ''depth''"
  moreover have "parseexec n b es s \<noteq> Err ''depth''" using deepD(3) [OF assms(2,3)] assms(4) by simp
  ultimately obtain c t where c: "parseexec n b es s = Ok c t" and e: "fst (peek b es t [124])"
    "parsepipe n b es (skip_token b es (snd (peek b es t [124]))) = Err ''depth''"
    by (auto simp: and_then_Err Let_def split: if_splits)
  have t: "s \<le> t" "t \<le> es" using soundD sound_atD(3) [OF parse_sound [OF assms(1)] assms(3), of n] c by (auto simp: moved_def)
  have "skip_token b es (snd (peek b es t [124])) \<le> es" "es - skip_token b es (snd (peek b es t [124])) < es - t"
    using e(1) by (intro after_token [OF assms(1) t(2)]; simp add: symbols_def)+
  moreover from this(2) t(1) assms(4) have "4 * (es - skip_token b es (snd (peek b es t [124]))) + 3 \<le> n" by linarith
  ultimately show False using deepD(2) [OF assms(2), of "skip_token b es (snd (peek b es t [124]))"] e(2) by simp
qed

lemma deep_exec:
  assumes "line b es" "deep n b es" "s \<le> es" "4 * (es - s) + 2 \<le> Suc n"
  shows "parseexec (Suc n) b es s \<noteq> Err ''depth''"
proof -
  have "s \<le> snd (peek b es s [40])" "snd (peek b es s [40]) \<le> es" using peek_moved [OF assms(3)] by (simp_all add: moved_def)
  then have "parseblock n b es (snd (peek b es s [40])) \<noteq> Err ''depth''"
    using assms(4) by (intro deepD(4) [OF assms(2)]) linarith+
  then show ?thesis by (auto simp: Let_def and_then_Err parseredirs_depth parseargs_depth)
qed

lemma deep_block:
  assumes "line b es" "deep n b es" "s \<le> es" "4 * (es - s) + 1 \<le> Suc n"
  shows "parseblock (Suc n) b es s \<noteq> Err ''depth''"
proof -
  have "parseline n b es (skip_token b es (snd (peek b es s [40]))) \<noteq> Err ''depth''" if "fst (peek b es s [40])"
  proof -
    have "skip_token b es (snd (peek b es s [40])) \<le> es" "es - skip_token b es (snd (peek b es s [40])) < es - s"
      using that by (intro after_token [OF assms(1,3)]; simp add: symbols_def)+
    then show ?thesis using assms(4) by (intro deepD(1) [OF assms(2)]) linarith+
  qed
  then show ?thesis by (auto simp: Let_def and_then_Err parseredirs_depth)
qed

lemma deep_enough: "line b es \<Longrightarrow> deep n b es"
proof (induction n)
  case (Suc n)
  then show ?case
    unfolding deep_def [of "Suc n"]
    by (intro allI impI conjI deep_line deep_pipe deep_exec deep_block) simp_all
qed (simp add: deep_def)

text \<open>
  \<^bold>\<open>(C33)\<close> The shell's parser ends on every line. The mutual recursion of \<^verbatim>\<open>parseline\<close>,
  \<^verbatim>\<open>parsepipe\<close>, \<^verbatim>\<open>parseexec\<close> and \<^verbatim>\<open>parseblock\<close> never goes deeper than four calls for each
  byte of the line: \<^verbatim>\<open>parsecmd\<close> returns a command for the whole line or panics with one of its
  messages.
\<close>

theorem parsecmd_terminates:
  assumes "line b es"
  shows "(\<exists>c. parsecmd b es = Ok c es) \<or> (\<exists>e. parsecmd b es = Err e \<and> e \<noteq> ''depth'')"
proof -
  have "parseline (4 * es + 4) b es 0 \<noteq> Err ''depth''" using deep_enough [OF assms, of "4 * es + 4"] by (simp add: deep_def)
  then show ?thesis unfolding parsecmd_def by (cases "parseline (4 * es + 4) b es 0") (auto simp: Let_def)
qed

theorem parsecmd_terminates_witness:
  "\<exists>e. parsecmd [40, 97, 0] 2 = Err e \<and> e \<noteq> ''depth''"
proof -
  have "line [40, 97, 0] 2" by code_simp
  moreover have "parsecmd [40, 97, 0] 2 = Err ''syntax - missing )''" by code_simp
  ultimately show ?thesis using parsecmd_terminates [of "[40, 97, 0]" 2] by auto
qed

section \<open>Strings\<close>

lemma cut_nth: "i < length b \<Longrightarrow> fold (\<lambda>(q, eq) b. b[eq := 0]) ws b ! i = (if i \<in> snd ` set ws then 0 else b ! i)"
proof (induction ws arbitrary: b)
  case (Cons w ws)
  then show ?case using Cons.IH [of "b[snd w := 0]"] by (auto simp: split_beta nth_list_update)
qed simp

lemma length_cut: "length (fold (\<lambda>(q, eq) b. b[eq := 0]) ws b) = length b"
  by (induction ws arbitrary: b) (auto simp: split_beta)

lemma length_nulterminate: "length (nulterminate c b) = length b"
  by (induction c b rule: nulterminate.induct) (simp_all add: length_cut)

lemma nulterminate_nth:
  "i < length b \<Longrightarrow> nulterminate c b ! i = (if i \<in> snd ` set_cmd c then 0 else b ! i)"
proof (induction c b rule: nulterminate.induct)
  case (1 ws b)
  then show ?case by (simp add: cut_nth)
next
  case (2 c q eq mode fd b)
  then show ?case by (cases "i = eq") (simp_all add: length_nulterminate)
next
  case (3 l r b)
  then show ?case by (simp add: length_nulterminate image_Un)
next
  case (4 l r b)
  then show ?case by (simp add: length_nulterminate image_Un)
next
  case (5 c b)
  then show ?case by simp
qed

definition slice_text :: "byte list \<Rightarrow> slice \<Rightarrow> byte list" where
  "slice_text b w = take (snd w - fst w) (drop (fst w) b)"

text \<open>
  \<^bold>\<open>(C34)\<close> Cutting the line buffer in place is safe. After \<^verbatim>\<open>parsecmd\<close> every word of the
  command, argument or file name, is a C string in the buffer that reads exactly the text between
  the word's positions, is not empty and has neither blanks nor symbols: no end mark that
  \<^verbatim>\<open>nulterminate\<close> writes for one word falls into another.
\<close>

theorem nulterminate_strings:
  assumes "line b es" "parsecmd b es = Ok c t" "w \<in> set_cmd c"
  shows "c_string (nulterminate c b) (fst w) = slice_text b w \<and> slice_text b w \<noteq> [] \<and> list_all word_char (slice_text b w)"
proof -
  have "sound b es 0 (parseline (4 * es + 4) b es 0)" using sound_atD(1) [OF parse_sound [OF assms(1)]] by simp
  then have words: "word_slice b es v" if "v \<in> set_cmd c" for v
    using assms(2) that by (auto simp: parsecmd_def and_then_Ok Let_def sound_def split: if_splits)
  let ?q = "fst w" and ?e = "snd w" and ?d = "nulterminate c b"
  have w: "?q < ?e" "?e \<le> es" "\<And>i. ?q \<le> i \<Longrightarrow> i < ?e \<Longrightarrow> word_char (chr_at b i)"
    using words [OF assms(3)] by (auto simp: word_slice_def)
  have len: "?e < length b" using w(2) assms(1) by (simp add: line_def)
  have same: "?d ! i = b ! i \<and> word_char (b ! i)" if "?q \<le> i" "i < ?e" for i
  proof -
    have i: "word_char (b ! i)" using w(3) [OF that] len that by (simp add: chr_at_def)
    have "i \<noteq> snd v" if "v \<in> set_cmd c" for v
      using words [OF that] i len \<open>i < ?e\<close> by (auto simp: word_slice_def chr_at_def)
    then show ?thesis using i len that(2) by (auto simp: nulterminate_nth)
  qed
  have "takeWhile (\<lambda>x. x \<noteq> 0) (drop ?q ?d) = take (?e - ?q) (drop ?q ?d)"
  proof (rule takeWhile_eq_take_P_nth)
    fix i
    assume "i < ?e - ?q"
    then show "drop ?q ?d ! i \<noteq> 0" using same [of "?q + i"] len by (simp add: length_nulterminate word_char_def)
  next
    show "\<not> drop ?q ?d ! (?e - ?q) \<noteq> 0" using len w(1) assms(3) by (simp add: length_nulterminate nulterminate_nth)
  qed
  moreover have "take (?e - ?q) (drop ?q ?d) = slice_text b w"
    using same len by (intro nth_equalityI) (auto simp: slice_text_def length_nulterminate)
  moreover have "list_all word_char (slice_text b w)" "slice_text b w \<noteq> []"
    using same len w(1) by (auto simp: slice_text_def list_all_length)
  ultimately show ?thesis by (simp add: c_string_def)
qed

theorem nulterminate_strings_witness:
  "parsecmd [108, 115, 62, 102, 0] 4 = Ok (RedirCmd (ExecCmd [(0, 2)]) (3, 4) 0x201 1) 4 \<and>
   c_string (nulterminate (RedirCmd (ExecCmd [(0, 2)]) (3, 4) 0x201 1) [108, 115, 62, 102, 0]) 0 = [108, 115]"
proof -
  let ?b = "[108, 115, 62, 102, 0] :: byte list" and ?c = "RedirCmd (ExecCmd [(0, 2)]) (3, 4) 0x201 1"
  have l: "line ?b 4" by code_simp
  have p: "parsecmd ?b 4 = Ok ?c 4" by code_simp
  show ?thesis using nulterminate_strings [OF l p, of "(0, 2)"] p by (simp add: slice_text_def)
qed

end
