(* ===== verification/Shell_Print.thy ===== *)
theory Shell_Print
  imports Shell
begin

text \<open>
  Printing a command and parsing the text gives the command back. The printer writes parentheses
  around every part, so that the shape of the command does not depend on the precedence of the
  operators.
\<close>

section \<open>The printer\<close>

fun show_cmd :: "byte list cmd \<Rightarrow> byte list" where
  "show_cmd (ExecCmd ws) = concat (map (\<lambda>w. w @ [32]) ws)"
| "show_cmd (RedirCmd c f mode fd) = 40 # show_cmd c @ [41, if mode = O_RDONLY then 60 else 62] @ f @ [32]"
| "show_cmd (PipeCmd l r) = 40 # show_cmd l @ [41, 124, 40] @ show_cmd r @ [41]"
| "show_cmd (ListCmd l r) = 40 # show_cmd l @ [41, 59, 40] @ show_cmd r @ [41]"
| "show_cmd (BackCmd c) = 40 # show_cmd c @ [41, 38]"

definition is_word :: "byte list \<Rightarrow> bool" where
  "is_word w \<longleftrightarrow> w \<noteq> [] \<and> list_all word_char w"

text \<open>The commands that the parser can build.\<close>

fun wf_cmd :: "byte list cmd \<Rightarrow> bool" where
  "wf_cmd (ExecCmd ws) \<longleftrightarrow> length ws < MAXARGS \<and> list_all is_word ws"
| "wf_cmd (RedirCmd c f mode fd) \<longleftrightarrow> wf_cmd c \<and> is_word f \<and>
     (mode = O_RDONLY \<and> fd = 0 \<or> mode = O_WRONLY OR O_CREATE \<and> fd = 1)"
| "wf_cmd (PipeCmd l r) \<longleftrightarrow> wf_cmd l \<and> wf_cmd r"
| "wf_cmd (ListCmd l r) \<longleftrightarrow> wf_cmd l \<and> wf_cmd r"
| "wf_cmd (BackCmd c) \<longleftrightarrow> wf_cmd c"

section \<open>Reading what follows a position\<close>

text \<open>\<open>ahead b es s xs\<close>: position \<open>s\<close> of the line is followed by \<open>xs\<close>, up to the end of the buffer.\<close>

definition ahead :: "byte list \<Rightarrow> nat \<Rightarrow> nat \<Rightarrow> byte list \<Rightarrow> bool" where
  "ahead b es s xs \<longleftrightarrow> line b es \<and> s \<le> es \<and> drop s b = xs"

lemma ahead_chr: "ahead b es s (x # xs) \<Longrightarrow> chr_at b s = x"
  by (auto simp: ahead_def line_def chr_at_def nth_via_drop)

lemma ahead_append:
  assumes "ahead b es s (w @ xs)" "0 \<notin> set w"
  shows "ahead b es (s + length w) xs"
proof -
  have d: "drop s b = w @ xs" "s \<le> es" "line b es" using assms(1) by (simp_all add: ahead_def)
  have "s + length w \<le> es"
  proof (rule ccontr)
    assume "\<not> s + length w \<le> es"
    then have "es - s < length w" using d(2) by simp
    moreover have "drop s b ! (es - s) = b ! es" using d(2,3) by (simp add: line_def)
    ultimately have "b ! es \<in> set w" using d(1) by (metis nth_append nth_mem)
    moreover have "b ! es = 0" using d(3) by (auto simp: line_def chr_at_def split: if_splits)
    ultimately show False using assms(2) by simp
  qed
  moreover have "drop (s + length w) b = xs" using d(1) by (metis append_eq_conv_conj drop_drop add.commute)
  ultimately show ?thesis using d(3) by (simp add: ahead_def)
qed

lemma ahead_Cons: "ahead b es s (x # xs) \<Longrightarrow> x \<noteq> 0 \<Longrightarrow> ahead b es (Suc s) xs"
  using ahead_append [of b es s "[x]" xs] by simp

lemma ahead_less: "ahead b es s (x # xs) \<Longrightarrow> x \<noteq> 0 \<Longrightarrow> s < es"
  using ahead_chr [of b es s x xs] by (cases "s = es") (auto simp: ahead_def line_def)

lemma skip_while_ahead:
  "ahead b es s (w @ x # xs) \<Longrightarrow> list_all P w \<Longrightarrow> 0 \<notin> set w \<Longrightarrow> \<not> P x \<Longrightarrow> skip_while P b es s = s + length w"
proof (induction w arbitrary: s)
  case Nil
  then show ?case using ahead_chr [of b es s x xs] by (subst skip_while.simps) simp
next
  case (Cons y w)
  then have "s < es" "chr_at b s = y" "ahead b es (Suc s) (w @ x # xs)"
    using ahead_less ahead_chr ahead_Cons by fastforce+
  then show ?case using Cons by (subst skip_while.simps) simp
qed

definition solid :: "byte \<Rightarrow> bool" where
  "solid x \<longleftrightarrow> x \<notin> set whitespace"

lemma skip_ws_ahead: "ahead b es s (x # xs) \<Longrightarrow> solid x \<Longrightarrow> skip_ws b es s = s"
  using skip_while_ahead [of b es s "[]" x xs] by (simp add: skip_ws_def solid_def)

lemma skip_space_ahead: "ahead b es s (32 # x # xs) \<Longrightarrow> solid x \<Longrightarrow> skip_ws b es s = Suc s"
  using skip_while_ahead [of b es s "[32]" x xs] by (simp add: skip_ws_def solid_def whitespace_def)

lemma peek_ahead: "ahead b es s (x # xs) \<Longrightarrow> solid x \<Longrightarrow> peek b es s toks = (x \<noteq> 0 \<and> x \<in> set toks, s)"
  by (simp add: peek_def Let_def skip_ws_ahead ahead_chr)

lemma symbols_solid: "x \<in> set symbols \<Longrightarrow> solid x \<and> x \<noteq> 0" "solid 0" "word_char x \<Longrightarrow> solid x \<and> x \<noteq> 0"
  by (auto simp: solid_def symbols_def whitespace_def word_char_def)

lemma skip_token_ahead:
  assumes "ahead b es s (x # y # ys)" "x \<in> set symbols" "x = 62 \<Longrightarrow> y \<noteq> 62" "solid y"
  shows "skip_token b es s = Suc s" "fst (gettoken b es s) = x"
proof -
  have x: "solid x" "x \<noteq> 0" using symbols_solid(1) [OF assms(2)] by simp_all
  have n: "ahead b es (Suc s) (y # ys)" using ahead_Cons [OF assms(1) x(2)] .
  have "skip_ws b es s = s" "chr_at b s = x" "chr_at b (Suc s) = y" "skip_ws b es (Suc s) = Suc s"
    using assms x n by (simp_all add: skip_ws_ahead ahead_chr)
  then show "skip_token b es s = Suc s" "fst (gettoken b es s) = x"
    using assms(2,3) x by (auto simp: skip_token_def gettoken_def word_chars(3))
qed

lemma gettoken_word_ahead:
  assumes "ahead b es s (w @ 32 # y # ys)" "is_word w" "solid y"
  shows "gettoken b es s = (97, s, s + length w, Suc (s + length w))" "slice_text b (s, s + length w) = w"
proof -
  have w: "list_all word_char w" "w \<noteq> []" using assms(2) by (simp_all add: is_word_def)
  then have z: "0 \<notin> set w" by (auto simp: list_all_iff word_char_def)
  obtain x w' where xw: "w = x # w'" using w(2) by (cases w) auto
  then have x: "word_char x" using w(1) by simp
  have "skip_ws b es s = s" "chr_at b s = x" using assms(1) xw x by (auto simp: skip_ws_ahead symbols_solid ahead_chr)
  moreover have "skip_while (\<lambda>x. x \<notin> set whitespace \<and> x \<notin> set symbols) b es s = s + length w"
    using assms(1) w z by (intro skip_while_ahead) (auto simp: list_all_iff word_char_def whitespace_def)
  moreover have "skip_ws b es (s + length w) = Suc (s + length w)"
    using skip_space_ahead [OF ahead_append [OF assms(1) z] assms(3)] .
  ultimately show "gettoken b es s = (97, s, s + length w, Suc (s + length w))"
    using x by (auto simp: gettoken_def word_char_def word_chars(3))
  show "slice_text b (s, s + length w) = w" using assms(1) by (simp add: slice_text_def ahead_def)
qed

section \<open>The parts of a command\<close>

definition stop :: "byte \<Rightarrow> bool" where
  "stop x \<longleftrightarrow> x = 0 \<or> x = 41"

lemma stop_solid: "stop x \<Longrightarrow> solid x"
  by (auto simp: stop_def symbols_solid symbols_def)

lemma stopD: "stop x \<Longrightarrow> x \<notin> {60, 62, 124}" "stop x \<Longrightarrow> x \<noteq> 38" "stop x \<Longrightarrow> x \<noteq> 59" "stop x \<Longrightarrow> x \<notin> {40, 60, 62}"
  "stop x \<Longrightarrow> x \<noteq> 124" "stop x \<Longrightarrow> x \<notin> {60, 62}"
  by (auto simp: stop_def)

lemma is_wordD: "is_word w \<Longrightarrow> 0 \<notin> set w" "is_word w \<Longrightarrow> \<exists>z zs. w = z # zs \<and> word_char z"
  by (auto simp: is_word_def list_all_iff word_char_def neq_Nil_conv)

lemma show_head: "wf_cmd c \<Longrightarrow> solid x \<Longrightarrow> \<exists>z zs. show_cmd c @ x # xs = z # zs \<and> solid z"
proof (cases c)
  case (ExecCmd ws)
  moreover assume "wf_cmd c" "solid x"
  ultimately show ?thesis by (cases ws) (auto dest!: is_wordD(2) simp: symbols_solid)
qed (auto simp: symbols_solid symbols_def)

lemma show_no_zero: "wf_cmd c \<Longrightarrow> 0 \<notin> set (show_cmd c)"
proof (induction c)
  case (ExecCmd ws)
  then show ?case by (auto simp: list_all_iff dest: is_wordD(1))
qed (auto dest: is_wordD(1))

lemma parseredirs_none: "ahead b es s (x # xs) \<Longrightarrow> solid x \<Longrightarrow> x \<notin> {60, 62} \<Longrightarrow> parseredirs b es s = Ok [] s"
  by (subst parseredirs.simps) (simp add: peek_ahead)

lemma parsebacks_none: "ahead b es s (x # xs) \<Longrightarrow> solid x \<Longrightarrow> x \<noteq> 38 \<Longrightarrow> parsebacks b es s c = (c, s)"
  by (subst parsebacks.simps) (simp add: peek_ahead)

lemma parseargs_ahead:
  "ahead b es s (concat (map (\<lambda>w. w @ [32]) ws) @ x # xs) \<Longrightarrow> list_all is_word ws \<Longrightarrow> stop x \<Longrightarrow> argc + length ws < MAXARGS \<Longrightarrow>
   \<exists>vs. parseargs b es s argc = Ok (vs, []) (s + length (concat (map (\<lambda>w. w @ [32]) ws))) \<and> map (slice_text b) vs = ws"
proof (induction ws arbitrary: s argc)
  case Nil
  then have "skip_ws b es s = s" "chr_at b s = x" using stop_solid by (simp_all add: skip_ws_ahead ahead_chr)
  then show ?case using Nil stop_solid [of x]
    by (subst parseargs.simps) (auto simp: peek_ahead stop_def gettoken_def)
next
  case (Cons w ws)
  let ?rest = "concat (map (\<lambda>w. w @ [32]) ws) @ x # xs"
  have w: "is_word w" using Cons.prems by simp
  obtain z zs where z: "w = z # zs" "word_char z" using is_wordD(2) [OF w] by blast
  obtain y ys where y: "?rest = y # ys" "solid y" "y \<notin> {60, 62}"
  proof (cases ws)
    case Nil
    then show ?thesis using that [of x xs] Cons.prems(3) stop_solid [of x] by (auto simp: stop_def)
  next
    case (Cons v vs)
    then obtain q qs where "v = q # qs" "word_char q" using Cons.prems(2) is_wordD(2) [of v] \<open>list_all is_word (w # ws)\<close> by auto
    then show ?thesis using that [of q "qs @ [32] @ concat (map (\<lambda>w. w @ [32]) vs) @ x # xs"] Cons
      by (auto simp: symbols_solid word_char_def symbols_def)
  qed
  have a: "ahead b es s (w @ 32 # y # ys)" using Cons.prems(1) y(1) by simp
  note g = gettoken_word_ahead [OF a w y(2)]
  have n: "ahead b es (Suc (s + length w)) ?rest"
    using ahead_append [of b es s "w @ [32]" ?rest] a y(1) is_wordD(1) [OF w] by simp
  have p: "peek b es s [124, 41, 38, 59] = (False, s)"
    using a z peek_ahead [of b es s z] by (auto simp: symbols_solid word_char_def symbols_def)
  have r: "parseredirs b es (Suc (s + length w)) = Ok [] (Suc (s + length w))" using n y by (auto intro!: parseredirs_none)
  obtain vs where "parseargs b es (Suc (s + length w)) (argc + 1) = Ok (vs, []) (Suc (s + length w) + length (concat (map (\<lambda>w. w @ [32]) ws)))"
    "map (slice_text b) vs = ws"
    using Cons.IH [OF n, of "argc + 1"] Cons.prems by auto
  then show ?case using p g r Cons.prems(4) by (subst parseargs.simps) simp
qed

section \<open>Blocks\<close>

lemma split_bound: "m + 1 \<le> n \<Longrightarrow> \<exists>k. n = Suc k \<and> m \<le> k" "m + 2 \<le> n \<Longrightarrow> \<exists>k. n = Suc (Suc k) \<and> m \<le> k"
  "m + 3 \<le> n \<Longrightarrow> \<exists>k. n = Suc (Suc (Suc k)) \<and> m \<le> k" for m n :: nat
  by (rule exI [of _ "n - 1"], linarith) (rule exI [of _ "n - 2"], linarith, rule exI [of _ "n - 3"], linarith)

definition parses :: "byte list \<Rightarrow> nat \<Rightarrow> nat \<Rightarrow> byte list cmd \<Rightarrow> bool" where
  "parses b es s c \<longleftrightarrow> (\<forall>n \<ge> 4 * (es - s) + 4. \<exists>c'. parseline n b es s = Ok c' (s + length (show_cmd c)) \<and> map_cmd (slice_text b) c' = c)"

lemma parsesD: "parses b es s c \<Longrightarrow> 4 * (es - s) + 4 \<le> n \<Longrightarrow>
  \<exists>c'. parseline n b es s = Ok c' (s + length (show_cmd c)) \<and> map_cmd (slice_text b) c' = c"
  by (simp add: parses_def)

lemma exec_block:
  assumes "ahead b es s (40 # show_cmd c @ 41 # y # ys)" "wf_cmd c" "solid y" "parses b es (Suc s) c" "4 * (es - s) + 2 \<le> n"
  shows "\<exists>c'. parseexec n b es s = and_then (parseredirs b es (Suc (Suc (s + length (show_cmd c))))) (\<lambda>rs. Ok (wrap c' rs)) \<and> map_cmd (slice_text b) c' = c"
proof -
  let ?t = "Suc s + length (show_cmd c)"
  have s: "s < es" using ahead_less [OF assms(1)] by simp
  obtain k where n: "n = Suc (Suc k)" "4 * (es - s) \<le> k" using split_bound(2) [OF assms(5)] by blast
  have "4 * (es - Suc s) + 4 \<le> k" using n(2) s by linarith
  note n = n(1) this
  obtain c' where c': "parseline k b es (Suc s) = Ok c' ?t" "map_cmd (slice_text b) c' = c" using parsesD [OF assms(4) n(2)] by blast
  obtain z zs where z: "show_cmd c @ 41 # y # ys = z # zs" "solid z"
    using show_head [OF assms(2), of 41 "y # ys"] by (auto simp: symbols_solid symbols_def)
  have a: "ahead b es s (40 # z # zs)" using assms(1) z by simp
  have s1: "skip_token b es s = Suc s" using skip_token_ahead(1) [OF a] z(2) by (simp add: symbols_def)
  have b: "ahead b es ?t (41 # y # ys)"
    using ahead_append [of b es s "40 # show_cmd c" "41 # y # ys"] assms(1) show_no_zero [OF assms(2)] by simp
  have s2: "skip_token b es ?t = Suc ?t" using skip_token_ahead(1) [OF b] assms(3) by (simp add: symbols_def)
  have "solid 40" "solid 41" by (simp_all add: symbols_solid symbols_def)
  then have "peek b es s [40] = (True, s)" "peek b es ?t [41] = (True, ?t)" using a b by (simp_all add: peek_ahead)
  then show ?thesis using s1 s2 c' by (intro exI [of _ c']) (simp add: n Let_def)
qed

lemma pipe_block:
  assumes "ahead b es s (40 # show_cmd c @ 41 # y # ys)" "wf_cmd c" "solid y" "y \<notin> {60, 62, 124}" "parses b es (Suc s) c" "4 * (es - s) + 3 \<le> n"
  shows "\<exists>c'. parsepipe n b es s = Ok c' (Suc (Suc (s + length (show_cmd c)))) \<and> map_cmd (slice_text b) c' = c"
proof -
  obtain k where n: "n = Suc k" "4 * (es - s) + 2 \<le> k" using split_bound(1) [of "4 * (es - s) + 2" n] assms(6) by auto
  have b: "ahead b es (Suc (Suc (s + length (show_cmd c)))) (y # ys)"
    using ahead_append [of b es s "40 # show_cmd c @ [41]" "y # ys"] assms(1) show_no_zero [OF assms(2)] by simp
  from exec_block [OF assms(1,2,3,5) n(2)] obtain c' where
    "parseexec k b es s = and_then (parseredirs b es (Suc (Suc (s + length (show_cmd c))))) (\<lambda>rs. Ok (wrap c' rs))" "map_cmd (slice_text b) c' = c" by blast
  then show ?thesis using assms(3,4) b
    by (intro exI [of _ c']) (simp add: n(1) parseredirs_none [OF b] peek_ahead [OF b] wrap_def Let_def)
qed

lemma line_block:
  assumes "ahead b es s (40 # show_cmd c @ 41 # y # ys)" "wf_cmd c" "stop y" "parses b es (Suc s) c" "4 * (es - s) + 4 \<le> n"
  shows "\<exists>c'. parseline n b es s = Ok c' (Suc (Suc (s + length (show_cmd c)))) \<and> map_cmd (slice_text b) c' = c"
proof -
  obtain k where n: "n = Suc k" "4 * (es - s) + 3 \<le> k" using split_bound(1) [of "4 * (es - s) + 3" n] assms(5) by auto
  have y: "solid y" "y \<notin> {60, 62, 124}" "y \<noteq> 38" "y \<noteq> 59" using stop_solid [OF assms(3)] stopD [OF assms(3)] by blast+
  have b: "ahead b es (Suc (Suc (s + length (show_cmd c)))) (y # ys)"
    using ahead_append [of b es s "40 # show_cmd c @ [41]" "y # ys"] assms(1) show_no_zero [OF assms(2)] by simp
  from pipe_block [OF assms(1,2) y(1,2) assms(4) n(2)] obtain c' where
    "parsepipe k b es s = Ok c' (Suc (Suc (s + length (show_cmd c))))" "map_cmd (slice_text b) c' = c" by blast
  then show ?thesis using y
    by (intro exI [of _ c']) (simp add: n(1) parsebacks_none [OF b] peek_ahead [OF b] Let_def)
qed

section \<open>The round trip\<close>

lemma parses_exec:
  assumes "ahead b es s (show_cmd (ExecCmd ws) @ x # xs)" "wf_cmd (ExecCmd ws)" "stop x"
  shows "parses b es s (ExecCmd ws)"
  unfolding parses_def
proof (intro allI impI)
  fix n
  let ?t = "s + length (show_cmd (ExecCmd ws))"
  assume "4 * (es - s) + 4 \<le> n"
  then obtain k where n: "n = Suc (Suc (Suc k))" using split_bound(3) [of "4 * (es - s) + 1" n] by auto
  obtain z zs where z: "show_cmd (ExecCmd ws) @ x # xs = z # zs" "solid z" "z \<notin> {40, 60, 62}"
  proof (cases ws)
    case Nil
    then show ?thesis using that [of x xs] assms(3) stop_solid [of x] by (auto simp: stop_def)
  next
    case (Cons v vs)
    then obtain q qs where "v = q # qs" "word_char q" using assms(2) is_wordD(2) [of v] by auto
    then show ?thesis using that Cons by (auto simp: symbols_solid word_char_def symbols_def)
  qed
  have a: "ahead b es s (z # zs)" using assms(1) z(1) by simp
  have e: "ahead b es ?t (x # xs)" using ahead_append [OF assms(1)] show_no_zero [OF assms(2)] by simp
  have x: "solid x" "x \<noteq> 124" "x \<noteq> 38" "x \<noteq> 59" using stop_solid [OF assms(3)] stopD [OF assms(3)] by blast+
  obtain vs where vs: "parseargs b es s 0 = Ok (vs, []) ?t" "map (slice_text b) vs = ws"
    using parseargs_ahead [of b es s ws x xs 0] assms by auto
  have "parseexec (Suc k) b es s = Ok (ExecCmd vs) ?t"
    using a z vs(1) by (simp add: peek_ahead [OF a] parseredirs_none [OF a] Let_def wrap_def)
  then have "parsepipe (Suc (Suc k)) b es s = Ok (ExecCmd vs) ?t" using x peek_ahead [OF e] by (simp add: Let_def)
  then have "parseline n b es s = Ok (ExecCmd vs) ?t" using x peek_ahead [OF e] parsebacks_none [OF e] unfolding n
    by (subst parseline.simps) (simp add: Let_def del: parsepipe.simps)
  then show "\<exists>c'. parseline n b es s = Ok c' ?t \<and> map_cmd (slice_text b) c' = ExecCmd ws" using vs(2) by auto
qed

lemma inner:
  assumes "ahead b es s (40 # show_cmd c @ 41 # zs)" "wf_cmd c"
  shows "ahead b es (Suc s) (show_cmd c @ 41 # zs)" "ahead b es (Suc (Suc (s + length (show_cmd c)))) zs"
  using ahead_Cons [OF assms(1)] ahead_append [of b es s "40 # show_cmd c @ [41]" zs] assms show_no_zero [OF assms(2)] by simp_all

text \<open>An operator between two positions.\<close>

lemma operator:
  assumes "ahead b es s (x # 40 # zs)" "x \<in> {124, 59}"
  shows "fst (peek b es s [x])" "snd (peek b es s toks) = s" "skip_token b es s = Suc s" "ahead b es (Suc s) (40 # zs)" "s < es" "solid x"
  using peek_ahead [OF assms(1)] skip_token_ahead(1) [OF assms(1)] ahead_Cons [OF assms(1)] ahead_less [OF assms(1)] assms(2)
  by (auto simp: symbols_solid symbols_def)

lemma show_parses_pipe:
  assumes l: "\<And>s x xs. ahead b es s (show_cmd l @ x # xs) \<Longrightarrow> stop x \<Longrightarrow> parses b es s l"
    and r: "\<And>s x xs. ahead b es s (show_cmd r @ x # xs) \<Longrightarrow> stop x \<Longrightarrow> parses b es s r"
    and wf: "wf_cmd l" "wf_cmd r" and a: "ahead b es s (show_cmd (PipeCmd l r) @ x # xs)" and x: "stop x"
  shows "parses b es s (PipeCmd l r)"
  unfolding parses_def
proof (intro allI impI)
  fix n
  let ?t = "Suc (Suc (s + length (show_cmd l)))"
  let ?u = "Suc (Suc (Suc ?t + length (show_cmd r)))"
  assume "4 * (es - s) + 4 \<le> n"
  then obtain k where n: "n = Suc (Suc k)" "4 * (es - s) + 2 \<le> k" using split_bound(2) [of "4 * (es - s) + 2" n] by auto
  have al: "ahead b es s (40 # show_cmd l @ 41 # 124 # 40 # show_cmd r @ 41 # x # xs)" using a by simp
  note il = inner [OF al wf(1)]
  note op = operator [OF il(2)]
  have ar: "ahead b es (Suc ?t) (40 # show_cmd r @ 41 # x # xs)" using op(4) by simp
  note ir = inner [OF ar wf(2)]
  have nx: "solid x" "x \<notin> {60, 62, 124}" "x \<noteq> 38" "x \<noteq> 59" using stop_solid [OF x] stopD [OF x] by blast+
  have "parses b es (Suc s) l" using l [OF il(1)] by (simp add: stop_def)
  from exec_block [OF al wf(1) _ this n(2)] obtain l' where l': "parseexec k b es s = Ok l' ?t" "map_cmd (slice_text b) l' = l"
    using parseredirs_none [OF il(2)] op(6) by (auto simp: wrap_def)
  have "parses b es (Suc (Suc ?t)) r" using r [OF ir(1)] by (simp add: stop_def)
  moreover have "4 * (es - Suc ?t) + 3 \<le> k" using n(2) op(5) by simp
  ultimately obtain r' where r': "parsepipe k b es (Suc ?t) = Ok r' ?u" "map_cmd (slice_text b) r' = r"
    using pipe_block [OF ar wf(2) nx(1,2)] by blast
  have "parsepipe (Suc k) b es s = Ok (PipeCmd l' r') ?u" using l'(1) r'(1) op by (simp add: Let_def)
  then have "parseline n b es s = Ok (PipeCmd l' r') ?u"
    using nx peek_ahead [OF ir(2)] parsebacks_none [OF ir(2)] unfolding n
    by (subst parseline.simps) (simp add: Let_def del: parsepipe.simps)
  then show "\<exists>c'. parseline n b es s = Ok c' (s + length (show_cmd (PipeCmd l r))) \<and> map_cmd (slice_text b) c' = PipeCmd l r"
    using l'(2) r'(2) by (intro exI [of _ "PipeCmd l' r'"]) simp
qed

lemma show_parses_list:
  assumes l: "\<And>s x xs. ahead b es s (show_cmd l @ x # xs) \<Longrightarrow> stop x \<Longrightarrow> parses b es s l"
    and r: "\<And>s x xs. ahead b es s (show_cmd r @ x # xs) \<Longrightarrow> stop x \<Longrightarrow> parses b es s r"
    and wf: "wf_cmd l" "wf_cmd r" and a: "ahead b es s (show_cmd (ListCmd l r) @ x # xs)" and x: "stop x"
  shows "parses b es s (ListCmd l r)"
  unfolding parses_def
proof (intro allI impI)
  fix n
  let ?t = "Suc (Suc (s + length (show_cmd l)))"
  let ?u = "Suc (Suc (Suc ?t + length (show_cmd r)))"
  assume "4 * (es - s) + 4 \<le> n"
  then obtain k where n: "n = Suc k" "4 * (es - s) + 3 \<le> k" using split_bound(1) [of "4 * (es - s) + 3" n] by auto
  have al: "ahead b es s (40 # show_cmd l @ 41 # 59 # 40 # show_cmd r @ 41 # x # xs)" using a by simp
  note il = inner [OF al wf(1)]
  note op = operator [OF il(2)]
  have ar: "ahead b es (Suc ?t) (40 # show_cmd r @ 41 # x # xs)" using op(4) by simp
  note ir = inner [OF ar wf(2)]
  have "parses b es (Suc s) l" using l [OF il(1)] by (simp add: stop_def)
  from pipe_block [OF al wf(1) _ _ this n(2)] obtain l' where l': "parsepipe k b es s = Ok l' ?t" "map_cmd (slice_text b) l' = l"
    using op(6) by auto
  have "parses b es (Suc (Suc ?t)) r" using r [OF ir(1)] by (simp add: stop_def)
  moreover have "4 * (es - Suc ?t) + 4 \<le> k" using n(2) op(5) by simp
  ultimately obtain r' where r': "parseline k b es (Suc ?t) = Ok r' ?u" "map_cmd (slice_text b) r' = r"
    using line_block [OF ar wf(2) x] by blast
  have "parseline n b es s = Ok (ListCmd l' r') ?u"
    using l'(1) r'(1) op parsebacks_none [OF il(2)] unfolding n
    by (subst parseline.simps) (simp add: Let_def)
  then show "\<exists>c'. parseline n b es s = Ok c' (s + length (show_cmd (ListCmd l r))) \<and> map_cmd (slice_text b) c' = ListCmd l r"
    using l'(2) r'(2) by (intro exI [of _ "ListCmd l' r'"]) simp
qed

lemma show_parses_back:
  assumes c: "\<And>s x xs. ahead b es s (show_cmd c @ x # xs) \<Longrightarrow> stop x \<Longrightarrow> parses b es s c"
    and wf: "wf_cmd c" and a: "ahead b es s (show_cmd (BackCmd c) @ x # xs)" and x: "stop x"
  shows "parses b es s (BackCmd c)"
  unfolding parses_def
proof (intro allI impI)
  fix n
  let ?t = "Suc (Suc (s + length (show_cmd c)))"
  assume "4 * (es - s) + 4 \<le> n"
  then obtain k where n: "n = Suc k" "4 * (es - s) + 3 \<le> k" using split_bound(1) [of "4 * (es - s) + 3" n] by auto
  have ac: "ahead b es s (40 # show_cmd c @ 41 # 38 # x # xs)" using a by simp
  note ic = inner [OF ac wf]
  have am: "ahead b es (Suc ?t) (x # xs)" using ahead_Cons [OF ic(2)] by simp
  have nx: "solid x" "x \<noteq> 38" "x \<noteq> 59" "solid 38" "solid 40"
    using stop_solid [OF x] stopD [OF x] symbols_solid(1) [of 38] symbols_solid(1) [of 40] by (simp_all add: symbols_def)
  have "parses b es (Suc s) c" using c [OF ic(1)] by (simp add: stop_def)
  from pipe_block [OF ac wf _ _ this n(2)] obtain c' where c': "parsepipe k b es s = Ok c' ?t" "map_cmd (slice_text b) c' = c"
    using nx by auto
  have "skip_token b es ?t = Suc ?t" using skip_token_ahead(1) [OF ic(2)] nx by (simp add: symbols_def)
  then have "parsebacks b es ?t c' = parsebacks b es (Suc ?t) (BackCmd c')"
    using peek_ahead [OF ic(2)] nx
    by (cases "gettoken b es ?t") (simp add: parsebacks.simps [of b es ?t] skip_token_def)
  also have "\<dots> = (BackCmd c', Suc ?t)" using nx by (intro parsebacks_none [OF am])
  finally have "parseline n b es s = Ok (BackCmd c') (Suc ?t)"
    using c'(1) peek_ahead [OF am] nx unfolding n by (subst parseline.simps) (simp add: Let_def)
  then show "\<exists>c'. parseline n b es s = Ok c' (s + length (show_cmd (BackCmd c))) \<and> map_cmd (slice_text b) c' = BackCmd c"
    using c'(2) by (intro exI [of _ "BackCmd c'"]) simp
qed

lemma parseredirs_one:
  assumes "ahead b es t (k # f @ 32 # x # xs)" "k \<in> {60, 62}" "is_word f" "stop x"
  shows "\<exists>v. parseredirs b es t = Ok [(k, v)] (Suc (Suc (t + length f))) \<and> slice_text b v = f"
proof -
  obtain z zs where z: "f = z # zs" "word_char z" using is_wordD(2) [OF assms(3)] by blast
  have k: "k \<in> set symbols" "solid k" "k \<noteq> 0" using assms(2) by (auto simp: symbols_solid symbols_def)
  have az: "ahead b es t (k # z # zs @ 32 # x # xs)" using assms(1) z by simp
  have z2: "solid z" "z \<noteq> 62" using z(2) by (auto simp: symbols_solid word_char_def symbols_def)
  have tok: "skip_token b es t = Suc t" "fst (gettoken b es t) = k" using skip_token_ahead [OF az k(1)] z2 by simp_all
  have af: "ahead b es (Suc t) (f @ 32 # x # xs)" using ahead_Cons [OF assms(1) k(3)] .
  note g = gettoken_word_ahead [OF af assms(3) stop_solid [OF assms(4)]]
  have "ahead b es (Suc (Suc (t + length f))) (x # xs)"
    using ahead_append [of b es "Suc t" "f @ [32]" "x # xs"] af is_wordD(1) [OF assms(3)] by simp
  then have "parseredirs b es (Suc (Suc (t + length f))) = Ok [] (Suc (Suc (t + length f)))"
    using stop_solid [OF assms(4)] stopD(6) [OF assms(4)] by (intro parseredirs_none)
  moreover have "peek b es t [60, 62] = (True, t)" using peek_ahead [OF az k(2)] assms(2) by auto
  ultimately have "parseredirs b es t = Ok [(k, Suc t, Suc t + length f)] (Suc (Suc (t + length f)))"
    using tok g(1) by (cases "gettoken b es t") (simp add: parseredirs.simps [of b es t] skip_token_def)
  then show ?thesis using g(2) by blast
qed

lemma show_parses_redir:
  assumes c: "\<And>s x xs. ahead b es s (show_cmd c @ x # xs) \<Longrightarrow> stop x \<Longrightarrow> parses b es s c"
    and wf: "wf_cmd (RedirCmd c f mode fd)" and a: "ahead b es s (show_cmd (RedirCmd c f mode fd) @ x # xs)" and x: "stop x"
  shows "parses b es s (RedirCmd c f mode fd)"
  unfolding parses_def
proof (intro allI impI)
  fix n
  let ?t = "Suc (Suc (s + length (show_cmd c)))" and ?k = "if mode = O_RDONLY then 60 else 62 :: byte"
  let ?u = "Suc (Suc (?t + length f))"
  assume "4 * (es - s) + 4 \<le> n"
  then obtain k where n: "n = Suc (Suc k)" "4 * (es - s) + 2 \<le> k" using split_bound(2) [of "4 * (es - s) + 2" n] by auto
  have w: "wf_cmd c" "is_word f" using wf by simp_all
  have ac: "ahead b es s (40 # show_cmd c @ 41 # ?k # f @ 32 # x # xs)" using a by simp
  note ic = inner [OF ac w(1)]
  have nx: "solid x" "x \<noteq> 124" "x \<noteq> 38" "x \<noteq> 59" "solid ?k"
    using stop_solid [OF x] stopD [OF x] symbols_solid(1) [of 60] symbols_solid(1) [of 62] by (simp_all add: symbols_def)
  have "?k \<in> {60, 62}" by simp
  from parseredirs_one [OF ic(2) this w(2) x] obtain v where v: "parseredirs b es ?t = Ok [(?k, v)] ?u" "slice_text b v = f" by blast
  have "parses b es (Suc s) c" using c [OF ic(1)] by (simp add: stop_def)
  from exec_block [OF ac w(1) nx(5) this n(2)] obtain c' where c': "parseexec k b es s = Ok (wrap c' [(?k, v)]) ?u" "map_cmd (slice_text b) c' = c"
    using v(1) by auto
  have r: "wrap c' [(?k, v)] = RedirCmd c' v mode fd"
    using wf by (auto simp: wrap_def redirect_def O_RDONLY_def O_WRONLY_def O_CREATE_def)
  have "0 \<notin> set (40 # show_cmd c @ 41 # ?k # f @ [32])" using show_no_zero [OF w(1)] is_wordD(1) [OF w(2)] by simp
  moreover have "ahead b es s ((40 # show_cmd c @ 41 # ?k # f @ [32]) @ x # xs)" using ac by (simp only: append_Cons append_assoc append_Nil)
  ultimately have "ahead b es (s + length (40 # show_cmd c @ 41 # ?k # f @ [32])) (x # xs)" by (rule ahead_append [rotated])
  moreover have "s + length (40 # show_cmd c @ 41 # ?k # f @ [32]) = ?u" by simp
  ultimately have au: "ahead b es ?u (x # xs)" by (simp only:)
  have "parsepipe (Suc k) b es s = Ok (RedirCmd c' v mode fd) ?u" using c'(1) r peek_ahead [OF au] nx by (simp add: Let_def)
  then have "parseline n b es s = Ok (RedirCmd c' v mode fd) ?u"
    using nx peek_ahead [OF au] parsebacks_none [OF au] unfolding n
    by (subst parseline.simps) (simp add: Let_def del: parsepipe.simps)
  then show "\<exists>c'. parseline n b es s = Ok c' (s + length (show_cmd (RedirCmd c f mode fd))) \<and> map_cmd (slice_text b) c' = RedirCmd c f mode fd"
    using c'(2) v(2) by (intro exI [of _ "RedirCmd c' v mode fd"]) simp
qed

lemma show_parses:
  "wf_cmd c \<Longrightarrow> ahead b es s (show_cmd c @ x # xs) \<Longrightarrow> stop x \<Longrightarrow> parses b es s c"
proof (induction c arbitrary: s x xs)
  case (ExecCmd ws)
  show ?case by (rule parses_exec [OF ExecCmd(2,1,3)])
next
  case (RedirCmd c f mode fd)
  show ?case by (rule show_parses_redir [OF RedirCmd.IH RedirCmd.prems]) (use RedirCmd.prems in simp)
next
  case (PipeCmd l r)
  show ?case by (rule show_parses_pipe [OF PipeCmd.IH _ _ PipeCmd.prems(2,3)]) (use PipeCmd.prems in simp_all)
next
  case (ListCmd l r)
  show ?case by (rule show_parses_list [OF ListCmd.IH _ _ ListCmd.prems(2,3)]) (use ListCmd.prems in simp_all)
next
  case (BackCmd c)
  show ?case by (rule show_parses_back [OF BackCmd.IH _ BackCmd.prems(2,3)]) (use BackCmd.prems in simp_all)
qed

text \<open>
  \<^bold>\<open>(C35)\<close> Printing and parsing are inverse. For every command that the shell can express (words
  without blanks and symbols, at most nine arguments, redirections as the shell sets them up),
  \<^verbatim>\<open>parsecmd\<close> reads its printed text to the end and builds the same command: pipelines, lists,
  background commands, redirections and parentheses nest as written, at any depth.
\<close>

theorem parse_show:
  assumes "wf_cmd c"
  shows "\<exists>c'. parsecmd (show_cmd c @ [0]) (length (show_cmd c)) = Ok c' (length (show_cmd c)) \<and>
    map_cmd (slice_text (show_cmd c @ [0])) c' = c"
proof -
  let ?b = "show_cmd c @ [0]" and ?es = "length (show_cmd c)"
  have "?b ! i \<noteq> 0" if "i < ?es" for i using that show_no_zero [OF assms] by (metis nth_append nth_mem)
  then have l: "line ?b ?es" by (simp add: line_def chr_at_def)
  then have a: "ahead ?b ?es 0 (show_cmd c @ 0 # [])" by (simp add: ahead_def)
  then have e: "ahead ?b ?es ?es [0]" using ahead_append [OF a show_no_zero [OF assms]] by simp
  have "parses ?b ?es 0 c" using show_parses [OF assms a] by (simp add: stop_def)
  from parsesD [OF this, of "4 * ?es + 4"] obtain c' where
    "parseline (4 * ?es + 4) ?b ?es 0 = Ok c' ?es" "map_cmd (slice_text ?b) c' = c" by auto
  moreover have "snd (peek ?b ?es ?es []) = ?es" using peek_ahead [OF e] symbols_solid(2) by simp
  ultimately show ?thesis by (intro exI [of _ c']) (simp add: parsecmd_def)
qed

theorem parse_show_witness:
  "\<exists>c'. parsecmd (show_cmd (PipeCmd (ExecCmd [[108, 115]]) (BackCmd (ExecCmd [[119, 99]]))) @ [0]) 14 = Ok c' 14 \<and>
    map_cmd (slice_text (show_cmd (PipeCmd (ExecCmd [[108, 115]]) (BackCmd (ExecCmd [[119, 99]]))) @ [0])) c' =
      PipeCmd (ExecCmd [[108, 115]]) (BackCmd (ExecCmd [[119, 99]]))"
proof -
  let ?c = "PipeCmd (ExecCmd [[108, 115]]) (BackCmd (ExecCmd [[119, 99]]))"
  have "wf_cmd ?c" by (simp add: is_word_def word_char_def whitespace_def symbols_def MAXARGS_def)
  moreover have "length (show_cmd ?c) = 14" by simp
  ultimately show ?thesis using parse_show [of ?c] by (simp only:)
qed

text \<open>
  The append redirection does not append. The shell reads \<^verbatim>\<open>>>\<close> as a token of its own but
  opens the file in the same mode as for \<^verbatim>\<open>>\<close>, so that the command overwrites the file from its
  start.
\<close>

lemma append_overwrites: "redirect 43 w c = redirect 62 w c"
  by (simp add: redirect_def)

end
