(* ===== verification/Shell_Run.thy ===== *)
theory Shell_Run
  imports Shell
begin

text \<open>
  Running a parsed command (\<^verbatim>\<open>runcmd\<close> of \<^verbatim>\<open>sh.c\<close>). The model follows the descriptor table of
  every process that the shell starts: forking copies it, and \<^verbatim>\<open>open\<close>, \<^verbatim>\<open>pipe\<close> and \<^verbatim>\<open>dup\<close> use the
  lowest free slots, as \<^verbatim>\<open>fdalloc\<close> does. The result lists what the processes execute and with which
  descriptors; in which order they run is left open.
\<close>

section \<open>Descriptor tables\<close>

datatype obj = Given nat | ReadEnd nat | WriteEnd nat | Opened "byte list" u32

type_synonym fds = "obj option list"

definition lowest :: "fds \<Rightarrow> nat option" where
  "lowest t = find_idx (\<lambda>x. x = None) t"

definition close :: "nat \<Rightarrow> fds \<Rightarrow> fds" where
  "close fd t = t[fd := None]"

definition dup :: "nat \<Rightarrow> fds \<Rightarrow> fds" where
  "dup fd t = (case lowest t of None \<Rightarrow> t | Some i \<Rightarrow> if fd < length t then t[i := t ! fd] else t)"

definition fd_open :: "obj \<Rightarrow> fds \<Rightarrow> fds option" where
  "fd_open x t = map_option (\<lambda>i. t[i := Some x]) (lowest t)"

text \<open>The table with both ends of pipe \<open>k\<close> open, and their descriptors.\<close>

definition fd_pipe :: "nat \<Rightarrow> fds \<Rightarrow> (nat \<times> nat \<times> fds) option" where
  "fd_pipe k t =
     (case lowest t of
        None \<Rightarrow> None
      | Some r \<Rightarrow> let t1 = t[r := Some (ReadEnd k)] in
          case lowest t1 of
            None \<Rightarrow> None
          | Some w \<Rightarrow> Some (r, w, t1[w := Some (WriteEnd k)]))"

section \<open>runcmd\<close>

datatype event = Run "byte list list" fds | Fail string

text \<open>
  \<open>opens f mode\<close> tells whether the file can be opened and \<open>k\<close> numbers the pipes. The result is the
  list of events and the next number.
\<close>

fun runcmd :: "(byte list \<Rightarrow> u32 \<Rightarrow> bool) \<Rightarrow> nat \<Rightarrow> fds \<Rightarrow> byte list cmd \<Rightarrow> event list \<times> nat" where
  "runcmd opens k t (ExecCmd argv) = (if argv = [] then ([], k) else ([Run argv t], k))"
| "runcmd opens k t (RedirCmd c f mode fd) =
     (if opens f mode then
        case fd_open (Opened f mode) (close fd t) of
          None \<Rightarrow> ([Fail ''open''], k)
        | Some t1 \<Rightarrow> runcmd opens k t1 c
      else ([Fail ''open''], k))"
| "runcmd opens k t (ListCmd l r) =
     (let x = runcmd opens k t l; y = runcmd opens (snd x) t r in (fst x @ fst y, snd y))"
| "runcmd opens k t (PipeCmd l r) =
     (case fd_pipe k t of
        None \<Rightarrow> ([Fail ''pipe''], k)
      | Some p \<Rightarrow>
          let r0 = fst p; w0 = fst (snd p); t1 = snd (snd p);
            x = runcmd opens (k + 1) (close w0 (close r0 (dup w0 (close 1 t1)))) l;
            y = runcmd opens (snd x) (close w0 (close r0 (dup r0 (close 0 t1)))) r in
          (fst x @ fst y, snd y))"
| "runcmd opens k t (BackCmd c) = runcmd opens k t c"

section \<open>Pipelines\<close>

fun pipeline :: "byte list list \<Rightarrow> byte list list list \<Rightarrow> byte list cmd" where
  "pipeline a [] = ExecCmd a"
| "pipeline a (b # bs) = PipeCmd (ExecCmd a) (pipeline b bs)"

text \<open>The processes of a pipeline that reads from \<open>i\<close> and writes to \<open>out\<close>: each reads from the pipe
  before it and writes to the pipe after it.\<close>

definition std :: "obj \<Rightarrow> obj \<Rightarrow> obj \<Rightarrow> fds" where
  "std i out err = [Some i, Some out, Some err] @ replicate (NOFILE - 3) None"

fun stages :: "nat \<Rightarrow> obj \<Rightarrow> obj \<Rightarrow> obj \<Rightarrow> byte list list \<Rightarrow> byte list list list \<Rightarrow> event list" where
  "stages k i out err a [] = [Run a (std i out err)]"
| "stages k i out err a (b # bs) = Run a (std i (WriteEnd k) err) # stages (k + 1) (ReadEnd k) out err b bs"

definition piped :: "nat \<Rightarrow> obj \<Rightarrow> obj \<Rightarrow> obj \<Rightarrow> fds" where
  "piped k i out err = [Some i, Some out, Some err, Some (ReadEnd k), Some (WriteEnd k)] @ replicate (NOFILE - 5) None"

lemma pipe_std: "fd_pipe k (std i out err) =
  Some (3, 4, piped k i out err)"
  by (simp add: fd_pipe_def lowest_def std_def piped_def eval_nat_numeral)

lemma left_end:
  "close 4 (close 3 (dup 4 (close 1 (piped k i out err)))) =
   std i (WriteEnd k) err"
  and right_end:
  "close 4 (close 3 (dup 3 (close 0 (piped k i out err)))) =
   std (ReadEnd k) out err"
  by (simp_all add: dup_def close_def lowest_def std_def piped_def eval_nat_numeral)



end
