(* ===== verification/Spec2Isabelle.thy ===== *)
theory Spec2Isabelle
  imports Files Input Slots Redo Pipes Grep Shell_Print Shell_Run
begin

text \<open>
  xv6.
\<close>

end
